theory Spec2Isabelle
  imports Complex_Main
begin

section \<open>JavaScript values\<close>

text \<open>
  The notices, release packages and filter criteria handled by the two modules kept in
  \<^verbatim>\<open>src/lib/filters.mjs\<close> are untyped JSON documents, so the embedding works on a datatype of
  JavaScript values. A number is a double: \<open>NaN\<close>, the two infinities, or a finite value,
  kept as a rational (the code only compares and subtracts numbers; \<open>-0\<close> and \<open>0\<close> are
  not distinguished by anything it does). A string is a list of 8-bit characters, read as
  the code units \<open>U+0000\<close> to \<open>U+00FF\<close> (Basic Latin and the Latin-1 Supplement); text with
  other code units is not represented. \<open>JFun f\<close> is a built-in function object; the only
  way the code meets one is by reading an inherited member of \<open>Object.prototype\<close> out of one
  of its lookup tables.
\<close>

datatype error = TypeError | RangeError

datatype jsnum = NaN | NegInf | Fin rat | PosInf

datatype jsval =
    JUndefined
  | JNull
  | JBool bool
  | JNum jsnum
  | JStr string
  | JArr "jsval list"
  | JObj "(string \<times> jsval) list"
  | JFun string

text \<open>
  Three built-ins are not defined by the repository and have no short closed form:
  \<open>Number.prototype.toString\<close> on a finite number, \<open>ToNumber\<close> on a string, and
  \<open>Date.parse\<close> (a time value in milliseconds, or \<open>NaN\<close>, here \<open>None\<close>). They are
  parameters of the model.
\<close>

record platform =
  Number_toString :: "rat \<Rightarrow> string"
  StringToNumber :: "string \<Rightarrow> jsnum"
  Date_parse :: "string \<Rightarrow> int option"

definition bindE :: "error + 'a \<Rightarrow> ('a \<Rightarrow> error + 'b) \<Rightarrow> error + 'b" where
  "bindE m f = (case m of Inl e \<Rightarrow> Inl e | Inr x \<Rightarrow> f x)"

text \<open>\<open>ToBoolean\<close>, \<open>typeof\<close>, \<open>a || b\<close> and the property read \<open>o.k\<close> (on a value that
  is not null or undefined; a missing property reads as \<open>undefined\<close>).\<close>

fun truthy :: "jsval \<Rightarrow> bool" where
  "truthy JUndefined = False"
| "truthy JNull = False"
| "truthy (JBool b) = b"
| "truthy (JNum n) = (n \<noteq> NaN \<and> n \<noteq> Fin 0)"
| "truthy (JStr s) = (s \<noteq> [])"
| "truthy (JArr xs) = True"
| "truthy (JObj kvs) = True"
| "truthy (JFun f) = True"

fun typeof :: "jsval \<Rightarrow> string" where
  "typeof JUndefined = ''undefined''"
| "typeof JNull = ''object''"
| "typeof (JBool b) = ''boolean''"
| "typeof (JNum n) = ''number''"
| "typeof (JStr s) = ''string''"
| "typeof (JArr xs) = ''object''"
| "typeof (JObj kvs) = ''object''"
| "typeof (JFun f) = ''function''"

definition orElse :: "jsval \<Rightarrow> jsval \<Rightarrow> jsval" where
  "orElse a b = (if truthy a then a else b)"

fun getProp :: "jsval \<Rightarrow> string \<Rightarrow> jsval" where
  "getProp (JObj kvs) k = (case map_of kvs k of Some v \<Rightarrow> v | None \<Rightarrow> JUndefined)"
| "getProp v k = JUndefined"

text \<open>Optional chaining \<open>a?.k\<close>.\<close>

definition getOpt :: "jsval \<Rightarrow> string \<Rightarrow> jsval" where
  "getOpt a k = (if a = JNull \<or> a = JUndefined then JUndefined else getProp a k)"

text \<open>
  A property read on an object literal of the source (\<open>STAGE_LABELS[token]\<close>,
  \<open>TYPE_ALIAS[token]\<close>) falls through to \<open>Object.prototype\<close> when the literal has no such
  key of its own.
\<close>

definition objectPrototype :: "string \<Rightarrow> jsval" where
  "objectPrototype k =
     (if k = ''constructor'' then JFun ''Object''
      else if k \<in> set [''toString'', ''toLocaleString'', ''valueOf'', ''hasOwnProperty'',
                        ''isPrototypeOf'', ''propertyIsEnumerable'', ''__defineGetter__'',
                        ''__defineSetter__'', ''__lookupGetter__'', ''__lookupSetter__'']
      then JFun k
      else if k = ''__proto__'' then JObj []
      else JUndefined)"

definition literalLookup :: "(string \<times> string) list \<Rightarrow> string \<Rightarrow> jsval" where
  "literalLookup table k =
     (case map_of table k of Some v \<Rightarrow> JStr v | None \<Rightarrow> objectPrototype k)"

section \<open>Strings\<close>

text \<open>
  \<open>String.prototype.toLowerCase\<close> on the code units of the model: the letters \<open>A\<close> to \<open>Z\<close>
  (65 to 90) and the Latin-1 capitals \<open>U+00C0\<close> to \<open>U+00DE\<close> (192 to 222) other than the
  multiplication sign \<open>U+00D7\<close> (215) move up by 32; every other code unit below 256 is
  its own lower case.
\<close>

definition charToLower :: "char \<Rightarrow> char" where
  "charToLower c =
     (let u = (of_char c :: nat) in
      if (65 \<le> u \<and> u \<le> 90) \<or> (192 \<le> u \<and> u \<le> 222 \<and> u \<noteq> 215) then char_of (u + 32)
      else c)"

definition toLowerCase :: "string \<Rightarrow> string" where
  "toLowerCase s = map charToLower s"

text \<open>
  \<open>String.prototype.toUpperCase\<close> leaves the range of the model, so its result is kept as
  a list of UTF-16 code units; \<open>units\<close> gives the code units of a string of the model. The
  letters \<open>a\<close> to \<open>z\<close> (97 to 122) and the Latin-1 small letters \<open>U+00E0\<close> to \<open>U+00FE\<close>
  (224 to 254) other than the division sign \<open>U+00F7\<close> (247) move down by 32; the sharp s
  \<open>U+00DF\<close> (223) becomes the two letters \<open>SS\<close>; \<open>U+00FF\<close> (255) becomes \<open>U+0178\<close> and the
  micro sign \<open>U+00B5\<close> (181) becomes \<open>U+039C\<close>; every other code unit below 256 is its own
  upper case.
\<close>

definition units :: "string \<Rightarrow> int list" where
  "units s = map of_char s"

definition upperUnits :: "char \<Rightarrow> int list" where
  "upperUnits c =
     (let u = (of_char c :: int) in
      if u = 223 then [83, 83]
      else if u = 255 then [376]
      else if u = 181 then [924]
      else if (97 \<le> u \<and> u \<le> 122) \<or> (224 \<le> u \<and> u \<le> 254 \<and> u \<noteq> 247) then [u - 32]
      else [u])"

definition toUpperCase :: "string \<Rightarrow> int list" where
  "toUpperCase s = concat (map upperUnits s)"

fun startsWith :: "'a list \<Rightarrow> 'a list \<Rightarrow> bool" where
  "startsWith s [] = True"
| "startsWith [] (p # ps) = False"
| "startsWith (c # cs) (p # ps) = (c = p \<and> startsWith cs ps)"

text \<open>\<open>s.includes(p)\<close> on strings, and on the code units of strings.\<close>

fun str_includes :: "'a list \<Rightarrow> 'a list \<Rightarrow> bool" where
  "str_includes [] p = (p = [])"
| "str_includes (c # cs) p = (startsWith (c # cs) p \<or> str_includes cs p)"

text \<open>\<open>parts.join(sep)\<close> on strings.\<close>

fun joinWith :: "string \<Rightarrow> string list \<Rightarrow> string" where
  "joinWith sep [] = []"
| "joinWith sep [s] = s"
| "joinWith sep (s # t # ts) = s @ sep @ joinWith sep (t # ts)"

text \<open>
  \<open>String(v)\<close>. An array joins the strings of its elements with a comma, \<open>null\<close> and
  \<open>undefined\<close> elements giving the empty string. A plain object gives
  \<open>[object Object]\<close> through the inherited \<open>toString\<close>; an object of a JSON document that
  has a key \<open>toString\<close> of its own hides the inherited method behind a value that cannot be
  called, and the conversion throws a TypeError.
\<close>

fun sequenceE :: "(error + 'a) list \<Rightarrow> error + 'a list" where
  "sequenceE [] = Inr []"
| "sequenceE (m # ms) =
     (case m of Inl e \<Rightarrow> Inl e
      | Inr x \<Rightarrow> (case sequenceE ms of Inl e \<Rightarrow> Inl e | Inr xs \<Rightarrow> Inr (x # xs)))"

fun toStr :: "platform \<Rightarrow> jsval \<Rightarrow> error + string" where
  "toStr js JUndefined = Inr ''undefined''"
| "toStr js JNull = Inr ''null''"
| "toStr js (JBool b) = Inr (if b then ''true'' else ''false'')"
| "toStr js (JNum n) =
     Inr (case n of NaN \<Rightarrow> ''NaN'' | NegInf \<Rightarrow> ''-Infinity'' | PosInf \<Rightarrow> ''Infinity''
          | Fin q \<Rightarrow> Number_toString js q)"
| "toStr js (JStr s) = Inr s"
| "toStr js (JArr xs) =
     (case sequenceE (map (\<lambda>x. if x = JNull \<or> x = JUndefined then Inr [] else toStr js x) xs) of
        Inl e \<Rightarrow> Inl e
      | Inr parts \<Rightarrow> Inr (joinWith '','' parts))"
| "toStr js (JObj kvs) =
     (if ''toString'' \<in> fst ` set kvs then Inl TypeError else Inr ''[object Object]'')"
| "toStr js (JFun f) = Inr (''function '' @ f @ ''() { [native code] }'')"

section \<open>Stage classification (\<^verbatim>\<open>src/lib/filters.mjs\<close>)\<close>

definition STAGE_LABELS_table :: "(string \<times> string) list" where
  "STAGE_LABELS_table =
     [(''pipeline'', ''Pipeline''), (''planning'', ''Planning''), (''tender'', ''Tender''),
      (''award'', ''Award''), (''contract'', ''Contract''), (''termination'', ''Termination'')]"

definition STAGE_LABELS :: "string \<Rightarrow> jsval" where
  "STAGE_LABELS = literalLookup STAGE_LABELS_table"

definition STAGE_MATCHERS :: "(string \<times> string list) list" where
  "STAGE_MATCHERS =
     [(''pipeline'', [''pipeline'', ''futureopportunity'']),
      (''planning'', [''planning'', ''preprocurement'', ''priorinformation'', ''earlyengagement'']),
      (''tender'', [''tender'', ''contractnotice'', ''callforcompetition'', ''competition'',
                    ''corrigendum'', ''voluntaryexantetransparencynotice'']),
      (''award'', [''award'', ''contractaward'']),
      (''contract'', [''contract'', ''implementation'']),
      (''termination'', [''termination'', ''terminate'', ''cancel'', ''closed''])]"

definition TYPE_ALIAS :: "string \<Rightarrow> jsval" where
  "TYPE_ALIAS = literalLookup
     [(''contract'', ''contract''), (''opportunity'', ''contract''), (''pipeline'', ''pipeline''),
      (''futureopportunity'', ''pipeline''), (''preprocurement'', ''preprocurement''),
      (''earlyengagement'', ''preprocurement'')]"

definition isLowerAlnum :: "char \<Rightarrow> bool" where
  "isLowerAlnum c = (c \<in> set ''abcdefghijklmnopqrstuvwxyz0123456789'')"

definition normaliseToken :: "platform \<Rightarrow> jsval \<Rightarrow> error + string" where
  "normaliseToken js v =
     (if \<not> truthy v \<and> v \<noteq> JNum (Fin 0) then Inr []
      else bindE (toStr js v) (\<lambda>s. Inr (filter isLowerAlnum (toLowerCase s))))"

text \<open>\<open>candidate.includes(pattern)\<close>: a string method, an array method, and a TypeError on
  anything else (the property is undefined there and is called).\<close>

fun includesMethod :: "jsval \<Rightarrow> string \<Rightarrow> error + bool" where
  "includesMethod (JStr s) p = Inr (str_includes s p)"
| "includesMethod (JArr xs) p = Inr (JStr p \<in> set xs)"
| "includesMethod v p = Inl TypeError"

text \<open>\<open>xs.some(f)\<close> with a callback that may throw: left to right, stopping at the first
  true.\<close>

fun someE :: "('a \<Rightarrow> error + bool) \<Rightarrow> 'a list \<Rightarrow> error + bool" where
  "someE f [] = Inr False"
| "someE f (x # xs) =
     (case f x of Inl e \<Rightarrow> Inl e | Inr b \<Rightarrow> if b then Inr True else someE f xs)"

fun resolveLoop :: "(string \<times> string list) list \<Rightarrow> jsval list \<Rightarrow> error + string" where
  "resolveLoop [] vals = Inr []"
| "resolveLoop ((token, patterns) # rest) vals =
     (case someE (\<lambda>candidate. someE (\<lambda>pattern. includesMethod candidate pattern) patterns) vals of
        Inl e \<Rightarrow> Inl e
      | Inr b \<Rightarrow> if b then Inr token else resolveLoop rest vals)"

definition resolveStageToken :: "jsval list \<Rightarrow> error + string" where
  "resolveStageToken vals = resolveLoop STAGE_MATCHERS vals"

definition normaliseContractsFinderType :: "platform \<Rightarrow> jsval \<Rightarrow> error + jsval" where
  "normaliseContractsFinderType js v =
     bindE (normaliseToken js v) (\<lambda>token.
       if token = [] then Inr (JStr [])
       else Inr (orElse (TYPE_ALIAS token) (JStr token)))"

definition normaliseProcurementStageToken :: "platform \<Rightarrow> jsval \<Rightarrow> error + string" where
  "normaliseProcurementStageToken js v =
     bindE (normaliseToken js v) (\<lambda>token.
       if token = [] then Inr []
       else if truthy (STAGE_LABELS token) then Inr token
       else resolveStageToken [JStr token])"

definition hasContractTiming :: "jsval \<Rightarrow> bool" where
  "hasContractTiming notice =
     list_ex truthy
       [getProp notice ''start'',
        getProp notice ''contractStart'',
        getProp notice ''contractStartDate'',
        getProp notice ''contractPeriodStart'',
        getOpt (getOpt (getProp notice ''contract'') ''period'') ''startDate'']"

text \<open>The local function \<open>push\<close> of \<open>collectStageCandidates\<close>, returning the tokens it
  appends.\<close>

fun pushValue :: "platform \<Rightarrow> jsval \<Rightarrow> error + string list" where
  "pushValue js (JArr xs) = bindE (sequenceE (map (pushValue js) xs)) (\<lambda>tss. Inr (concat tss))"
| "pushValue js v =
     (if v = JNull \<or> v = JUndefined \<or> v = JStr [] then Inr []
      else bindE (normaliseToken js v) (\<lambda>token. Inr (if token \<noteq> [] then [token] else [])))"

definition collectStageCandidates :: "platform \<Rightarrow> jsval \<Rightarrow> error + string list" where
  "collectStageCandidates js notice =
     bindE (sequenceE (map (\<lambda>k. pushValue js (getProp notice k))
              [''procurementStage'', ''noticeStage'', ''stage'', ''stageName'', ''noticeType'',
               ''noticeStatus'', ''type'', ''status'', ''tags''])) (\<lambda>tss.
       Inr (concat tss
            @ (if truthy (orElse (getProp notice ''awardedDate'') (getProp notice ''awardedValue''))
               then [''award''] else [])
            @ (if hasContractTiming notice then [''contract''] else [])
            @ (if truthy (orElse (getProp notice ''end'')
                          (orElse (getProp notice ''contractEnd'')
                            (orElse (getProp notice ''contractEndDate'')
                              (getProp notice ''terminationDate''))))
               then [''termination''] else [])))"

definition isContractsFinderSource :: "int list \<Rightarrow> bool" where
  "isContractsFinderSource source =
     (source = units ''CF'' \<or> source = units ''CONTRACTS FINDER'')"

definition deriveProcurementStage :: "platform \<Rightarrow> jsval \<Rightarrow> error + jsval" where
  "deriveProcurementStage js notice =
     (if \<not> truthy notice \<or> typeof notice \<noteq> ''object'' then Inr (JStr [])
      else
        bindE (normaliseProcurementStageToken js (getProp notice ''procurementStage'')) (\<lambda>explicitToken.
        if explicitToken \<noteq> [] then Inr (STAGE_LABELS explicitToken)
        else
        bindE (toStr js (orElse (getProp notice ''source'') (JStr []))) (\<lambda>src.
        bindE (normaliseContractsFinderType js (orElse (getProp notice ''noticeType'') (JStr []))) (\<lambda>typeToken.
        bindE (normaliseToken js (orElse (getProp notice ''noticeStatus'') (JStr []))) (\<lambda>statusToken.
        let source = toUpperCase src in
        if isContractsFinderSource source \<and> typeToken = JStr ''pipeline'' then Inr (STAGE_LABELS ''pipeline'')
        else if isContractsFinderSource source \<and> typeToken = JStr ''preprocurement'' then Inr (STAGE_LABELS ''planning'')
        else if isContractsFinderSource source \<and> statusToken = ''open'' then Inr (STAGE_LABELS ''tender'')
        else if isContractsFinderSource source \<and> statusToken = ''awarded''
          then Inr (if hasContractTiming notice then STAGE_LABELS ''contract'' else STAGE_LABELS ''award'')
        else if isContractsFinderSource source \<and> statusToken = ''closed'' then Inr (STAGE_LABELS ''termination'')
        else
        bindE (collectStageCandidates js notice) (\<lambda>collected.
        let candidates = (if truthy typeToken then [typeToken] else [])
                         @ map JStr collected
                         @ (if statusToken \<noteq> [] then [JStr statusToken] else []) in
        bindE (resolveStageToken candidates) (\<lambda>resolved.
        if resolved \<noteq> [] then Inr (STAGE_LABELS resolved)
        else if isContractsFinderSource source \<and> typeToken = JStr ''contract'' then Inr (STAGE_LABELS ''tender'')
        else Inr (JStr []))))))))"

section \<open>A reference platform\<close>

text \<open>
  The theorems below hold for every platform unless they say otherwise. Where an example
  needs the value of \<open>Date.parse\<close> on a particular string, the platform is required to
  agree with \<open>isoDateParse\<close>, the ECMAScript date-time string format restricted to the
  two shapes \<open>YYYY-MM-DD\<close> and \<open>YYYY-MM-DDTHH:mm:ssZ\<close> (both UTC). \<open>referencePlatform\<close>
  is one such platform, the one that takes nothing else for a date. Its other two
  members are exact where the evaluations below use them: \<open>Number.prototype.toString\<close> on
  integers below \<open>10^21\<close> in absolute value, \<open>ToNumber\<close> on the empty string and on strings
  of up to fifteen decimal digits.
\<close>

definition digitValue :: "char \<Rightarrow> nat option" where
  "digitValue c = map_of (zip ''0123456789'' [0, 1, 2, 3, 4, 5, 6, 7, 8, 9]) c"

fun digitsValue :: "nat \<Rightarrow> string \<Rightarrow> nat option" where
  "digitsValue acc [] = Some acc"
| "digitsValue acc (c # cs) =
     (case digitValue c of None \<Rightarrow> None | Some d \<Rightarrow> digitsValue (10 * acc + d) cs)"

definition decimalValue :: "string \<Rightarrow> nat option" where
  "decimalValue s = (if s = [] then None else digitsValue 0 s)"

definition isLeapYear :: "int \<Rightarrow> bool" where
  "isLeapYear y = (y mod 4 = 0 \<and> (y mod 100 \<noteq> 0 \<or> y mod 400 = 0))"

definition dayFromYear :: "int \<Rightarrow> int" where
  "dayFromYear y =
     365 * (y - 1970) + (y - 1969) div 4 - (y - 1901) div 100 + (y - 1601) div 400"

definition daysInMonth :: "int \<Rightarrow> nat \<Rightarrow> nat" where
  "daysInMonth y m =
     (if m = 2 then (if isLeapYear y then 29 else 28)
      else if m \<in> set [4, 6, 9, 11] then 30 else 31)"

definition daysBeforeMonth :: "int \<Rightarrow> nat \<Rightarrow> int" where
  "daysBeforeMonth y m = (\<Sum>k \<leftarrow> [1..<m]. int (daysInMonth y k))"

definition makeDate :: "nat \<Rightarrow> nat \<Rightarrow> nat \<Rightarrow> nat \<Rightarrow> nat \<Rightarrow> nat \<Rightarrow> int option" where
  "makeDate y m d hh mm ss =
     (if 1 \<le> m \<and> m \<le> 12 \<and> 1 \<le> d \<and> d \<le> daysInMonth (int y) m
         \<and> hh < 24 \<and> mm < 60 \<and> ss < 60
      then Some ((dayFromYear (int y) + daysBeforeMonth (int y) m + int d - 1) * 86400000
                 + int hh * 3600000 + int mm * 60000 + int ss * 1000)
      else None)"

definition isoDate :: "string \<Rightarrow> (nat \<times> nat \<times> nat) option" where
  "isoDate s =
     (if length s = 10 \<and> s ! 4 = CHR ''-'' \<and> s ! 7 = CHR ''-''
      then (case (decimalValue (take 4 s), decimalValue (take 2 (drop 5 s)),
                  decimalValue (drop 8 s)) of
              (Some y, Some m, Some d) \<Rightarrow> Some (y, m, d)
            | _ \<Rightarrow> None)
      else None)"

definition isoTime :: "string \<Rightarrow> (nat \<times> nat \<times> nat) option" where
  "isoTime s =
     (if length s = 10 \<and> s ! 0 = CHR ''T'' \<and> s ! 3 = CHR '':'' \<and> s ! 6 = CHR '':''
         \<and> s ! 9 = CHR ''Z''
      then (case (decimalValue (take 2 (drop 1 s)), decimalValue (take 2 (drop 4 s)),
                  decimalValue (take 2 (drop 7 s))) of
              (Some hh, Some mm, Some ss) \<Rightarrow> Some (hh, mm, ss)
            | _ \<Rightarrow> None)
      else None)"

definition isoDateParse :: "string \<Rightarrow> int option" where
  "isoDateParse s =
     (case isoDate (take 10 s) of
        None \<Rightarrow> None
      | Some (y, m, d) \<Rightarrow>
          (if length s = 10 then makeDate y m d 0 0 0
           else (case isoTime (drop 10 s) of
                   None \<Rightarrow> None
                 | Some (hh, mm, ss) \<Rightarrow> makeDate y m d hh mm ss)))"

definition agreesWithIso :: "platform \<Rightarrow> bool" where
  "agreesWithIso js = (\<forall>s t. isoDateParse s = Some t \<longrightarrow> Date_parse js s = Some t)"

fun natDigits :: "nat \<Rightarrow> nat \<Rightarrow> string" where
  "natDigits 0 n = []"
| "natDigits (Suc fuel) n =
     (if n < 10 then [''0123456789'' ! n]
      else natDigits fuel (n div 10) @ [''0123456789'' ! (n mod 10)])"

definition integerString :: "int \<Rightarrow> string" where
  "integerString i =
     (if i < 0 then CHR ''-'' # natDigits (Suc (nat (- i))) (nat (- i))
      else natDigits (Suc (nat i)) (nat i))"

definition referencePlatform :: platform where
  "referencePlatform =
     \<lparr> Number_toString = (\<lambda>q. integerString \<lfloor>q\<rfloor>),
       StringToNumber = (\<lambda>s. if s = [] then Fin 0
                               else case decimalValue s of None \<Rightarrow> NaN | Some n \<Rightarrow> Fin (of_nat n)),
       Date_parse = isoDateParse \<rparr>"

text \<open>The six stage tokens and their labels, and what the search route stores on a notice:
  \<open>procurementStage: stageLabel || null\<close> (\<^verbatim>\<open>src/unnamed/part_000\<close>, lines 122-123).\<close>

definition stageTokens :: "string list" where
  "stageTokens = [''pipeline'', ''planning'', ''tender'', ''award'', ''contract'', ''termination'']"

definition stageLabels :: "jsval list" where
  "stageLabels = [JStr ''Pipeline'', JStr ''Planning'', JStr ''Tender'', JStr ''Award'',
                  JStr ''Contract'', JStr ''Termination'']"

definition stageOrNull :: "jsval \<Rightarrow> jsval" where
  "stageOrNull stageLabel = orElse stageLabel JNull"

fun updateProp :: "string \<Rightarrow> jsval \<Rightarrow> (string \<times> jsval) list \<Rightarrow> (string \<times> jsval) list" where
  "updateProp k v [] = [(k, v)]"
| "updateProp k v ((k', v') # kvs) =
     (if k' = k then (k, v) # kvs else (k', v') # updateProp k v kvs)"

text \<open>\<open>{ ...notice, procurementStage: stageLabel || null }\<close> on the notice the route has
  just built.\<close>

definition attachStage :: "platform \<Rightarrow> (string \<times> jsval) list \<Rightarrow> error + jsval" where
  "attachStage js props =
     bindE (deriveProcurementStage js (JObj props)) (\<lambda>stageLabel.
       Inr (JObj (updateProp ''procurementStage'' (stageOrNull stageLabel) props)))"

section \<open>Authority keywords and release selection (the module \<open>fts.mjs\<close>)\<close>

text \<open>The module \<open>fts.mjs\<close> is the second module kept in \<^verbatim>\<open>src/lib/filters.mjs\<close>, from
  line 289 on; line numbers are those of that file.\<close>

definition FTS_AUTHORITY_KEYWORDS :: "string list" where
  "FTS_AUTHORITY_KEYWORDS = [''nhs'', ''nhs trust'', ''nhs foundation trust'', ''national health service'']"

text \<open>
  \<open>NHS_REGEX = /(^|\W)nhs(\W|$)/i\<close>. A match starts either at the beginning of the input
  or on a character outside \<open>[A-Za-z0-9_]\<close>, reads the three letters in either case, and
  ends at the end of the input or before a character outside \<open>[A-Za-z0-9_]\<close>. With the
  flag \<open>i\<close> and without the flag \<open>u\<close> a letter of the pattern matches the characters with
  the same canonical form, which is never an ASCII letter for a character outside ASCII:
  the letter itself and its capital. \<open>nhsRegexFrom prev s\<close> looks for the letters in \<open>s\<close>,
  \<open>prev\<close> being the character just before \<open>s\<close>.
\<close>

definition isWordChar :: "char \<Rightarrow> bool" where
  "isWordChar c =
     (c \<in> set ''abcdefghijklmnopqrstuvwxyzABCDEFGHIJKLMNOPQRSTUVWXYZ0123456789_'')"

fun nhsHere :: "string \<Rightarrow> bool" where
  "nhsHere (a # b # c # rest) =
     (a \<in> set ''nN'' \<and> b \<in> set ''hH'' \<and> c \<in> set ''sS''
      \<and> (case rest of [] \<Rightarrow> True | d # _ \<Rightarrow> \<not> isWordChar d))"
| "nhsHere s = False"

fun nhsRegexFrom :: "char option \<Rightarrow> string \<Rightarrow> bool" where
  "nhsRegexFrom prev [] = False"
| "nhsRegexFrom prev (c # cs) =
     (((case prev of None \<Rightarrow> True | Some p \<Rightarrow> \<not> isWordChar p) \<and> nhsHere (c # cs))
      \<or> nhsRegexFrom (Some c) cs)"

definition NHS_REGEX_test :: "string \<Rightarrow> bool" where
  "NHS_REGEX_test s = nhsRegexFrom None s"

fun containsAuthorityKeyword :: "jsval \<Rightarrow> bool" where
  "containsAuthorityKeyword (JStr s) =
     (if NHS_REGEX_test s then True
      else let upper = toUpperCase s in
        if str_includes upper (units ''NHS'') then True
        else list_ex (\<lambda>keyword. str_includes upper (toUpperCase keyword)) FTS_AUTHORITY_KEYWORDS)"
| "containsAuthorityKeyword v = False"

text \<open>
  \<open>a === b\<close>. Primitive values are compared by value (\<open>NaN\<close> equals nothing). Two objects or
  two arrays are equal when they are the same object, which their content does not decide:
  \<open>same\<close> is the relation that says which of the objects at hand are one object, and what
  is proved below is proved for every such relation.
\<close>

fun strictEquals :: "(jsval \<Rightarrow> jsval \<Rightarrow> bool) \<Rightarrow> jsval \<Rightarrow> jsval \<Rightarrow> bool" where
  "strictEquals same JUndefined b = (b = JUndefined)"
| "strictEquals same JNull b = (b = JNull)"
| "strictEquals same (JBool x) b = (b = JBool x)"
| "strictEquals same (JNum n) b = (n \<noteq> NaN \<and> b = JNum n)"
| "strictEquals same (JStr s) b = (b = JStr s)"
| "strictEquals same (JFun f) b = (b = JFun f)"
| "strictEquals same (JArr xs) b = (case b of JArr ys \<Rightarrow> same (JArr xs) b | _ \<Rightarrow> False)"
| "strictEquals same (JObj kvs) b = (case b of JObj kvs' \<Rightarrow> same (JObj kvs) b | _ \<Rightarrow> False)"

text \<open>A property read that throws on \<open>null\<close> and \<open>undefined\<close>.\<close>

definition readProp :: "jsval \<Rightarrow> string \<Rightarrow> error + jsval" where
  "readProp v k = (if v = JNull \<or> v = JUndefined then Inl TypeError else Inr (getProp v k))"

text \<open>\<open>releases.find(release => release.id === noticeId)\<close>, \<open>undefined\<close> when nothing is
  found.\<close>

fun findById :: "(jsval \<Rightarrow> jsval \<Rightarrow> bool) \<Rightarrow> jsval \<Rightarrow> jsval list \<Rightarrow> error + jsval" where
  "findById same noticeId [] = Inr JUndefined"
| "findById same noticeId (release # rest) =
     bindE (readProp release ''id'') (\<lambda>rid.
       if strictEquals same rid noticeId then Inr release else findById same noticeId rest)"

text \<open>The sort key of the comparator, \<open>Date.parse(a.date || "") || 0\<close>.\<close>

definition releaseTime :: "platform \<Rightarrow> jsval \<Rightarrow> error + int" where
  "releaseTime js a =
     bindE (readProp a ''date'') (\<lambda>d.
     bindE (toStr js (orElse d (JStr []))) (\<lambda>text.
       Inr (case Date_parse js text of None \<Rightarrow> 0 | Some t \<Rightarrow> t)))"

text \<open>
  \<open>[...releases].sort((a, b) => dateB - dateA)\<close>: the comparator is consistent, so the
  result is the stable arrangement by decreasing key. \<open>undefined\<close> elements go last without
  the comparator being called, and an array of fewer than two elements is returned without
  any call.
\<close>

definition sortByDateDesc :: "platform \<Rightarrow> jsval list \<Rightarrow> error + jsval list" where
  "sortByDateDesc js releases =
     (let defined = filter (\<lambda>r. r \<noteq> JUndefined) releases;
          undefineds = filter (\<lambda>r. r = JUndefined) releases in
      if length defined < 2 then Inr (defined @ undefineds)
      else bindE (sequenceE (map (releaseTime js) defined)) (\<lambda>times.
             Inr (map snd (sort_key (\<lambda>(t, r). - t) (zip times defined)) @ undefineds)))"

definition selectRelevantRelease ::
  "(jsval \<Rightarrow> jsval \<Rightarrow> bool) \<Rightarrow> platform \<Rightarrow> jsval \<Rightarrow> jsval \<Rightarrow> error + jsval" where
  "selectRelevantRelease same js pkg noticeId =
     (if \<not> truthy pkg then Inr JNull
      else case getProp pkg ''releases'' of
        JArr releases \<Rightarrow>
          (if releases = [] then Inr JNull
           else if \<not> truthy noticeId then Inr (hd releases)
           else bindE (findById same noticeId releases) (\<lambda>byId.
             if truthy byId then Inr byId
             else bindE (sortByDateDesc js releases) (\<lambda>sorted.
               Inr (orElse (hd sorted) JNull))))
      | _ \<Rightarrow> Inr JNull)"

text \<open>\<open>normalizeNotice(raw) = { ...raw }\<close> on a record given by its properties.\<close>

definition normalizeNotice :: "(string \<times> jsval) list \<Rightarrow> jsval" where
  "normalizeNotice raw = JObj raw"

text \<open>
  \<open>mapReleasePackageToNotice(base, pkg)\<close>. The base record is an object built by the two
  callers. Everything after the test \<open>if (!release)\<close> (lines 470-526, the flattening of
  the selected release) is the parameter \<open>project\<close>.
\<close>

definition mapReleasePackageToNotice ::
  "(jsval \<Rightarrow> jsval \<Rightarrow> bool) \<Rightarrow> platform \<Rightarrow> ((string \<times> jsval) list \<Rightarrow> jsval \<Rightarrow> error + jsval)
     \<Rightarrow> (string \<times> jsval) list \<Rightarrow> jsval \<Rightarrow> error + jsval" where
  "mapReleasePackageToNotice same js project base pkg =
     bindE (selectRelevantRelease same js pkg (getProp (JObj base) ''id'')) (\<lambda>release.
       if \<not> truthy release then Inr (normalizeNotice base)
       else project base release)"

section \<open>The filter engine (\<open>applyFilters\<close>, \<^verbatim>\<open>src/lib/filters.mjs\<close>)\<close>

text \<open>
  \<open>Number(v)\<close>: an array, an object or a function is first converted to a string (its
  \<open>valueOf\<close> returns the object itself).
\<close>

fun toNumber :: "platform \<Rightarrow> jsval \<Rightarrow> error + jsnum" where
  "toNumber js JUndefined = Inr NaN"
| "toNumber js JNull = Inr (Fin 0)"
| "toNumber js (JBool b) = Inr (Fin (if b then 1 else 0))"
| "toNumber js (JNum n) = Inr n"
| "toNumber js (JStr s) = Inr (StringToNumber js s)"
| "toNumber js v = bindE (toStr js v) (\<lambda>s. Inr (StringToNumber js s))"

text \<open>\<open>a < b\<close> on numbers; \<open>a > b\<close> is \<open>jsLess b a\<close>.\<close>

fun jsLess :: "jsnum \<Rightarrow> jsnum \<Rightarrow> bool" where
  "jsLess NaN b = False"
| "jsLess a NaN = False"
| "jsLess PosInf b = False"
| "jsLess a NegInf = False"
| "jsLess NegInf b = True"
| "jsLess a PosInf = True"
| "jsLess (Fin x) (Fin y) = (x < y)"

text \<open>
  The criteria object. \<open>keywordsC\<close> is the member \<open>keywords\<close> (a reserved word here). The
  lists are lists of strings, as \<^verbatim>\<open>src/types/filters.d.ts\<close> declares them; the four bounds
  are any value (\<open>undefined\<close> when absent, \<open>null\<close> from the search route).
\<close>

record criteria =
  keywordsC :: "string list"
  types :: "string list"
  statuses :: "string list"
  procurementStages :: "string list"
  dateFrom :: jsval
  dateTo :: jsval
  valueFrom :: jsval
  valueTo :: jsval
  sources :: "string list"

definition noCriteria :: criteria where
  "noCriteria = \<lparr> keywordsC = [], types = [], statuses = [], procurementStages = [],
                   dateFrom = JUndefined, dateTo = JUndefined,
                   valueFrom = JUndefined, valueTo = JUndefined, sources = [] \<rparr>"

text \<open>The constants computed before the filter loop (lines 44-62). A \<open>Set\<close> is kept as the
  list of its members; \<open>null\<close> is \<open>None\<close>; the sources, which are upper-cased, are lists of
  code units.\<close>

record prepared =
  kw :: "string list"
  typeSet :: "jsval list"
  statusSet :: "string list"
  stageSet :: "string list"
  minValue :: "jsnum option"
  maxValue :: "jsnum option"
  fromTime :: "int option"
  toTime :: "int option"
  sourceSet :: "int list list"

definition valueBound :: "platform \<Rightarrow> jsval \<Rightarrow> error + jsnum option" where
  "valueBound js v =
     (case v of
        JNum n \<Rightarrow> Inr (Some n)
      | _ \<Rightarrow> if truthy v then bindE (toNumber js v) (\<lambda>n. Inr (Some n)) else Inr None)"

definition normaliseDateStart :: "platform \<Rightarrow> jsval \<Rightarrow> error + int option" where
  "normaliseDateStart js v =
     bindE (toStr js v) (\<lambda>text.
       case Date_parse js (text @ ''T00:00:00Z'') of
         None \<Rightarrow> Inr (Date_parse js text)
       | Some parsed \<Rightarrow> Inr (Some parsed))"

definition normaliseDateEnd :: "platform \<Rightarrow> jsval \<Rightarrow> error + int option" where
  "normaliseDateEnd js v =
     bindE (toStr js v) (\<lambda>text.
       case Date_parse js (text @ ''T23:59:59Z'') of
         None \<Rightarrow> Inr (Date_parse js text)
       | Some parsed \<Rightarrow> Inr (Some parsed))"

definition expandSource :: "int list \<Rightarrow> int list list" where
  "expandSource v =
     (if v = [] then []
      else if v = units ''FTS'' then [units ''FTS'', units ''TD'']
      else if v = units ''TD'' then [units ''FTS'', units ''TD'']
      else [v])"

definition prepare :: "platform \<Rightarrow> criteria \<Rightarrow> error + prepared" where
  "prepare js c =
     bindE (sequenceE (map (\<lambda>t. normaliseContractsFinderType js (JStr t)) (types c))) (\<lambda>typeTokens.
     bindE (sequenceE (map (\<lambda>s. normaliseProcurementStageToken js (JStr s)) (procurementStages c))) (\<lambda>stageTokens.
     bindE (valueBound js (valueFrom c)) (\<lambda>minV.
     bindE (valueBound js (valueTo c)) (\<lambda>maxV.
     bindE (if truthy (dateFrom c) then normaliseDateStart js (dateFrom c) else Inr None) (\<lambda>fromT.
     bindE (if truthy (dateTo c) then normaliseDateEnd js (dateTo c) else Inr None) (\<lambda>toT.
       Inr \<lparr> kw = filter (\<lambda>k. k \<noteq> []) (map toLowerCase (keywordsC c)),
             typeSet = filter truthy typeTokens,
             statusSet = filter (\<lambda>s. s \<noteq> []) (map toLowerCase (statuses c)),
             stageSet = filter (\<lambda>t. t \<noteq> []) stageTokens,
             minValue = minV,
             maxValue = maxV,
             fromTime = fromT,
             toTime = toT,
             sourceSet = concat (map (\<lambda>source. expandSource (toUpperCase source)) (sources c)) \<rparr>))))))"

definition buildSearchableBlob :: "platform \<Rightarrow> jsval \<Rightarrow> error + string" where
  "buildSearchableBlob js notice =
     bindE (sequenceE (map (\<lambda>k. toStr js (orElse (getProp notice k) (JStr [])))
              [''title'', ''description'', ''cpvCodes'', ''organisationName'',
               ''organisationAddress'', ''regionText'', ''region'', ''noticeIdentifier''])) (\<lambda>parts.
       Inr (toLowerCase (joinWith '' '' parts)))"

definition matchesAuthorityKeywords :: "jsval \<Rightarrow> bool" where
  "matchesAuthorityKeywords notice =
     list_ex (\<lambda>k. containsAuthorityKeyword (getProp notice k))
       [''organisationName'', ''organisationAddress'', ''title'', ''description'',
        ''regionText'', ''region'']"

definition parseDateSafe :: "platform \<Rightarrow> jsval \<Rightarrow> error + int option" where
  "parseDateSafe js v =
     (if \<not> truthy v then Inr None
      else bindE (toStr js v) (\<lambda>text. Inr (Date_parse js text)))"

definition parseNumberSafe :: "platform \<Rightarrow> jsval \<Rightarrow> error + jsnum option" where
  "parseNumberSafe js v =
     (if v = JNull \<or> v = JUndefined \<or> v = JStr [] then Inr None
      else bindE (toNumber js v) (\<lambda>numeric. Inr (if numeric = NaN then None else Some numeric)))"

text \<open>The values of a list of optional results that are not \<open>null\<close>.\<close>

definition nonNull :: "'a option list \<Rightarrow> 'a list" where
  "nonNull xs = concat (map (\<lambda>x. case x of None \<Rightarrow> [] | Some v \<Rightarrow> [v]) xs)"

text \<open>A time bound used as a condition (\<open>fromTime || toTime\<close>, \<open>fromTime && ...\<close>): \<open>null\<close>
  and \<open>0\<close> are falsy.\<close>

definition truthyTime :: "int option \<Rightarrow> bool" where
  "truthyTime t = (case t of None \<Rightarrow> False | Some ms \<Rightarrow> ms \<noteq> 0)"

text \<open>Lines 93-104, the date range: \<open>Inr False\<close> is \<open>return false\<close>, \<open>Inr True\<close> goes on to
  the next test.\<close>

definition passesDateRange :: "platform \<Rightarrow> int option \<Rightarrow> int option \<Rightarrow> jsval \<Rightarrow> error + bool" where
  "passesDateRange js fromT toT notice =
     (if truthyTime fromT \<or> truthyTime toT then
        bindE (parseDateSafe js (getProp notice ''publishedDate'')) (\<lambda>published.
        bindE (case published of
                 Some t \<Rightarrow> Inr (Some t)
               | None \<Rightarrow>
                   bindE (sequenceE (map (\<lambda>k. parseDateSafe js (getProp notice k))
                            [''lastNotifiableUpdate'', ''awardedDate'', ''deadlineDate''])) (\<lambda>parsed.
                     Inr (case nonNull parsed of [] \<Rightarrow> None | t # _ \<Rightarrow> Some t))) (\<lambda>candidate.
          case candidate of
            None \<Rightarrow> Inr False
          | Some t \<Rightarrow>
              if truthyTime fromT \<and> (case fromT of Some f \<Rightarrow> t < f | None \<Rightarrow> False) then Inr False
              else if truthyTime toT \<and> (case toT of Some u \<Rightarrow> t > u | None \<Rightarrow> False) then Inr False
              else Inr True))
      else Inr True)"

text \<open>Lines 106-119, the value range: the callback of \<open>some\<close>, the constant
  \<open>numericValues\<close>, and the test.\<close>

definition withinRange :: "jsnum option \<Rightarrow> jsnum option \<Rightarrow> jsnum \<Rightarrow> bool" where
  "withinRange minV maxV current =
     (if (case minV of Some m \<Rightarrow> jsLess current m | None \<Rightarrow> False) then False
      else if (case maxV of Some m \<Rightarrow> jsLess m current | None \<Rightarrow> False) then False
      else True)"

definition numericValues :: "platform \<Rightarrow> jsval \<Rightarrow> error + jsnum list" where
  "numericValues js notice =
     bindE (sequenceE (map (\<lambda>k. parseNumberSafe js (getProp notice k))
              [''valueLow'', ''valueHigh'', ''awardedValue''])) (\<lambda>parsed.
       Inr (nonNull parsed))"

definition passesValueRange :: "platform \<Rightarrow> jsnum option \<Rightarrow> jsnum option \<Rightarrow> jsval \<Rightarrow> error + bool" where
  "passesValueRange js minV maxV notice =
     (if minV \<noteq> None \<or> maxV \<noteq> None then
        bindE (numericValues js notice) (\<lambda>collected.
          if collected \<noteq> [] then Inr (list_ex (withinRange minV maxV) collected)
          else Inr True)
      else Inr True)"

text \<open>Lines 87-91, the keyword test of Find a Tender notices.\<close>

definition passesKeywords :: "platform \<Rightarrow> string list \<Rightarrow> bool \<Rightarrow> jsval \<Rightarrow> error + bool" where
  "passesKeywords js kws isFindATender notice =
     (if isFindATender \<and> kws \<noteq> [] then
        bindE (buildSearchableBlob js notice) (\<lambda>blob.
          if \<not> list_ex (\<lambda>token. str_includes blob token) kws then Inr False
          else if \<not> matchesAuthorityKeywords notice then Inr False
          else Inr True)
      else Inr True)"

text \<open>The callback of \<open>notices.filter\<close> (lines 64-122).\<close>

definition keepNotice :: "platform \<Rightarrow> prepared \<Rightarrow> jsval \<Rightarrow> error + bool" where
  "keepNotice js p notice =
     bindE (readProp notice ''source'') (\<lambda>rawSource.
     bindE (toStr js (orElse rawSource (JStr []))) (\<lambda>src.
     let noticeSource = toUpperCase src;
         isContractsFinder = (noticeSource = units ''CF'' \<or> noticeSource = units ''CONTRACTS FINDER'');
         isFindATender = (noticeSource = units ''FTS'' \<or> noticeSource = units ''TD''
                          \<or> noticeSource = units ''FIND A TENDER'') in
     if sourceSet p \<noteq> [] \<and> noticeSource \<notin> set (sourceSet p) then Inr False
     else
     bindE (deriveProcurementStage js notice) (\<lambda>stageLabel.
     bindE (if stageSet p \<noteq> []
            then bindE (normaliseProcurementStageToken js stageLabel) (\<lambda>stageToken.
                   Inr (stageToken \<noteq> [] \<and> stageToken \<notin> set (stageSet p)))
            else Inr False) (\<lambda>stageRejected.
     if stageRejected then Inr False
     else
     bindE (if typeSet p \<noteq> [] \<and> isContractsFinder
            then bindE (normaliseContractsFinderType js (orElse (getProp notice ''noticeType'') (JStr []))) (\<lambda>noteType.
                   Inr (\<not> truthy noteType \<or> noteType \<notin> set (typeSet p)))
            else Inr False) (\<lambda>typeRejected.
     if typeRejected then Inr False
     else
     bindE (if statusSet p \<noteq> [] \<and> isContractsFinder
            then bindE (normaliseToken js (orElse (getProp notice ''noticeStatus'') (JStr []))) (\<lambda>noteStatus.
                   Inr (noteStatus = [] \<or> noteStatus \<notin> set (statusSet p)))
            else Inr False) (\<lambda>statusRejected.
     if statusRejected then Inr False
     else
     bindE (passesKeywords js (kw p) isFindATender notice) (\<lambda>keywordsOk.
     if \<not> keywordsOk then Inr False
     else
     bindE (passesDateRange js (fromTime p) (toTime p) notice) (\<lambda>datesOk.
     if \<not> datesOk then Inr False
     else passesValueRange js (minValue p) (maxValue p) notice))))))))"

text \<open>
  Whether a notice is a Find a Tender notice (lines 65 and 67), for a notice whose source
  converts to a string; used to state what the keyword test does.
\<close>

definition isFindATenderNotice :: "platform \<Rightarrow> jsval \<Rightarrow> bool" where
  "isFindATenderNotice js notice =
     (case toStr js (orElse (getProp notice ''source'') (JStr [])) of
        Inl e \<Rightarrow> False
      | Inr src \<Rightarrow> toUpperCase src = units ''FTS'' \<or> toUpperCase src = units ''TD''
                    \<or> toUpperCase src = units ''FIND A TENDER'')"

text \<open>\<open>xs.filter(f)\<close> with a callback that may throw.\<close>

fun filterE :: "('a \<Rightarrow> error + bool) \<Rightarrow> 'a list \<Rightarrow> error + 'a list" where
  "filterE f [] = Inr []"
| "filterE f (x # xs) =
     bindE (f x) (\<lambda>keep.
     bindE (filterE f xs) (\<lambda>rest. Inr (if keep then x # rest else rest)))"

definition applyFilters :: "platform \<Rightarrow> jsval list \<Rightarrow> criteria \<Rightarrow> error + jsval list" where
  "applyFilters js notices c =
     bindE (prepare js c) (\<lambda>p. filterE (keepNotice js p) notices)"

section \<open>The entity decoder (\<open>decodeHtmlEntities\<close>, \<^verbatim>\<open>src/unnamed/part_000\<close>)\<close>

text \<open>
  Decoding produces characters of every plane, so here a string is the list of its UTF-16
  code units; the literals of the source are given by \<open>units\<close>.
\<close>

definition isDecDigit :: "int \<Rightarrow> bool" where
  "isDecDigit u = (48 \<le> u \<and> u \<le> 57)"

definition isHexDigit :: "int \<Rightarrow> bool" where
  "isHexDigit u = (isDecDigit u \<or> (97 \<le> u \<and> u \<le> 102) \<or> (65 \<le> u \<and> u \<le> 70))"

definition isAsciiLetter :: "int \<Rightarrow> bool" where
  "isAsciiLetter u = ((97 \<le> u \<and> u \<le> 122) \<or> (65 \<le> u \<and> u \<le> 90))"

definition digitOf :: "int \<Rightarrow> int" where
  "digitOf u = (if isDecDigit u then u - 48 else if 97 \<le> u then u - 87 else u - 55)"

text \<open>\<open>Number.parseInt(digits, radix)\<close> on a non-empty run of digits of that radix: the
  integer they denote. It is a finite number when it rounds to a double, that is below
  \<open>2^1024 - 2^970\<close>, and \<open>Infinity\<close> from there on.\<close>

definition parseInt :: "int \<Rightarrow> int list \<Rightarrow> int" where
  "parseInt radix digits = foldl (\<lambda>acc u. acc * radix + digitOf u) 0 digits"

definition numberIsFinite :: "int \<Rightarrow> bool" where
  "numberIsFinite n = (n < 2 ^ 1024 - 2 ^ 970)"

text \<open>\<open>String.fromCodePoint(n)\<close> for a non-negative integer: a RangeError above
  \<open>0x10FFFF\<close>, one code unit up to \<open>0xFFFF\<close>, a surrogate pair otherwise.\<close>

definition fromCodePoint :: "int \<Rightarrow> error + int list" where
  "fromCodePoint n =
     (if n > 1114111 then Inl RangeError
      else if n \<le> 65535 then Inr [n]
      else Inr [55296 + (n - 65536) div 1024, 56320 + (n - 65536) mod 1024])"

text \<open>
  The three patterns, tried at the head of a string. A match gives the text of its group
  and \<open>k\<close>, where the match is \<open>Suc k\<close> code units long. The digits and letters of a
  group never include the closing semicolon, so the longest run is the only candidate.
  With the flag \<open>i\<close> the letter \<open>x\<close> of the first pattern is matched in either case.
\<close>

definition matchRun :: "(int \<Rightarrow> bool) \<Rightarrow> nat \<Rightarrow> int list \<Rightarrow> (int list \<times> nat) option" where
  "matchRun cls lead rest =
     (let run = takeWhile cls rest in
      case dropWhile cls rest of
        [] \<Rightarrow> None
      | semi # after \<Rightarrow>
          if run \<noteq> [] \<and> semi = 59 then Some (run, lead + length run) else None)"

fun matchHexRef :: "int list \<Rightarrow> (int list \<times> nat) option" where
  "matchHexRef (a # b # x # rest) =
     (if a = 38 \<and> b = 35 \<and> (x = 120 \<or> x = 88) then matchRun isHexDigit 3 rest else None)"
| "matchHexRef s = None"

fun matchDecRef :: "int list \<Rightarrow> (int list \<times> nat) option" where
  "matchDecRef (a # b # rest) =
     (if a = 38 \<and> b = 35 then matchRun isDecDigit 2 rest else None)"
| "matchDecRef s = None"

fun matchNamedRef :: "int list \<Rightarrow> (int list \<times> nat) option" where
  "matchNamedRef (a # rest) = (if a = 38 then matchRun isAsciiLetter 1 rest else None)"
| "matchNamedRef s = None"

text \<open>\<open>s.replace(pattern, callback)\<close> with a global pattern: left to right, resuming after
  each match; a callback that throws ends the call.\<close>

function replaceAll ::
  "(int list \<Rightarrow> (int list \<times> nat) option) \<Rightarrow> (int list \<Rightarrow> int list \<Rightarrow> error + int list)
     \<Rightarrow> int list \<Rightarrow> error + int list" where
  "replaceAll m f [] = Inr []"
| "replaceAll m f (c # cs) =
     (case m (c # cs) of
        None \<Rightarrow> (case replaceAll m f cs of Inl e \<Rightarrow> Inl e | Inr out \<Rightarrow> Inr (c # out))
      | Some (grp, k) \<Rightarrow>
          (case f (take (Suc k) (c # cs)) grp of
             Inl e \<Rightarrow> Inl e
           | Inr replacement \<Rightarrow>
               (case replaceAll m f (drop k cs) of
                  Inl e \<Rightarrow> Inl e
                | Inr out \<Rightarrow> Inr (replacement @ out))))"
  by pat_completeness auto
termination
  by (relation "measure (\<lambda>(m, f, s). length s)") auto

definition NAMED_HTML_ENTITIES :: "string \<Rightarrow> jsval" where
  "NAMED_HTML_ENTITIES = literalLookup
     [(''amp'', ''&''), (''lt'', ''<''), (''gt'', ''>''), (''quot'', [CHR 0x22]),
      (''apos'', [CHR 0x27]), (''nbsp'', '' '')]"

definition unitToLower :: "int \<Rightarrow> int" where
  "unitToLower u = (if 65 \<le> u \<and> u \<le> 90 then u + 32 else u)"

definition hexCallback :: "int list \<Rightarrow> int list \<Rightarrow> error + int list" where
  "hexCallback matched hex =
     (let codePoint = parseInt 16 hex in
      if numberIsFinite codePoint then fromCodePoint codePoint else Inr matched)"

definition decCallback :: "int list \<Rightarrow> int list \<Rightarrow> error + int list" where
  "decCallback matched dec =
     (let codePoint = parseInt 10 dec in
      if numberIsFinite codePoint then fromCodePoint codePoint else Inr matched)"

text \<open>The third callback returns \<open>mapped ?? `&${name};`\<close>; a value that is not a string
  is converted to one by \<open>replace\<close>.\<close>

definition namedCallback :: "platform \<Rightarrow> int list \<Rightarrow> int list \<Rightarrow> error + int list" where
  "namedCallback js matched name =
     (let mapped = NAMED_HTML_ENTITIES (map char_of (map unitToLower name)) in
      if mapped = JUndefined \<or> mapped = JNull then Inr (38 # name @ [59])
      else bindE (toStr js mapped) (\<lambda>text. Inr (units text)))"

text \<open>\<open>decodeHtmlEntities(value)\<close>; \<open>None\<close> is a \<open>null\<close> or \<open>undefined\<close> argument.\<close>

definition decodeHtmlEntities :: "platform \<Rightarrow> int list option \<Rightarrow> error + int list option" where
  "decodeHtmlEntities js v =
     (case v of
        None \<Rightarrow> Inr None
      | Some s \<Rightarrow>
          if s = [] then Inr (Some [])
          else bindE (replaceAll matchHexRef hexCallback s) (\<lambda>s1.
               bindE (replaceAll matchDecRef decCallback s1) (\<lambda>s2.
               bindE (replaceAll matchNamedRef (namedCallback js) s2) (\<lambda>s3.
                 Inr (Some s3)))))"

section \<open>Properties\<close>

subsection \<open>Auxiliary facts\<close>

lemma bindE_Inr_iff: "bindE m f = Inr y \<longleftrightarrow> (\<exists>x. m = Inr x \<and> f x = Inr y)"
  unfolding bindE_def by (cases m) auto

lemma bindE_Inr [simp]: "bindE (Inr x) f = f x"
  unfolding bindE_def by simp

lemma bindE_Inl [simp]: "bindE (Inl e) f = Inl e"
  unfolding bindE_def by simp

lemma tok_alnum: "normaliseToken js v = Inr t \<Longrightarrow> \<forall>c\<in>set t. isLowerAlnum c"
  unfolding normaliseToken_def bindE_def
  by (auto split: if_splits sum.splits)

lemma alnum_neq:
  assumes "\<forall>c\<in>set t. isLowerAlnum c" "\<not> list_all isLowerAlnum k"
  shows "t \<noteq> k"
  using assms by (auto simp: list_all_iff)

lemma not_alnum_names:
  "\<not> list_all isLowerAlnum ''toString''"
  "\<not> list_all isLowerAlnum ''toLocaleString''"
  "\<not> list_all isLowerAlnum ''valueOf''"
  "\<not> list_all isLowerAlnum ''hasOwnProperty''"
  "\<not> list_all isLowerAlnum ''isPrototypeOf''"
  "\<not> list_all isLowerAlnum ''propertyIsEnumerable''"
  "\<not> list_all isLowerAlnum ''__defineGetter__''"
  "\<not> list_all isLowerAlnum ''__defineSetter__''"
  "\<not> list_all isLowerAlnum ''__lookupGetter__''"
  "\<not> list_all isLowerAlnum ''__lookupSetter__''"
  "\<not> list_all isLowerAlnum ''__proto__''"
  by (simp_all add: isLowerAlnum_def)

lemma alnum_not_proto:
  assumes a: "\<forall>c\<in>set t. isLowerAlnum c" and c: "t \<noteq> ''constructor''"
  shows "objectPrototype t = JUndefined"
  unfolding objectPrototype_def
  using c not_alnum_names[THEN alnum_neq[OF a]] by simp

lemma STAGE_LABELS_token: "t \<in> set stageTokens \<Longrightarrow> STAGE_LABELS t \<in> set stageLabels"
  unfolding stageTokens_def stageLabels_def STAGE_LABELS_def STAGE_LABELS_table_def literalLookup_def
  by auto

lemma literalLookup_truthy:
  assumes "truthy (literalLookup table t)" "objectPrototype t = JUndefined"
  shows "t \<in> fst ` set table"
proof (cases "map_of table t")
  case None
  with assms show ?thesis unfolding literalLookup_def by simp
next
  case (Some v)
  then have "(t, v) \<in> set table" by (rule map_of_SomeD)
  then show ?thesis by force
qed

lemma STAGE_LABELS_truthy:
  assumes "truthy (STAGE_LABELS t)" "objectPrototype t = JUndefined"
  shows "t \<in> set stageTokens"
proof -
  have "t \<in> fst ` set STAGE_LABELS_table"
    using assms unfolding STAGE_LABELS_def by (rule literalLookup_truthy)
  then show ?thesis unfolding stageTokens_def STAGE_LABELS_table_def by simp
qed

lemma someE_total:
  "\<forall>x\<in>set xs. \<exists>b. f x = Inr b \<Longrightarrow> \<exists>b. someE f xs = Inr b"
proof (induction xs)
  case Nil
  show ?case by (rule exI[of _ False]) simp
next
  case (Cons x xs)
  then obtain b where b: "f x = Inr b" by auto
  from Cons obtain b' where b': "someE f xs = Inr b'" by auto
  show ?case using b b' by (cases b) auto
qed

lemma includes_strings_total:
  "\<forall>v\<in>set vals. \<exists>s. v = JStr s \<Longrightarrow>
   \<exists>b. someE (\<lambda>c. someE (\<lambda>p. includesMethod c p) ps) vals = Inr b"
proof (rule someE_total, rule ballI)
  fix x assume a: "\<forall>v\<in>set vals. \<exists>s. v = JStr s" and x: "x \<in> set vals"
  then obtain s where "x = JStr s" by auto
  then have "\<forall>p\<in>set ps. \<exists>b. includesMethod x p = Inr b" by simp
  then show "\<exists>b. someE (\<lambda>p. includesMethod x p) ps = Inr b" by (rule someE_total)
qed

lemma resolveLoop_result:
  "resolveLoop ms vals = Inr r \<Longrightarrow> r = [] \<or> r \<in> fst ` set ms"
proof (induction ms)
  case Nil
  then show ?case by simp
next
  case (Cons m ms)
  obtain token patterns where m: "m = (token, patterns)" by (cases m)
  show ?case
  proof (cases "someE (\<lambda>c. someE (\<lambda>p. includesMethod c p) patterns) vals")
    case (Inl e)
    with Cons.prems m show ?thesis by simp
  next
    case (Inr b)
    show ?thesis
    proof (cases b)
      case True
      with Inr Cons.prems m show ?thesis by simp
    next
      case False
      with Inr Cons.prems m have "resolveLoop ms vals = Inr r" by simp
      with Cons.IH show ?thesis by auto
    qed
  qed
qed

lemma resolveLoop_strings:
  assumes "\<forall>v\<in>set vals. \<exists>s. v = JStr s"
  shows "\<exists>r. resolveLoop ms vals = Inr r"
proof (induction ms)
  case Nil
  then show ?case by simp
next
  case (Cons m ms)
  obtain token patterns where m: "m = (token, patterns)" by (cases m)
  from includes_strings_total[OF assms, of patterns] obtain b
    where b: "someE (\<lambda>c. someE (\<lambda>p. includesMethod c p) patterns) vals = Inr b" by blast
  show ?case using Cons b m by (cases b) simp_all
qed

lemma fst_STAGE_MATCHERS: "fst ` set STAGE_MATCHERS = set stageTokens"
  unfolding STAGE_MATCHERS_def stageTokens_def by simp

lemma resolveStageToken_result:
  assumes "resolveStageToken vals = Inr r" shows "r = [] \<or> r \<in> set stageTokens"
  using resolveLoop_result[of STAGE_MATCHERS vals r] assms
  unfolding resolveStageToken_def fst_STAGE_MATCHERS by simp

lemma resolveStageToken_strings:
  assumes "\<forall>v\<in>set vals. \<exists>s. v = JStr s"
  shows "\<exists>r. resolveStageToken vals = Inr r"
  unfolding resolveStageToken_def using assms by (rule resolveLoop_strings)

lemma normaliseProcurementStageToken_result:
  assumes "normaliseProcurementStageToken js v = Inr t"
  shows "t = [] \<or> t \<in> set stageTokens \<or> t = ''constructor''"
proof -
  from assms obtain token where tok: "normaliseToken js v = Inr token"
    and r: "(if token = [] then Inr []
       else if truthy (STAGE_LABELS token) then Inr token
       else resolveStageToken [JStr token]) = Inr t"
    unfolding normaliseProcurementStageToken_def bindE_Inr_iff by blast
  show ?thesis
  proof (cases "token = []")
    case True
    with r show ?thesis by simp
  next
    case False
    note ne = this
    show ?thesis
    proof (cases "truthy (STAGE_LABELS token)")
      case True
      with r ne have tt: "t = token" by simp
      show ?thesis
      proof (cases "t = ''constructor''")
        case True then show ?thesis by simp
      next
        case False
        with tt tok_alnum[OF tok] have "objectPrototype token = JUndefined"
          by (simp add: alnum_not_proto)
        with True have "token \<in> set stageTokens" by (rule STAGE_LABELS_truthy)
        with tt show ?thesis by simp
      qed
    next
      case False
      with r ne have "resolveStageToken [JStr token] = Inr t" by simp
      then show ?thesis using resolveStageToken_result by blast
    qed
  qed
qed

lemma sequenceE_total:
  "\<forall>m\<in>set ms. \<exists>x. m = Inr x \<Longrightarrow> \<exists>xs. sequenceE ms = Inr xs"
proof (induction ms)
  case Nil
  then show ?case by simp
next
  case (Cons m ms)
  then obtain x where x: "m = Inr x" by auto
  from Cons obtain xs where xs: "sequenceE ms = Inr xs" by auto
  show ?case using x xs by simp
qed

lemma sequenceE_Inr_D:
  "sequenceE ms = Inr xs \<Longrightarrow> \<forall>m\<in>set ms. \<exists>x. m = Inr x"
proof (induction ms arbitrary: xs)
  case Nil
  then show ?case by simp
next
  case (Cons m ms)
  then show ?case by (auto split: sum.splits)
qed

lemma normaliseToken_total:
  assumes "toStr js v = Inr s" shows "\<exists>t. normaliseToken js v = Inr t"
  using assms unfolding normaliseToken_def by simp

lemma toStr_elements:
  assumes "toStr js (JArr xs) = Inr s" "x \<in> set xs" 
  shows "\<exists>s'. toStr js x = Inr s'"
proof -
  from assms(1) obtain parts where
    "sequenceE (map (\<lambda>x. if x = JNull \<or> x = JUndefined then Inr [] else toStr js x) xs) = Inr parts"
    by (auto split: sum.splits)
  from sequenceE_Inr_D[OF this] assms(2)
  have "\<exists>p. (if x = JNull \<or> x = JUndefined then Inr [] else toStr js x) = Inr p" by auto
  then show ?thesis by (cases "x = JNull \<or> x = JUndefined") auto
qed

lemma pushValue_total:
  "\<exists>s. toStr js v = Inr s \<Longrightarrow> \<exists>ts. pushValue js v = Inr ts"
proof (induction js v rule: pushValue.induct)
  case (1 js xs)
  have "\<forall>m\<in>set (map (pushValue js) xs). \<exists>x. m = Inr x"
  proof
    fix m assume "m \<in> set (map (pushValue js) xs)"
    then obtain x where x: "x \<in> set xs" "m = pushValue js x" by auto
    from 1(2) x(1) have "\<exists>s'. toStr js x = Inr s'" using toStr_elements by blast
    with 1(1)[OF x(1)] x(2) show "\<exists>y. m = Inr y" by simp
  qed
  from sequenceE_total[OF this] show ?case by auto
qed (force simp: normaliseToken_def split: if_splits)+

lemma collectStageCandidates_total:
  assumes "\<forall>k. \<exists>s. toStr js (getProp notice k) = Inr s"
  shows "\<exists>ts. collectStageCandidates js notice = Inr ts"
proof -
  have "\<forall>m\<in>set (map (\<lambda>k. pushValue js (getProp notice k))
              [''procurementStage'', ''noticeStage'', ''stage'', ''stageName'', ''noticeType'',
               ''noticeStatus'', ''type'', ''status'', ''tags'']). \<exists>x. m = Inr x"
    using assms pushValue_total by auto
  from sequenceE_total[OF this] show ?thesis
    unfolding collectStageCandidates_def by auto
qed

lemma getProp_object: "getProp notice k \<noteq> JUndefined \<Longrightarrow> \<exists>kvs. notice = JObj kvs"
  by (cases notice) simp_all

lemma object_guard: "notice = JObj kvs \<Longrightarrow> \<not> (\<not> truthy notice \<or> typeof notice \<noteq> ''object'')"
  by simp

lemma STAGE_LABELS_values:
  "STAGE_LABELS ''pipeline'' = JStr ''Pipeline''"
  "STAGE_LABELS ''planning'' = JStr ''Planning''"
  "STAGE_LABELS ''tender'' = JStr ''Tender''"
  "STAGE_LABELS ''award'' = JStr ''Award''"
  "STAGE_LABELS ''contract'' = JStr ''Contract''"
  "STAGE_LABELS ''termination'' = JStr ''Termination''"
  unfolding STAGE_LABELS_def STAGE_LABELS_table_def literalLookup_def by simp_all

lemma normaliseToken_orElse:
  assumes "normaliseToken js (orElse v (JStr [])) = Inr t" "t \<noteq> []"
  shows "normaliseToken js v = Inr t"
proof (cases "truthy v")
  case True
  with assms show ?thesis unfolding orElse_def by simp
next
  case False
  with assms show ?thesis unfolding orElse_def normaliseToken_def by simp
qed

lemma toStr_orElse:
  assumes "\<exists>s. toStr js v = Inr s" shows "\<exists>s. toStr js (orElse v (JStr [])) = Inr s"
  using assms unfolding orElse_def by simp

lemma literalLookup_string:
  assumes "objectPrototype t = JUndefined"
  shows "\<exists>s. orElse (literalLookup table t) (JStr t) = JStr s"
  using assms unfolding literalLookup_def orElse_def
  by (cases "map_of table t") simp_all

lemma TYPE_ALIAS_string:
  assumes "objectPrototype t = JUndefined"
  shows "\<exists>s. orElse (TYPE_ALIAS t) (JStr t) = JStr s"
  unfolding TYPE_ALIAS_def using assms by (rule literalLookup_string)

lemma normaliseContractsFinderType_string:
  assumes tot: "\<exists>s. toStr js v = Inr s"
    and nc: "normaliseToken js v \<noteq> Inr ''constructor''"
  shows "\<exists>s. normaliseContractsFinderType js (orElse v (JStr [])) = Inr (JStr s)"
proof -
  from toStr_orElse[OF tot] obtain s where "toStr js (orElse v (JStr [])) = Inr s" by blast
  from normaliseToken_total[OF this] obtain t
    where t: "normaliseToken js (orElse v (JStr [])) = Inr t" by blast
  show ?thesis
  proof (cases "t = []")
    case True
    with t show ?thesis unfolding normaliseContractsFinderType_def by simp
  next
    case False
    from normaliseToken_orElse[OF t False] have tv: "normaliseToken js v = Inr t" .
    have "t \<noteq> ''constructor''"
    proof
      assume "t = ''constructor''"
      with tv have "normaliseToken js v = Inr ''constructor''" by simp
      with nc show False by simp
    qed
    with tok_alnum[OF t] have "objectPrototype t = JUndefined" by (simp add: alnum_not_proto)
    from TYPE_ALIAS_string[OF this] False t show ?thesis
      unfolding normaliseContractsFinderType_def by simp
  qed
qed

lemma filterE_mem:
  "filterE f xs = Inr ys \<Longrightarrow> x \<in> set ys \<Longrightarrow> f x = Inr True \<and> x \<in> set xs"
proof (induction xs arbitrary: ys)
  case Nil
  then show ?case by simp
next
  case (Cons a xs)
  from Cons.prems(1) obtain keep rest where
    k: "f a = Inr keep" and r: "filterE f xs = Inr rest"
    and ys: "ys = (if keep then a # rest else rest)"
    by (auto simp: bindE_Inr_iff)
  show ?case
  proof (cases "x \<in> set rest")
    case True
    from Cons.IH[OF r True] show ?thesis by simp
  next
    case False
    with ys Cons.prems(2) have "keep" "x = a" by (auto split: if_splits)
    with k show ?thesis by simp
  qed
qed

lemma bindE_assoc: "bindE (bindE m f) g = bindE m (\<lambda>x. bindE (f x) g)"
  unfolding bindE_def by (cases m) auto

lemma bindE_if: "bindE (if c then x else y) g = (if c then bindE x g else bindE y g)"
  by simp

lemma passesValueRange_None: "passesValueRange js None None notice = Inr True"
  unfolding passesValueRange_def by simp

lemma keepNotice_value_last:
  "keepNotice js p notice
     = bindE (keepNotice js (p\<lparr>minValue := None, maxValue := None\<rparr>) notice)
         (\<lambda>a. if a then passesValueRange js (minValue p) (maxValue p) notice else Inr False)"
  unfolding keepNotice_def Let_def
  by (simp add: bindE_assoc bindE_if passesValueRange_None cong: if_cong)

lemma filterE_refine:
  assumes "filterE g xs = Inr zs"
    and "\<And>x b. x \<in> set xs \<Longrightarrow> g x = Inr b \<Longrightarrow> \<exists>a. f x = Inr a \<and> b = (a \<and> P x)"
  shows "\<exists>ys. filterE f xs = Inr ys \<and> zs = filter P ys"
  using assms
proof (induction xs arbitrary: zs)
  case Nil
  then show ?case by simp
next
  case (Cons x xs)
  from Cons.prems(1) obtain b rest where
    b: "g x = Inr b" and r: "filterE g xs = Inr rest"
    and zs: "zs = (if b then x # rest else rest)"
    by (auto simp: bindE_Inr_iff)
  from Cons.prems(2)[OF _ b] obtain a where a: "f x = Inr a" and ba: "b = (a \<and> P x)" by auto
  have "\<exists>ys. filterE f xs = Inr ys \<and> rest = filter P ys"
    by (rule Cons.IH[OF r]) (use Cons.prems(2) in auto)
  then obtain ys where ys: "filterE f xs = Inr ys" "rest = filter P ys" by blast
  show ?case using a ba ys zs by auto
qed

lemma filterE_filter:
  assumes "filterE f xs = Inr ys" and "filterE g xs = Inr zs"
    and "\<And>x a b. x \<in> set xs \<Longrightarrow> f x = Inr a \<Longrightarrow> g x = Inr b \<Longrightarrow> b = (a \<and> P x)"
  shows "zs = filter P ys"
  using assms
proof (induction xs arbitrary: ys zs)
  case Nil
  then show ?case by simp
next
  case (Cons x xs)
  from Cons.prems(1) obtain a ys' where
    a: "f x = Inr a" and r1: "filterE f xs = Inr ys'"
    and ys: "ys = (if a then x # ys' else ys')"
    by (auto simp: bindE_Inr_iff)
  from Cons.prems(2) obtain b zs' where
    b: "g x = Inr b" and r2: "filterE g xs = Inr zs'"
    and zs: "zs = (if b then x # zs' else zs')"
    by (auto simp: bindE_Inr_iff)
  from Cons.prems(3)[OF _ a b] have ba: "b = (a \<and> P x)" by simp
  have "zs' = filter P ys'"
    by (rule Cons.IH[OF r1 r2]) (use Cons.prems(3) in auto)
  with ba ys zs show ?case by auto
qed

lemma passesKeywords_iff:
  assumes "passesKeywords js kws fts notice = Inr ok"
  shows "ok = (fts \<and> kws \<noteq> []
               \<longrightarrow> (\<exists>blob. buildSearchableBlob js notice = Inr blob
                      \<and> list_ex (\<lambda>token. str_includes blob token) kws)
                   \<and> matchesAuthorityKeywords notice)"
  using assms unfolding passesKeywords_def
  by (auto simp: bindE_Inr_iff split: if_splits)

lemma keepNotice_keyword_test:
  assumes b: "keepNotice js (p\<lparr>kw := kws\<rparr>) notice = Inr b"
    and a: "keepNotice js (p\<lparr>kw := []\<rparr>) notice = Inr a"
  shows "b = (a \<and> (isFindATenderNotice js notice \<and> kws \<noteq> []
               \<longrightarrow> (\<exists>blob. buildSearchableBlob js notice = Inr blob
                      \<and> list_ex (\<lambda>token. str_includes blob token) kws)
                   \<and> matchesAuthorityKeywords notice))"
proof -
  from b obtain raw src where raw: "readProp notice ''source'' = Inr raw"
    and src: "toStr js (orElse raw (JStr [])) = Inr src"
    unfolding keepNotice_def by (auto simp: bindE_Inr_iff)
  from raw have raw': "raw = getProp notice ''source''"
    unfolding readProp_def by (auto split: if_splits)
  let ?fts = "toUpperCase src = units ''FTS'' \<or> toUpperCase src = units ''TD''
                \<or> toUpperCase src = units ''FIND A TENDER''"
  have fts: "isFindATenderNotice js notice = ?fts"
    unfolding isFindATenderNotice_def using src raw' by simp
  have e: "passesKeywords js [] ?fts notice = Inr True"
    unfolding passesKeywords_def by simp
  show ?thesis
  proof (cases "passesKeywords js kws ?fts notice")
    case (Inl err)
    with a b show ?thesis
      unfolding keepNotice_def raw src bindE_Inr Let_def fts
      by (auto simp: bindE_Inr_iff e split: if_splits)
  next
    case (Inr ok)
    note k = passesKeywords_iff[OF Inr]
    from a b Inr show ?thesis
      unfolding keepNotice_def raw src bindE_Inr Let_def fts k[symmetric]
      by (auto simp: bindE_Inr_iff e split: if_splits)
  qed
qed

lemma prepare_keywords:
  "prepare js (c\<lparr>keywordsC := ks\<rparr>)
     = bindE (prepare js c) (\<lambda>p. Inr (p\<lparr>kw := filter (\<lambda>k. k \<noteq> []) (map toLowerCase ks)\<rparr>))"
  unfolding prepare_def bindE_def by (simp split: sum.splits)

lemma valueBound_undefined: "valueBound js JUndefined = Inr None"
  unfolding valueBound_def by simp

lemma prepare_values:
  assumes "prepare js (c\<lparr>valueFrom := lower, valueTo := upper\<rparr>) = Inr p"
  shows "\<exists>p0. prepare js (c\<lparr>valueFrom := JUndefined, valueTo := JUndefined\<rparr>) = Inr p0
           \<and> minValue p0 = None \<and> maxValue p0 = None
           \<and> valueBound js lower = Inr (minValue p) \<and> valueBound js upper = Inr (maxValue p)
           \<and> p0 = p\<lparr>minValue := None, maxValue := None\<rparr>"
  using assms unfolding prepare_def
  by (auto simp: bindE_Inr_iff valueBound_undefined)

lemma toLowerCase_empty: "toLowerCase k = [] \<longleftrightarrow> k = []"
  unfolding toLowerCase_def by simp

lemma agreesWithIso_reference: "agreesWithIso referencePlatform"
  unfolding agreesWithIso_def referencePlatform_def by simp

subsection \<open>C1: the authority keyword test\<close>

lemma startsWith_iff: "startsWith s p \<longleftrightarrow> (\<exists>b. s = p @ b)"
  by (induction s p rule: startsWith.induct) auto

lemma str_includes_iff: "str_includes s p \<longleftrightarrow> (\<exists>a b. s = a @ p @ b)"
proof (induction s)
  case Nil
  then show ?case by auto
next
  case (Cons c cs)
  show ?case
  proof
    assume "str_includes (c # cs) p"
    then consider "startsWith (c # cs) p" | "str_includes cs p" by auto
    then show "\<exists>a b. c # cs = a @ p @ b"
    proof cases
      case 1
      then obtain b where "c # cs = p @ b" unfolding startsWith_iff by blast
      then have "c # cs = [] @ p @ b" by simp
      then show ?thesis by blast
    next
      case 2
      with Cons obtain a b where "cs = a @ p @ b" by blast
      then have "c # cs = (c # a) @ p @ b" by simp
      then show ?thesis by blast
    qed
  next
    assume "\<exists>a b. c # cs = a @ p @ b"
    then obtain a b where ab: "c # cs = a @ p @ b" by blast
    show "str_includes (c # cs) p"
    proof (cases a)
      case Nil
      with ab have "startsWith (c # cs) p" unfolding startsWith_iff by auto
      then show ?thesis by simp
    next
      case (Cons x a')
      with ab have "cs = a' @ p @ b" by simp
      with Cons.IH have "str_includes cs p" by blast
      then show ?thesis by simp
    qed
  qed
qed

lemma str_includes_prefix: "str_includes s (p @ q) \<Longrightarrow> str_includes s p"
  unfolding str_includes_iff by (metis append.assoc)

lemma toUpperCase_Cons: "toUpperCase (c # cs) = upperUnits c @ toUpperCase cs"
  unfolding toUpperCase_def by simp

lemma upperUnits_nhs:
  "a \<in> set ''nN'' \<Longrightarrow> upperUnits a = [78]"
  "a \<in> set ''hH'' \<Longrightarrow> upperUnits a = [72]"
  "a \<in> set ''sS'' \<Longrightarrow> upperUnits a = [83]"
  unfolding upperUnits_def Let_def by auto

lemma units_NHS: "units ''NHS'' = [78, 72, 83]"
  unfolding units_def by simp

lemma nhsHere_upper: "nhsHere s \<Longrightarrow> startsWith (toUpperCase s) (units ''NHS'')"
proof (induction s rule: nhsHere.induct)
  case (1 a b c rest)
  then have "upperUnits a = [78]" "upperUnits b = [72]" "upperUnits c = [83]"
    using upperUnits_nhs by auto
  then have "toUpperCase (a # b # c # rest) = units ''NHS'' @ toUpperCase rest"
    unfolding toUpperCase_Cons units_NHS by simp
  then show ?case unfolding startsWith_iff by blast
qed simp_all

lemma nhsRegexFrom_upper: "nhsRegexFrom prev s \<Longrightarrow> str_includes (toUpperCase s) (units ''NHS'')"
proof (induction s arbitrary: prev)
  case Nil
  then show ?case by simp
next
  case (Cons c cs)
  from Cons.prems consider "nhsHere (c # cs)" | "nhsRegexFrom (Some c) cs" by auto
  then show ?case
  proof cases
    case 1
    from nhsHere_upper[OF this] obtain b where "toUpperCase (c # cs) = units ''NHS'' @ b"
      unfolding startsWith_iff by blast
    then have "toUpperCase (c # cs) = [] @ units ''NHS'' @ b" by simp
    then show ?thesis unfolding str_includes_iff by blast
  next
    case 2
    from Cons.IH[OF this] obtain a b where "toUpperCase cs = a @ units ''NHS'' @ b"
      unfolding str_includes_iff by blast
    then have "toUpperCase (c # cs) = (upperUnits c @ a) @ units ''NHS'' @ b"
      unfolding toUpperCase_Cons by simp
    then show ?thesis unfolding str_includes_iff by blast
  qed
qed

lemma authority_keywords_upper:
  "map toUpperCase FTS_AUTHORITY_KEYWORDS =
     [units ''NHS'', units ''NHS'' @ units '' TRUST'', units ''NHS'' @ units '' FOUNDATION TRUST'',
      units ''NATIONAL HEALTH SERVICE'']"
  by code_simp

text \<open>
  C1, as stated, makes the test a whole-word test and gives \<open>isAuthorityMatch("Cornhshire")
  === false\<close>. The function looks for a whole word first, with \<open>NHS_REGEX\<close>, but then
  returns true as well whenever the upper-cased input includes \<open>NHS\<close> anywhere
  (\<open>if (upper.includes("NHS")) return true\<close>, and again through the keyword \<open>nhs\<close> of
  \<open>FTS_AUTHORITY_KEYWORDS\<close>). \<open>Cornhshire\<close> has no whole word \<open>nhs\<close> and none of the
  three phrases, and is accepted.
\<close>

theorem containsAuthorityKeyword_Cornhshire:
  "containsAuthorityKeyword (JStr ''Cornhshire'') = True
   \<and> NHS_REGEX_test ''Cornhshire'' = False
   \<and> list_ex (\<lambda>phrase. str_includes (toLowerCase ''Cornhshire'') phrase)
        [''nhs trust'', ''nhs foundation trust'', ''national health service''] = False"
  by code_simp

text \<open>
  C1, amended: for every input, \<open>containsAuthorityKeyword\<close> (\<open>isAuthorityMatch\<close>) returns
  true exactly when the input is a string whose upper case (as \<open>toUpperCase\<close> gives it,
  the sharp s written \<open>SS\<close>) contains \<open>NHS\<close> or \<open>NATIONAL HEALTH SERVICE\<close> as a substring,
  with no word boundary required; in particular it is true of \<open>Cornhshire\<close>, of
  \<open>Greater Manchester NHS Trust\<close> and of \<open>nh\<close> followed by a sharp s, and false of
  \<open>Acme Widgets Ltd\<close>.
\<close>

theorem containsAuthorityKeyword_substring:
  "containsAuthorityKeyword v =
     (\<exists>s. v = JStr s \<and> (str_includes (toUpperCase s) (units ''NHS'')
                          \<or> str_includes (toUpperCase s) (units ''NATIONAL HEALTH SERVICE'')))
   \<and> containsAuthorityKeyword (JStr ''Cornhshire'') = True
   \<and> containsAuthorityKeyword (JStr ''Greater Manchester NHS Trust'') = True
   \<and> containsAuthorityKeyword (JStr [CHR ''n'', CHR ''h'', CHR 0xDF]) = True
   \<and> containsAuthorityKeyword (JStr ''Acme Widgets Ltd'') = False"
proof -
  have general: "containsAuthorityKeyword v =
     (\<exists>s. v = JStr s \<and> (str_includes (toUpperCase s) (units ''NHS'')
                          \<or> str_includes (toUpperCase s) (units ''NATIONAL HEALTH SERVICE'')))"
  proof (cases v)
    case (JStr s)
    let ?u = "toUpperCase s"
    have kw: "list_ex (\<lambda>keyword. str_includes ?u (toUpperCase keyword)) FTS_AUTHORITY_KEYWORDS
                = list_ex (str_includes ?u) (map toUpperCase FTS_AUTHORITY_KEYWORDS)"
      by (simp add: list_ex_iff)
    have p1: "str_includes ?u (units ''NHS'' @ units '' TRUST'') \<Longrightarrow> str_includes ?u (units ''NHS'')"
      by (rule str_includes_prefix)
    have p2: "str_includes ?u (units ''NHS'' @ units '' FOUNDATION TRUST'')
                \<Longrightarrow> str_includes ?u (units ''NHS'')"
      by (rule str_includes_prefix)
    have "list_ex (str_includes ?u) (map toUpperCase FTS_AUTHORITY_KEYWORDS)
            = (str_includes ?u (units ''NHS'')
               \<or> str_includes ?u (units ''NATIONAL HEALTH SERVICE''))"
      unfolding authority_keywords_upper using p1 p2 by auto
    with kw have kws:
      "list_ex (\<lambda>keyword. str_includes ?u (toUpperCase keyword)) FTS_AUTHORITY_KEYWORDS
         = (str_includes ?u (units ''NHS'')
            \<or> str_includes ?u (units ''NATIONAL HEALTH SERVICE''))"
      by simp
    have regex: "NHS_REGEX_test s \<Longrightarrow> str_includes ?u (units ''NHS'')"
      unfolding NHS_REGEX_test_def by (rule nhsRegexFrom_upper)
    show ?thesis
      unfolding JStr containsAuthorityKeyword.simps Let_def kws
      using regex by auto
  qed simp_all
  have c: "containsAuthorityKeyword (JStr ''Cornhshire'') = True" by code_simp
  have g: "containsAuthorityKeyword (JStr ''Greater Manchester NHS Trust'') = True" by code_simp
  have b: "containsAuthorityKeyword (JStr [CHR ''n'', CHR ''h'', CHR 0xDF]) = True" by code_simp
  have a: "containsAuthorityKeyword (JStr ''Acme Widgets Ltd'') = False" by code_simp
  from general c g b a show ?thesis by blast
qed

theorem containsAuthorityKeyword_substring_witness:
  "containsAuthorityKeyword (JStr ''NHSBSA'') =
     (\<exists>s. JStr ''NHSBSA'' = JStr s \<and> (str_includes (toUpperCase s) (units ''NHS'')
                          \<or> str_includes (toUpperCase s) (units ''NATIONAL HEALTH SERVICE'')))
   \<and> containsAuthorityKeyword (JStr ''Cornhshire'') = True
   \<and> containsAuthorityKeyword (JStr ''Greater Manchester NHS Trust'') = True
   \<and> containsAuthorityKeyword (JStr [CHR ''n'', CHR ''h'', CHR 0xDF]) = True
   \<and> containsAuthorityKeyword (JStr ''Acme Widgets Ltd'') = False"
  using containsAuthorityKeyword_substring[of "JStr ''NHSBSA''"] .

subsection \<open>C2: the range of the stage classifier\<close>

text \<open>
  C2, as stated, wants \<open>deriveProcurementStage\<close> to return one of the six labels or
  \<open>null\<close>. The function never returns \<open>null\<close>: its two "no stage" exits are
  \<open>return ""\<close> (and the declaration in \<^verbatim>\<open>src/types/filters.d.ts\<close> gives it the return type
  \<open>string\<close>); the search route turns the empty string into \<open>null\<close> when it stores
  the stage. A notice with nothing but a source is classified as the empty string.
\<close>

theorem deriveProcurementStage_returns_empty_string:
  "deriveProcurementStage referencePlatform (JObj [(''source'', JStr ''CF'')]) = Inr (JStr [])
   \<and> JStr [] \<notin> set (stageLabels @ [JNull])"
  by code_simp

text \<open>
  C2, amended: for every notice whose fields convert to strings without throwing, and whose
  normalised \<open>procurementStage\<close> and \<open>noticeType\<close> are not the word \<open>constructor\<close>,
  \<open>deriveProcurementStage\<close> returns, and what it returns is one of the six labels
  Pipeline, Planning, Tender, Award, Contract, Termination or the empty string; the value
  \<open>stageLabel || null\<close> that the route stores is one of the six labels or \<open>null\<close>.
\<close>

theorem deriveProcurementStage_range:
  assumes conv: "\<forall>k. \<exists>s. toStr js (getProp notice k) = Inr s"
    and ps: "normaliseToken js (getProp notice ''procurementStage'') \<noteq> Inr ''constructor''"
    and nt: "normaliseToken js (getProp notice ''noticeType'') \<noteq> Inr ''constructor''"
  shows "\<exists>v. deriveProcurementStage js notice = Inr v
           \<and> v \<in> set (stageLabels @ [JStr []])
           \<and> stageOrNull v \<in> set (stageLabels @ [JNull])"
proof -
  have range: "\<And>v. v \<in> set (stageLabels @ [JStr []]) \<Longrightarrow> stageOrNull v \<in> set (stageLabels @ [JNull])"
    unfolding stageLabels_def stageOrNull_def orElse_def by auto
  have lab: "\<And>t. t \<in> set stageTokens \<Longrightarrow> STAGE_LABELS t \<in> set (stageLabels @ [JStr []])"
    using STAGE_LABELS_token by simp
  have "\<exists>v. deriveProcurementStage js notice = Inr v \<and> v \<in> set (stageLabels @ [JStr []])"
  proof (cases "\<not> truthy notice \<or> typeof notice \<noteq> ''object''")
    case True
    then show ?thesis unfolding deriveProcurementStage_def by simp
  next
    case False
    note guard = this
    from conv obtain s0 where "toStr js (getProp notice ''procurementStage'') = Inr s0" by blast
    from normaliseToken_total[OF this] obtain tok0
      where tok0: "normaliseToken js (getProp notice ''procurementStage'') = Inr tok0" by blast
    have "\<exists>e. normaliseProcurementStageToken js (getProp notice ''procurementStage'') = Inr e"
      unfolding normaliseProcurementStageToken_def
      using tok0 resolveStageToken_strings[of "[JStr tok0]"] by auto
    then obtain explicitToken where
      ex: "normaliseProcurementStageToken js (getProp notice ''procurementStage'') = Inr explicitToken"
      by blast
    show ?thesis
    proof (cases "explicitToken = []")
      case False
      have "explicitToken \<noteq> ''constructor''"
      proof
        assume c: "explicitToken = ''constructor''"
        from ex tok0 have "tok0 \<noteq> []"
          unfolding normaliseProcurementStageToken_def using False by auto
        with ex tok0 c have "tok0 = ''constructor'' \<or> resolveStageToken [JStr tok0] = Inr ''constructor''"
          unfolding normaliseProcurementStageToken_def by (auto split: if_splits)
        then show False
        proof
          assume "tok0 = ''constructor''" with tok0 ps show False by simp
        next
          assume "resolveStageToken [JStr tok0] = Inr ''constructor''"
          from resolveStageToken_result[OF this] show False unfolding stageTokens_def by simp
        qed
      qed
      with normaliseProcurementStageToken_result[OF ex] False
      have "explicitToken \<in> set stageTokens" by simp
      from lab[OF this] ex False guard show ?thesis
        unfolding deriveProcurementStage_def by simp
    next
      case True
      note noexplicit = this
      from toStr_orElse conv obtain src
        where src: "toStr js (orElse (getProp notice ''source'') (JStr [])) = Inr src" by blast
      from normaliseContractsFinderType_string[OF _ nt] conv obtain ty where
        ty: "normaliseContractsFinderType js (orElse (getProp notice ''noticeType'') (JStr [])) = Inr (JStr ty)"
        by blast
      from toStr_orElse conv obtain st0
        where "toStr js (orElse (getProp notice ''noticeStatus'') (JStr [])) = Inr st0" by blast
      from normaliseToken_total[OF this] obtain statusToken where
        st: "normaliseToken js (orElse (getProp notice ''noticeStatus'') (JStr [])) = Inr statusToken"
        by blast
      from collectStageCandidates_total[OF conv] obtain collected
        where col: "collectStageCandidates js notice = Inr collected" by blast
      let ?cands = "(if truthy (JStr ty) then [JStr ty] else [])
                         @ map JStr collected
                         @ (if statusToken \<noteq> [] then [JStr statusToken] else [])"
      have "\<forall>v\<in>set ?cands. \<exists>s. v = JStr s" by auto
      from resolveStageToken_strings[OF this] obtain resolved
        where res: "resolveStageToken ?cands = Inr resolved" by blast
      from resolveStageToken_result[OF res] have r: "resolved = [] \<or> resolved \<in> set stageTokens" .
      have l2: "resolved \<noteq> [] \<Longrightarrow> STAGE_LABELS resolved \<in> set (stageLabels @ [JStr []])"
        using r lab by blast
      show ?thesis
        unfolding deriveProcurementStage_def
        using guard ex noexplicit src ty st col res l2
        by (simp add: Let_def STAGE_LABELS_values stageLabels_def)
    qed
  qed
  with range show ?thesis by blast
qed

theorem deriveProcurementStage_range_witness:
  "(\<forall>k. \<exists>s. toStr referencePlatform
       (getProp (JObj [(''source'', JStr ''CF''), (''noticeType'', JStr ''Contract''),
                       (''noticeStatus'', JStr ''Awarded''), (''awardedValue'', JNum (Fin 1000))]) k) = Inr s)
   \<and> normaliseToken referencePlatform
       (getProp (JObj [(''source'', JStr ''CF''), (''noticeType'', JStr ''Contract''),
                       (''noticeStatus'', JStr ''Awarded''), (''awardedValue'', JNum (Fin 1000))])
          ''procurementStage'') \<noteq> Inr ''constructor''
   \<and> normaliseToken referencePlatform
       (getProp (JObj [(''source'', JStr ''CF''), (''noticeType'', JStr ''Contract''),
                       (''noticeStatus'', JStr ''Awarded''), (''awardedValue'', JNum (Fin 1000))])
          ''noticeType'') \<noteq> Inr ''constructor''
   \<and> (\<exists>v. deriveProcurementStage referencePlatform
          (JObj [(''source'', JStr ''CF''), (''noticeType'', JStr ''Contract''),
                 (''noticeStatus'', JStr ''Awarded''), (''awardedValue'', JNum (Fin 1000))]) = Inr v
        \<and> v \<in> set (stageLabels @ [JStr []])
        \<and> stageOrNull v \<in> set (stageLabels @ [JNull]))"
proof -
  let ?n = "JObj [(''source'', JStr ''CF''), (''noticeType'', JStr ''Contract''),
                  (''noticeStatus'', JStr ''Awarded''), (''awardedValue'', JNum (Fin 1000))]"
  have h1: "\<forall>k. \<exists>s. toStr referencePlatform (getProp ?n k) = Inr s" by simp
  have h2: "normaliseToken referencePlatform (getProp ?n ''procurementStage'') \<noteq> Inr ''constructor''"
    by code_simp
  have h3: "normaliseToken referencePlatform (getProp ?n ''noticeType'') \<noteq> Inr ''constructor''"
    by code_simp
  from deriveProcurementStage_range[OF h1 h2 h3] h1 h2 h3 show ?thesis by blast
qed

subsection \<open>C3: the entity decoder and invalid code points\<close>

text \<open>The decoder on the examples of its contract, and on a numeric reference too long to
  be a finite number, which is the one case its guard \<open>Number.isFinite\<close> catches.\<close>

lemma decodeHtmlEntities_examples:
  "decodeHtmlEntities js None = Inr None"
  "decodeHtmlEntities js (Some []) = Inr (Some [])"
  "decodeHtmlEntities js (Some (units ''&amp;'')) = Inr (Some (units ''&''))"
  "decodeHtmlEntities js (Some (units ''&#65;'')) = Inr (Some (units ''A''))"
  "decodeHtmlEntities js (Some (units ''&#x41;'')) = Inr (Some (units ''A''))"
  "decodeHtmlEntities js (Some (units ''&unknown;'')) = Inr (Some (units ''&unknown;''))"
  "decodeHtmlEntities js (Some (units (''&#'' @ replicate 310 CHR ''9'' @ '';'')))
     = Inr (Some (units (''&#'' @ replicate 310 CHR ''9'' @ '';'')))"
  by code_simp+

text \<open>Text without an ampersand is returned as it is.\<close>

lemma replaceAll_plain:
  assumes "38 \<notin> set s" and "\<And>c cs. c \<noteq> 38 \<Longrightarrow> m (c # cs) = None"
  shows "replaceAll m f s = Inr s"
  using assms(1)
proof (induction s)
  case Nil
  then show ?case by simp
next
  case (Cons c cs)
  then have "c \<noteq> 38" and "replaceAll m f cs = Inr cs" by auto
  with assms(2)[of c cs] show ?case by simp
qed

lemma decodeHtmlEntities_plain_text:
  assumes "38 \<notin> set s"
  shows "decodeHtmlEntities js (Some s) = Inr (Some s)"
proof -
  have h: "\<And>c cs. c \<noteq> 38 \<Longrightarrow> matchHexRef (c # cs) = None"
    by (case_tac cs rule: matchHexRef.cases) auto
  have d: "\<And>c cs. c \<noteq> 38 \<Longrightarrow> matchDecRef (c # cs) = None"
    by (case_tac cs rule: matchDecRef.cases) auto
  have n: "\<And>c cs. c \<noteq> 38 \<Longrightarrow> matchNamedRef (c # cs) = None"
    by simp
  show ?thesis
    unfolding decodeHtmlEntities_def
    using replaceAll_plain[where m = matchHexRef and f = hexCallback, OF assms h]
      replaceAll_plain[where m = matchDecRef and f = decCallback, OF assms d]
      replaceAll_plain[where m = matchNamedRef and f = "namedCallback js", OF assms n]
    by simp
qed

text \<open>
  C3 is what the decoder is written to do (a reference that does not give a valid code
  point is returned as it was), and the code misses it. The guard is
  \<open>Number.isFinite(codePoint)\<close>, which every reference of fewer than some three hundred
  digits passes; \<open>String.fromCodePoint\<close> is then called with the number, and throws a
  RangeError when it is above \<open>0x10FFFF\<close>. The error leaves \<open>decodeHtmlEntities\<close>.
\<close>

theorem decodeHtmlEntities_throws_on_large_code_point:
  "decodeHtmlEntities js (Some (units ''&#x110000;'')) = Inl RangeError
   \<and> decodeHtmlEntities js (Some (units ''Lot 3 &#1114112; services'')) = Inl RangeError"
  by code_simp

theorem decodeHtmlEntities_throws_on_large_code_point_witness:
  "decodeHtmlEntities referencePlatform (Some (units ''&#x110000;'')) = Inl RangeError
   \<and> decodeHtmlEntities referencePlatform (Some (units ''Lot 3 &#1114112; services''))
     = Inl RangeError"
  using decodeHtmlEntities_throws_on_large_code_point[of referencePlatform] .

subsection \<open>C4: the release that is projected\<close>

lemma sequenceE_Inr_map: "sequenceE ms = Inr xs \<Longrightarrow> ms = map Inr xs"
proof (induction ms arbitrary: xs)
  case Nil
  then show ?case by simp
next
  case (Cons m ms)
  then show ?case by (auto split: sum.splits)
qed

lemma sequenceE_map_Inr: "sequenceE (map Inr xs) = Inr xs"
  by (induction xs) simp_all

lemma findById_find:
  assumes "\<forall>r\<in>set rs. r \<noteq> JNull \<and> r \<noteq> JUndefined"
  shows "findById same noticeId rs =
           Inr (case List.find (\<lambda>r. strictEquals same (getProp r ''id'') noticeId) rs of
                  None \<Rightarrow> JUndefined | Some r \<Rightarrow> r)"
  using assms
proof (induction rs)
  case Nil
  then show ?case by simp
next
  case (Cons r rs)
  then have "readProp r ''id'' = Inr (getProp r ''id'')" unfolding readProp_def by simp
  with Cons show ?case by simp
qed

lemma strictEquals_undefined: "strictEquals same JUndefined b \<Longrightarrow> \<not> truthy b"
  by simp

lemma hd_sort_key:
  assumes "xs \<noteq> []"
  shows "hd (sort_key f xs) \<in> set xs \<and> (\<forall>x\<in>set xs. f (hd (sort_key f xs)) \<le> f x)"
proof -
  let ?ys = "sort_key f xs"
  have ne: "?ys \<noteq> []" using assms by (metis length_sort list.size(3) length_0_conv)
  have s: "sorted (map f ?ys)" by (rule sorted_sort_key)
  have st: "set ?ys = set xs" by simp
  from ne obtain y ys where ys: "?ys = y # ys" by (cases ?ys) auto
  with s have "\<forall>x\<in>set ys. f y \<le> f x" by simp
  with ys have "\<forall>x\<in>set ?ys. f (hd ?ys) \<le> f x" by auto
  moreover from ys have "hd ?ys \<in> set ?ys" by simp
  ultimately show ?thesis unfolding st by blast
qed

lemma zip_times:
  assumes "map g rs = map Inr tms" "(t, r) \<in> set (zip tms rs)"
  shows "g r = Inr t"
proof -
  from assms(2) obtain i where i: "i < length tms" "i < length rs" "tms ! i = t" "rs ! i = r"
    unfolding in_set_zip by auto
  from assms(1) i(1,2) have "map g rs ! i = map Inr tms ! i" by simp
  with i show ?thesis by simp
qed

lemma sortByDateDesc_hd:
  assumes tr: "\<forall>r\<in>set rs. truthy r"
    and ne: "rs \<noteq> []"
    and tms: "\<forall>r\<in>set rs. \<exists>t. releaseTime js r = Inr t"
  shows "\<exists>sorted r t. sortByDateDesc js rs = Inr sorted \<and> sorted \<noteq> [] \<and> hd sorted = r
           \<and> r \<in> set rs \<and> releaseTime js r = Inr t
           \<and> (\<forall>r'\<in>set rs. \<forall>t'. releaseTime js r' = Inr t' \<longrightarrow> t' \<le> t)"
proof -
  have def: "filter (\<lambda>r. r \<noteq> JUndefined) rs = rs"
    using tr by (auto simp: filter_id_conv)
  have undef: "filter (\<lambda>r. r = JUndefined) rs = []"
    using tr by (auto simp: filter_empty_conv)
  show ?thesis
  proof (cases "length rs < 2")
    case True
    with ne obtain r where r: "rs = [r]" by (cases rs) (auto simp: length_Suc_conv)
    with tms obtain t where "releaseTime js r = Inr t" by auto
    with True r show ?thesis unfolding sortByDateDesc_def Let_def def undef by simp
  next
    case False
    have "\<forall>m\<in>set (map (releaseTime js) rs). \<exists>x. m = Inr x" using tms by auto
    from sequenceE_total[OF this] obtain ts
      where ts: "sequenceE (map (releaseTime js) rs) = Inr ts" by blast
    from sequenceE_Inr_map[OF ts] have m: "map (releaseTime js) rs = map Inr ts" .
    then have len: "length ts = length rs" by (metis length_map)
    let ?key = "\<lambda>(t, r). - (t :: int)"
    let ?z = "zip ts rs"
    have zne: "?z \<noteq> []" using ne len by (cases ts; cases rs) auto
    from hd_sort_key[OF zne, of ?key] have
      hin: "hd (sort_key ?key ?z) \<in> set ?z"
      and hmin: "\<forall>x\<in>set ?z. ?key (hd (sort_key ?key ?z)) \<le> ?key x" by blast+
    obtain t r where tr: "hd (sort_key ?key ?z) = (t, r)" by (cases "hd (sort_key ?key ?z)")
    with hin have tr_in: "(t, r) \<in> set ?z" by simp
    then have rin: "r \<in> set rs" by (rule set_zip_rightD)
    from zip_times[OF m tr_in] have rt: "releaseTime js r = Inr t" .
    have max: "\<forall>r'\<in>set rs. \<forall>t'. releaseTime js r' = Inr t' \<longrightarrow> t' \<le> t"
    proof (intro ballI allI impI)
      fix r' t' assume r': "r' \<in> set rs" and t': "releaseTime js r' = Inr t'"
      from r' obtain i where i: "i < length rs" "rs ! i = r'" unfolding in_set_conv_nth by blast
      with len have "(ts ! i, r') \<in> set ?z" unfolding in_set_zip by auto
      moreover from this zip_times[OF m] t' have "ts ! i = t'" by fastforce
      ultimately have "(t', r') \<in> set ?z" by simp
      with hmin tr show "t' \<le> t" by fastforce
    qed
    have sne: "sort_key ?key ?z \<noteq> []" using zne by (metis length_sort length_0_conv)
    have hd_eq: "hd (map snd (sort_key ?key ?z)) = r"
      using sne tr by (simp add: hd_map)
    have "sortByDateDesc js rs = Inr (map snd (sort_key ?key ?z))"
      unfolding sortByDateDesc_def Let_def def undef using False ts by simp
    with sne hd_eq rin rt max show ?thesis by auto
  qed
qed

text \<open>
  C4: \<open>mapReleasePackageToNotice\<close> (\<open>projectRelease\<close>) and \<open>selectRelevantRelease\<close> are
  private to their module, and both callers pass a base record with a truthy identifier
  (\<open>.filter(record => record.id)\<close>, line 364, and \<open>if (!id) return null\<close>, lines 425-426).
  For every such base record and every release package: if the package is falsy
  (\<open>null\<close>), or its \<open>releases\<close> is not an array or is empty, the base record is returned
  unchanged, as a copy, and nothing is thrown. Otherwise: if a release has the identifier
  of the base record, and no release is \<open>null\<close> or \<open>undefined\<close> (reading its \<open>id\<close> would
  throw), the first such release is the one projected; if none has, the releases are truthy
  (they are objects) and their dates convert to strings, the release projected is one
  whose time \<open>Date.parse(date || "") || 0\<close> is greatest, the most recently dated. In particular, with two releases dated 2024-01-01 and 2024-03-01 and a
  base identifier that matches neither, the release of 2024-03-01 is projected on every
  platform that parses ISO dates. All of it holds whichever objects are the same object.
\<close>

theorem release_selection:
  "(\<not> truthy pkg \<or> (\<forall>rs. getProp pkg ''releases'' \<noteq> JArr rs) \<or> getProp pkg ''releases'' = JArr []
      \<longrightarrow> mapReleasePackageToNotice same js project base pkg = Inr (JObj base))
   \<and> (truthy (getProp (JObj base) ''id'') \<and> truthy pkg \<and> getProp pkg ''releases'' = JArr rs
        \<and> (\<forall>r\<in>set rs. r \<noteq> JNull \<and> r \<noteq> JUndefined)
        \<and> List.find (\<lambda>r. strictEquals same (getProp r ''id'') (getProp (JObj base) ''id'')) rs = Some r
      \<longrightarrow> mapReleasePackageToNotice same js project base pkg = project base r)
   \<and> (truthy (getProp (JObj base) ''id'') \<and> truthy pkg \<and> getProp pkg ''releases'' = JArr rs
        \<and> rs \<noteq> [] \<and> (\<forall>r\<in>set rs. truthy r)
        \<and> (\<forall>r\<in>set rs. \<not> strictEquals same (getProp r ''id'') (getProp (JObj base) ''id''))
        \<and> (\<forall>r\<in>set rs. \<exists>t. releaseTime js r = Inr t)
      \<longrightarrow> (\<exists>r t. mapReleasePackageToNotice same js project base pkg = project base r
                 \<and> r \<in> set rs \<and> releaseTime js r = Inr t
                 \<and> (\<forall>r'\<in>set rs. \<forall>t'. releaseTime js r' = Inr t' \<longrightarrow> t' \<le> t)))
   \<and> (agreesWithIso js
      \<longrightarrow> mapReleasePackageToNotice same js project [(''id'', JStr ''base'')]
            (JObj [(''releases'',
                    JArr [JObj [(''id'', JStr ''r1''), (''date'', JStr ''2024-01-01'')],
                          JObj [(''id'', JStr ''r2''), (''date'', JStr ''2024-03-01'')]])])
           = project [(''id'', JStr ''base'')]
               (JObj [(''id'', JStr ''r2''), (''date'', JStr ''2024-03-01'')]))"
proof (intro conjI impI)
  assume a: "\<not> truthy pkg \<or> (\<forall>rs. getProp pkg ''releases'' \<noteq> JArr rs)
               \<or> getProp pkg ''releases'' = JArr []"
  have "selectRelevantRelease same js pkg (getProp (JObj base) ''id'') = Inr JNull"
  proof (cases "truthy pkg")
    case False
    then show ?thesis unfolding selectRelevantRelease_def by simp
  next
    case True
    with a have "(\<forall>rs. getProp pkg ''releases'' \<noteq> JArr rs) \<or> getProp pkg ''releases'' = JArr []"
      by blast
    then show ?thesis
      unfolding selectRelevantRelease_def using True
      by (cases "getProp pkg ''releases''") auto
  qed
  then show "mapReleasePackageToNotice same js project base pkg = Inr (JObj base)"
    unfolding mapReleasePackageToNotice_def normalizeNotice_def by simp
next
  let ?id = "getProp (JObj base) ''id''"
  assume a: "truthy ?id \<and> truthy pkg \<and> getProp pkg ''releases'' = JArr rs
        \<and> (\<forall>r\<in>set rs. r \<noteq> JNull \<and> r \<noteq> JUndefined)
        \<and> List.find (\<lambda>r. strictEquals same (getProp r ''id'') ?id) rs = Some r"
  then have nn: "\<forall>r\<in>set rs. r \<noteq> JNull \<and> r \<noteq> JUndefined"
    and f: "List.find (\<lambda>r. strictEquals same (getProp r ''id'') ?id) rs = Some r"
    and ti: "truthy ?id" by blast+
  from f have rin: "r \<in> set rs" and m: "strictEquals same (getProp r ''id'') ?id"
    by (auto simp: find_Some_iff)
  then have ne: "rs \<noteq> []" by auto
  have t: "truthy r"
  proof (cases r)
    case (JObj kvs)
    then show ?thesis by simp
  next
    case (JArr xs)
    then show ?thesis by simp
  next
    case (JFun g)
    then show ?thesis by simp
  qed (use m ti in \<open>auto simp: strictEquals_undefined\<close>)
  have "findById same ?id rs = Inr r" unfolding findById_find[OF nn] f by simp
  with a ne t have "selectRelevantRelease same js pkg ?id = Inr r"
    unfolding selectRelevantRelease_def by simp
  with t show "mapReleasePackageToNotice same js project base pkg = project base r"
    unfolding mapReleasePackageToNotice_def by simp
next
  let ?id = "getProp (JObj base) ''id''"
  assume a: "truthy ?id \<and> truthy pkg \<and> getProp pkg ''releases'' = JArr rs
        \<and> rs \<noteq> [] \<and> (\<forall>r\<in>set rs. truthy r)
        \<and> (\<forall>r\<in>set rs. \<not> strictEquals same (getProp r ''id'') ?id)
        \<and> (\<forall>r\<in>set rs. \<exists>t. releaseTime js r = Inr t)"
  then have tr: "\<forall>r\<in>set rs. truthy r" and ne: "rs \<noteq> []"
    and tms: "\<forall>r\<in>set rs. \<exists>t. releaseTime js r = Inr t" by blast+
  from tr have nn: "\<forall>r\<in>set rs. r \<noteq> JNull \<and> r \<noteq> JUndefined" by auto
  from a have "List.find (\<lambda>r. strictEquals same (getProp r ''id'') ?id) rs = None"
    by (auto simp: find_None_iff)
  then have nf: "findById same ?id rs = Inr JUndefined"
    unfolding findById_find[OF nn] by simp
  from sortByDateDesc_hd[OF tr ne tms] obtain sorted r t where
    s: "sortByDateDesc js rs = Inr sorted" and h: "hd sorted = r" and rin: "r \<in> set rs"
    and rt: "releaseTime js r = Inr t"
    and mx: "\<forall>r'\<in>set rs. \<forall>t'. releaseTime js r' = Inr t' \<longrightarrow> t' \<le> t" by blast
  from tr rin have t: "truthy r" by blast
  with h have "orElse (hd sorted) JNull = r" unfolding orElse_def by simp
  with a nf s have "selectRelevantRelease same js pkg ?id = Inr r"
    unfolding selectRelevantRelease_def by simp
  with t have "mapReleasePackageToNotice same js project base pkg = project base r"
    unfolding mapReleasePackageToNotice_def by simp
  with rin rt mx show "\<exists>r t. mapReleasePackageToNotice same js project base pkg = project base r
                 \<and> r \<in> set rs \<and> releaseTime js r = Inr t
                 \<and> (\<forall>r'\<in>set rs. \<forall>t'. releaseTime js r' = Inr t' \<longrightarrow> t' \<le> t)" by blast
next
  assume iso: "agreesWithIso js"
  have "isoDateParse ''2024-01-01'' = Some 1704067200000" by code_simp
  with iso have d1: "Date_parse js ''2024-01-01'' = Some 1704067200000"
    unfolding agreesWithIso_def by blast
  have "isoDateParse ''2024-03-01'' = Some 1709251200000" by code_simp
  with iso have d2: "Date_parse js ''2024-03-01'' = Some 1709251200000"
    unfolding agreesWithIso_def by blast
  let ?r1 = "JObj [(''id'', JStr ''r1''), (''date'', JStr ''2024-01-01'')]"
  let ?r2 = "JObj [(''id'', JStr ''r2''), (''date'', JStr ''2024-03-01'')]"
  have t1: "releaseTime js ?r1 = Inr 1704067200000"
    unfolding releaseTime_def readProp_def orElse_def by (simp add: d1)
  have t2: "releaseTime js ?r2 = Inr 1709251200000"
    unfolding releaseTime_def readProp_def orElse_def by (simp add: d2)
  have f: "findById same (JStr ''base'') [?r1, ?r2] = Inr JUndefined"
    unfolding findById.simps readProp_def by simp
  have s: "sortByDateDesc js [?r1, ?r2] = Inr [?r2, ?r1]"
    unfolding sortByDateDesc_def Let_def by (simp add: t1 t2)
  have g: "getProp (JObj [(''releases'', JArr [?r1, ?r2])]) ''releases'' = JArr [?r1, ?r2]"
    by simp
  have i: "getProp (JObj [(''id'', JStr ''base'')]) ''id'' = JStr ''base''" by simp
  have "selectRelevantRelease same js (JObj [(''releases'', JArr [?r1, ?r2])]) (JStr ''base'')
           = Inr ?r2"
    unfolding selectRelevantRelease_def g jsval.case f s bindE_Inr
    by (simp add: orElse_def)
  then show "mapReleasePackageToNotice same js project [(''id'', JStr ''base'')]
            (JObj [(''releases'', JArr [?r1, ?r2])]) = project [(''id'', JStr ''base'')] ?r2"
    unfolding mapReleasePackageToNotice_def i by simp
qed

theorem release_selection_witness:
  "mapReleasePackageToNotice (\<lambda>a b. False) referencePlatform (\<lambda>b r. Inr r)
      [(''id'', JStr ''base'')] JNull
     = Inr (JObj [(''id'', JStr ''base'')])
   \<and> mapReleasePackageToNotice (\<lambda>a b. False) referencePlatform (\<lambda>b r. Inr r)
        [(''id'', JStr ''r1'')]
        (JObj [(''releases'',
                JArr [JObj [(''id'', JStr ''r1''), (''date'', JStr ''2024-01-01'')],
                      JObj [(''id'', JStr ''r2''), (''date'', JStr ''2024-03-01'')]])])
       = Inr (JObj [(''id'', JStr ''r1''), (''date'', JStr ''2024-01-01'')])
   \<and> (\<exists>r t. mapReleasePackageToNotice (\<lambda>a b. False) referencePlatform (\<lambda>b r. Inr r)
                [(''id'', JStr ''base'')]
                (JObj [(''releases'',
                        JArr [JObj [(''id'', JStr ''r1''), (''date'', JStr ''2024-01-01'')],
                              JObj [(''id'', JStr ''r2''), (''date'', JStr ''2024-03-01'')]])])
                = Inr r
          \<and> releaseTime referencePlatform r = Inr t \<and> 1709251200000 \<le> t)
   \<and> mapReleasePackageToNotice (\<lambda>a b. False) referencePlatform (\<lambda>b r. Inr r)
        [(''id'', JStr ''base'')]
        (JObj [(''releases'',
                JArr [JObj [(''id'', JStr ''r1''), (''date'', JStr ''2024-01-01'')],
                      JObj [(''id'', JStr ''r2''), (''date'', JStr ''2024-03-01'')]])])
       = Inr (JObj [(''id'', JStr ''r2''), (''date'', JStr ''2024-03-01'')])"
proof -
  let ?same = "\<lambda>(a :: jsval) (b :: jsval). False"
  let ?proj = "\<lambda>(b :: (string \<times> jsval) list) (r :: jsval). (Inr r :: error + jsval)"
  let ?r1 = "JObj [(''id'', JStr ''r1''), (''date'', JStr ''2024-01-01'')]"
  let ?r2 = "JObj [(''id'', JStr ''r2''), (''date'', JStr ''2024-03-01'')]"
  let ?pkg = "JObj [(''releases'', JArr [?r1, ?r2])]"
  let ?b0 = "[(''id'', JStr ''base'')]"
  let ?b1 = "[(''id'', JStr ''r1'')]"
  have tp: "truthy ?pkg" by simp
  have gp: "getProp ?pkg ''releases'' = JArr [?r1, ?r2]" by simp
  have ne: "[?r1, ?r2] \<noteq> []" by simp
  have tr: "\<forall>r\<in>set [?r1, ?r2]. truthy r" by simp
  have t1: "releaseTime referencePlatform ?r1 = Inr 1704067200000" by code_simp
  have t2: "releaseTime referencePlatform ?r2 = Inr 1709251200000" by code_simp
  have tms: "\<forall>r\<in>set [?r1, ?r2]. \<exists>t. releaseTime referencePlatform r = Inr t"
    using t1 t2 by simp
  have i0: "truthy (getProp (JObj ?b0) ''id'')" by simp
  have i1: "truthy (getProp (JObj ?b1) ''id'')" by simp
  have nomatch: "\<forall>r\<in>set [?r1, ?r2]. \<not> strictEquals ?same (getProp r ''id'') (getProp (JObj ?b0) ''id'')"
    by simp
  have match: "List.find (\<lambda>r. strictEquals ?same (getProp r ''id'') (getProp (JObj ?b1) ''id''))
                 [?r1, ?r2] = Some ?r1"
    by simp
  note a = release_selection
    [where same = ?same and js = referencePlatform and pkg = JNull and project = ?proj
       and base = ?b0 and rs = "[]" and r = JNull]
  have c1: "mapReleasePackageToNotice ?same referencePlatform ?proj ?b0 JNull = Inr (JObj ?b0)"
    using a by simp
  note c = release_selection
    [where same = ?same and js = referencePlatform and pkg = ?pkg and project = ?proj
       and base = ?b1 and rs = "[?r1, ?r2]" and r = ?r1]
  have nn: "\<forall>r\<in>set [?r1, ?r2]. r \<noteq> JNull \<and> r \<noteq> JUndefined" by simp
  from c i1 tp gp nn match
  have c2: "mapReleasePackageToNotice ?same referencePlatform ?proj ?b1 ?pkg = Inr ?r1"
    by blast
  note d = release_selection
    [where same = ?same and js = referencePlatform and pkg = ?pkg and project = ?proj
       and base = ?b0 and rs = "[?r1, ?r2]" and r = JNull]
  from d i0 tp gp ne tr nomatch tms
  have "\<exists>r t. mapReleasePackageToNotice ?same referencePlatform ?proj ?b0 ?pkg = Inr r
            \<and> r \<in> set [?r1, ?r2] \<and> releaseTime referencePlatform r = Inr t
            \<and> (\<forall>r'\<in>set [?r1, ?r2]. \<forall>t'. releaseTime referencePlatform r' = Inr t' \<longrightarrow> t' \<le> t)"
    by blast
  then obtain r t where rt: "mapReleasePackageToNotice ?same referencePlatform ?proj ?b0 ?pkg = Inr r"
    "releaseTime referencePlatform r = Inr t"
    "\<forall>r'\<in>set [?r1, ?r2]. \<forall>t'. releaseTime referencePlatform r' = Inr t' \<longrightarrow> t' \<le> t"
    by blast
  from rt(3) t2 have "1709251200000 \<le> t" by simp
  with rt have c3: "\<exists>r t. mapReleasePackageToNotice ?same referencePlatform ?proj ?b0 ?pkg = Inr r
          \<and> releaseTime referencePlatform r = Inr t \<and> 1709251200000 \<le> t" by blast
  from d agreesWithIso_reference
  have c4: "mapReleasePackageToNotice ?same referencePlatform ?proj ?b0 ?pkg = Inr ?r2" by blast
  from c1 c2 c3 c4 show ?thesis by blast
qed

text \<open>
  The hypothesis on the identifier is what the two callers guarantee. The function has a
  branch of its own for a base record without an identifier,
  \<open>if (!noticeId) return pkg.releases[0]\<close>, that takes the first release whatever the
  dates are; no call of the module reaches it.
\<close>

lemma selectRelevantRelease_without_identifier:
  "truthy pkg \<and> getProp pkg ''releases'' = JArr rs \<and> rs \<noteq> [] \<and> \<not> truthy noticeId
     \<longrightarrow> selectRelevantRelease same js pkg noticeId = Inr (hd rs)"
  unfolding selectRelevantRelease_def by simp

subsection \<open>C5: the value range\<close>

text \<open>
  C5, as stated, collects the value fields that parse as finite numbers and never drops a
  notice that has none. \<open>parseNumberSafe\<close> only rejects \<open>NaN\<close>, so an infinite value
  (the JSON number \<open>1e999\<close> is read as \<open>Infinity\<close>) is collected and compared: a notice
  whose only value is infinite has no finite value and is dropped by an upper bound.
\<close>

theorem value_filter_drops_infinite_value:
  "applyFilters referencePlatform [JObj [(''valueLow'', JNum PosInf)]]
      (noCriteria\<lparr>valueFrom := JNum (Fin 0), valueTo := JNum (Fin 10)\<rparr>) = Inr []
   \<and> applyFilters referencePlatform [JObj [(''valueLow'', JNum PosInf)]] noCriteria
       = Inr [JObj [(''valueLow'', JNum PosInf)]]"
  by code_simp

text \<open>
  C5, amended: for every list of notices and every criteria in which \<open>valueFrom\<close> or
  \<open>valueTo\<close> gives a bound (a number is its own bound, \<open>null\<close> and \<open>undefined\<close> give none),
  \<open>applyFilters\<close> keeps exactly those notices kept without the two bounds that pass the
  value test: the values collected from \<open>valueLow\<close>, \<open>valueHigh\<close>, \<open>awardedValue\<close> are those
  that are not \<open>null\<close>, \<open>undefined\<close> or the empty string and convert to a number other than
  \<open>NaN\<close> (an infinite value is collected), and the notice passes when nothing was collected
  or some collected value is neither below the lower bound nor above the upper bound, both
  bounds included. In particular, under \<open>{valueFrom: 500, valueTo: 2000}\<close> the notices with
  \<open>valueLow\<close> 1000, 2000 and 500, the notice without values and the notice with
  \<open>valueLow = 100, valueHigh = 1500\<close> pass, and the notices with \<open>valueLow\<close> 5000 and 100
  fail; the notice with \<open>valueLow = 1000\<close>, \<open>valueHigh = null\<close>, \<open>awardedValue = null\<close>
  fails \<open>{valueFrom: 2000, valueTo: 3000}\<close>.
\<close>

theorem value_range_any_field:
  "(applyFilters js notices (c\<lparr>valueFrom := lower, valueTo := upper\<rparr>) = Inr kept
      \<and> valueBound js lower = Inr lo \<and> valueBound js upper = Inr hi
      \<and> (lo \<noteq> None \<or> hi \<noteq> None)
    \<longrightarrow> (\<exists>base. applyFilters js notices (c\<lparr>valueFrom := JUndefined, valueTo := JUndefined\<rparr>)
                   = Inr base
          \<and> kept = filter (\<lambda>n. \<exists>vals. numericValues js n = Inr vals
                             \<and> (vals = []
                                \<or> (\<exists>x\<in>set vals. (\<forall>m. lo = Some m \<longrightarrow> \<not> jsLess x m)
                                              \<and> (\<forall>m. hi = Some m \<longrightarrow> \<not> jsLess m x)))) base))
   \<and> valueBound js (JNum a) = Inr (Some a)
   \<and> valueBound js JNull = Inr None
   \<and> valueBound js JUndefined = Inr None
   \<and> (\<not> jsLess (Fin x) (Fin y) \<longleftrightarrow> y \<le> x)
   \<and> (numericValues js notice = Inr vals
      \<longleftrightarrow> (\<exists>low high awarded.
             parseNumberSafe js (getProp notice ''valueLow'') = Inr low
           \<and> parseNumberSafe js (getProp notice ''valueHigh'') = Inr high
           \<and> parseNumberSafe js (getProp notice ''awardedValue'') = Inr awarded
           \<and> vals = nonNull [low, high, awarded]))
   \<and> (parseNumberSafe js v = Inr (Some n)
      \<longleftrightarrow> v \<noteq> JNull \<and> v \<noteq> JUndefined \<and> v \<noteq> JStr [] \<and> toNumber js v = Inr n \<and> n \<noteq> NaN)
   \<and> applyFilters js
        [JObj [(''valueLow'', JNum (Fin 1000)), (''valueHigh'', JNull), (''awardedValue'', JNull)],
         JObj [(''valueLow'', JNum (Fin 5000))],
         JObj [(''valueLow'', JNum (Fin 2000))],
         JObj [(''valueLow'', JNum (Fin 500))],
         JObj [(''title'', JStr ''no value'')],
         JObj [(''valueLow'', JNum (Fin 100)), (''valueHigh'', JNum (Fin 1500))],
         JObj [(''valueLow'', JNum (Fin 100))]]
        (noCriteria\<lparr>valueFrom := JNum (Fin 500), valueTo := JNum (Fin 2000)\<rparr>)
       = Inr [JObj [(''valueLow'', JNum (Fin 1000)), (''valueHigh'', JNull), (''awardedValue'', JNull)],
              JObj [(''valueLow'', JNum (Fin 2000))],
              JObj [(''valueLow'', JNum (Fin 500))],
              JObj [(''title'', JStr ''no value'')],
              JObj [(''valueLow'', JNum (Fin 100)), (''valueHigh'', JNum (Fin 1500))]]
   \<and> applyFilters js
        [JObj [(''valueLow'', JNum (Fin 1000)), (''valueHigh'', JNull), (''awardedValue'', JNull)]]
        (noCriteria\<lparr>valueFrom := JNum (Fin 2000), valueTo := JNum (Fin 3000)\<rparr>)
       = Inr []
   \<and> applyFilters js
        [JObj [(''valueLow'', JNum (Fin 1000))], JObj [(''valueLow'', JNum (Fin 5000))]]
        (noCriteria\<lparr>valueTo := JNum (Fin 2000)\<rparr>)
       = Inr [JObj [(''valueLow'', JNum (Fin 1000))]]"
proof -
  have main: "applyFilters js notices (c\<lparr>valueFrom := lower, valueTo := upper\<rparr>) = Inr kept
      \<and> valueBound js lower = Inr lo \<and> valueBound js upper = Inr hi
      \<and> (lo \<noteq> None \<or> hi \<noteq> None)
    \<longrightarrow> (\<exists>base. applyFilters js notices (c\<lparr>valueFrom := JUndefined, valueTo := JUndefined\<rparr>)
                   = Inr base
          \<and> kept = filter (\<lambda>n. \<exists>vals. numericValues js n = Inr vals
                             \<and> (vals = []
                                \<or> (\<exists>x\<in>set vals. (\<forall>m. lo = Some m \<longrightarrow> \<not> jsLess x m)
                                              \<and> (\<forall>m. hi = Some m \<longrightarrow> \<not> jsLess m x)))) base)"
  proof
    let ?V = "\<lambda>n. \<exists>vals. numericValues js n = Inr vals
                 \<and> (vals = []
                    \<or> (\<exists>x\<in>set vals. (\<forall>m. lo = Some m \<longrightarrow> \<not> jsLess x m)
                                  \<and> (\<forall>m. hi = Some m \<longrightarrow> \<not> jsLess m x)))"
    assume a: "applyFilters js notices (c\<lparr>valueFrom := lower, valueTo := upper\<rparr>) = Inr kept
      \<and> valueBound js lower = Inr lo \<and> valueBound js upper = Inr hi
      \<and> (lo \<noteq> None \<or> hi \<noteq> None)"
    then obtain p where p: "prepare js (c\<lparr>valueFrom := lower, valueTo := upper\<rparr>) = Inr p"
      and f: "filterE (keepNotice js p) notices = Inr kept"
      unfolding applyFilters_def bindE_Inr_iff by blast
    from prepare_values[OF p] a obtain p0 where
      p0: "prepare js (c\<lparr>valueFrom := JUndefined, valueTo := JUndefined\<rparr>) = Inr p0"
      and mn: "minValue p = lo" and mx: "maxValue p = hi"
      and p0': "p0 = p\<lparr>minValue := None, maxValue := None\<rparr>"
      by auto
    from a mn mx have given: "minValue p \<noteq> None \<or> maxValue p \<noteq> None" by simp
    have step: "\<exists>a. keepNotice js p0 n = Inr a \<and> b = (a \<and> ?V n)"
      if "keepNotice js p n = Inr b" for n b
    proof -
      from that obtain a where
        a0: "keepNotice js p0 n = Inr a"
        and rest: "(if a then passesValueRange js (minValue p) (maxValue p) n else Inr False) = Inr b"
        unfolding keepNotice_value_last[of js p n] p0' bindE_Inr_iff by blast
      have "b = (a \<and> ?V n)"
      proof (cases a)
        case False
        with rest show ?thesis by simp
      next
        case True
        with rest have "passesValueRange js (minValue p) (maxValue p) n = Inr b" by simp
        then obtain vals where v: "numericValues js n = Inr vals"
          and b: "b = (vals = [] \<or> list_ex (withinRange lo hi) vals)"
          unfolding passesValueRange_def mn mx using given[unfolded mn mx]
          by (auto simp: bindE_Inr_iff split: if_splits)
        have w: "\<And>x. withinRange lo hi x
                  = ((\<forall>m. lo = Some m \<longrightarrow> \<not> jsLess x m) \<and> (\<forall>m. hi = Some m \<longrightarrow> \<not> jsLess m x))"
          unfolding withinRange_def by (cases lo; cases hi) auto
        from True v b show ?thesis unfolding list_ex_iff w by auto
      qed
      with a0 show ?thesis by blast
    qed
    from filterE_refine[OF f, of "keepNotice js p0" ?V] step
    obtain base where "filterE (keepNotice js p0) notices = Inr base" "kept = filter ?V base"
      by blast
    then show "\<exists>base. applyFilters js notices (c\<lparr>valueFrom := JUndefined, valueTo := JUndefined\<rparr>)
                   = Inr base \<and> kept = filter ?V base"
      unfolding applyFilters_def p0 by simp
  qed
  have b1: "valueBound js (JNum a) = Inr (Some a)" unfolding valueBound_def by simp
  have b2: "valueBound js JNull = Inr None" unfolding valueBound_def by simp
  have b3: "valueBound js JUndefined = Inr None" unfolding valueBound_def by simp
  have closed: "\<not> jsLess (Fin x) (Fin y) \<longleftrightarrow> y \<le> x" by auto
  have collected: "numericValues js notice = Inr vals
      \<longleftrightarrow> (\<exists>low high awarded.
             parseNumberSafe js (getProp notice ''valueLow'') = Inr low
           \<and> parseNumberSafe js (getProp notice ''valueHigh'') = Inr high
           \<and> parseNumberSafe js (getProp notice ''awardedValue'') = Inr awarded
           \<and> vals = nonNull [low, high, awarded])"
    unfolding numericValues_def
    by (auto simp: bindE_Inr_iff split: sum.splits)
  have parse: "parseNumberSafe js v = Inr (Some n)
      \<longleftrightarrow> v \<noteq> JNull \<and> v \<noteq> JUndefined \<and> v \<noteq> JStr [] \<and> toNumber js v = Inr n \<and> n \<noteq> NaN"
    unfolding parseNumberSafe_def by (auto simp: bindE_Inr_iff)
  have e1: "applyFilters js
        [JObj [(''valueLow'', JNum (Fin 1000)), (''valueHigh'', JNull), (''awardedValue'', JNull)],
         JObj [(''valueLow'', JNum (Fin 5000))],
         JObj [(''valueLow'', JNum (Fin 2000))],
         JObj [(''valueLow'', JNum (Fin 500))],
         JObj [(''title'', JStr ''no value'')],
         JObj [(''valueLow'', JNum (Fin 100)), (''valueHigh'', JNum (Fin 1500))],
         JObj [(''valueLow'', JNum (Fin 100))]]
        (noCriteria\<lparr>valueFrom := JNum (Fin 500), valueTo := JNum (Fin 2000)\<rparr>)
       = Inr [JObj [(''valueLow'', JNum (Fin 1000)), (''valueHigh'', JNull), (''awardedValue'', JNull)],
              JObj [(''valueLow'', JNum (Fin 2000))],
              JObj [(''valueLow'', JNum (Fin 500))],
              JObj [(''title'', JStr ''no value'')],
              JObj [(''valueLow'', JNum (Fin 100)), (''valueHigh'', JNum (Fin 1500))]]"
    by code_simp
  have e2: "applyFilters js
        [JObj [(''valueLow'', JNum (Fin 1000)), (''valueHigh'', JNull), (''awardedValue'', JNull)]]
        (noCriteria\<lparr>valueFrom := JNum (Fin 2000), valueTo := JNum (Fin 3000)\<rparr>)
       = Inr []"
    by code_simp
  have e3: "applyFilters js
        [JObj [(''valueLow'', JNum (Fin 1000))], JObj [(''valueLow'', JNum (Fin 5000))]]
        (noCriteria\<lparr>valueTo := JNum (Fin 2000)\<rparr>)
       = Inr [JObj [(''valueLow'', JNum (Fin 1000))]]"
    by code_simp
  show ?thesis
    apply (intro conjI)
    apply (rule main)
    apply (rule b1)
    apply (rule b2)
    apply (rule b3)
    apply (rule closed)
    apply (rule collected)
    apply (rule parse)
    apply (rule e1)
    apply (rule e2)
    apply (rule e3)
    done
qed

theorem value_range_any_field_witness:
  "applyFilters referencePlatform
      [JObj [(''valueLow'', JNum (Fin 1000))], JObj [(''valueLow'', JNum (Fin 5000))],
       JObj [(''valueLow'', JStr [])]]
      (noCriteria\<lparr>valueFrom := JNum (Fin 500), valueTo := JNum (Fin 2000)\<rparr>)
     = Inr [JObj [(''valueLow'', JNum (Fin 1000))], JObj [(''valueLow'', JStr [])]]
   \<and> valueBound referencePlatform (JNum (Fin 500)) = Inr (Some (Fin 500))
   \<and> valueBound referencePlatform (JNum (Fin 2000)) = Inr (Some (Fin 2000))
   \<and> (\<exists>base. applyFilters referencePlatform
            [JObj [(''valueLow'', JNum (Fin 1000))], JObj [(''valueLow'', JNum (Fin 5000))],
             JObj [(''valueLow'', JStr [])]]
            (noCriteria\<lparr>valueFrom := JUndefined, valueTo := JUndefined\<rparr>) = Inr base
        \<and> [JObj [(''valueLow'', JNum (Fin 1000))], JObj [(''valueLow'', JStr [])]]
            = filter (\<lambda>n. \<exists>vals. numericValues referencePlatform n = Inr vals
                           \<and> (vals = []
                              \<or> (\<exists>x\<in>set vals. (\<forall>m. Some (Fin 500) = Some m \<longrightarrow> \<not> jsLess x m)
                                            \<and> (\<forall>m. Some (Fin 2000) = Some m \<longrightarrow> \<not> jsLess m x))))
                base)"
proof -
  let ?ns = "[JObj [(''valueLow'', JNum (Fin 1000))], JObj [(''valueLow'', JNum (Fin 5000))],
              JObj [(''valueLow'', JStr [])]]"
  have k: "applyFilters referencePlatform ?ns
             (noCriteria\<lparr>valueFrom := JNum (Fin 500), valueTo := JNum (Fin 2000)\<rparr>)
           = Inr [JObj [(''valueLow'', JNum (Fin 1000))], JObj [(''valueLow'', JStr [])]]"
    by code_simp
  have l: "valueBound referencePlatform (JNum (Fin 500)) = Inr (Some (Fin 500))" by code_simp
  have u: "valueBound referencePlatform (JNum (Fin 2000)) = Inr (Some (Fin 2000))" by code_simp
  have g: "Some (Fin 500) \<noteq> (None :: jsnum option) \<or> Some (Fin 2000) \<noteq> (None :: jsnum option)"
    by simp
  note t = value_range_any_field
    [where js = referencePlatform and notices = ?ns and c = noCriteria
       and lower = "JNum (Fin 500)" and upper = "JNum (Fin 2000)"
       and kept = "[JObj [(''valueLow'', JNum (Fin 1000))], JObj [(''valueLow'', JStr [])]]"
       and lo = "Some (Fin 500)" and hi = "Some (Fin 2000)"]
  note r = t[THEN conjunct1, THEN mp, OF conjI[OF k conjI[OF l conjI[OF u g]]]]
  show ?thesis
    apply (intro conjI)
    apply (rule k)
    apply (rule l)
    apply (rule u)
    apply (rule r)
    done
qed

subsection \<open>C6: the date range\<close>

lemma bindE_bool: "bindE m (\<lambda>ok. if \<not> ok then Inr False else Inr True) = m"
  unfolding bindE_def by (cases m) auto

lemma keepNotice_date_only:
  "keepNotice js \<lparr> kw = [], typeSet = [], statusSet = [], stageSet = [],
                   minValue = None, maxValue = None, fromTime = f, toTime = t,
                   sourceSet = [] \<rparr> notice
     = bindE (readProp notice ''source'') (\<lambda>rawSource.
       bindE (toStr js (orElse rawSource (JStr []))) (\<lambda>src.
       bindE (deriveProcurementStage js notice) (\<lambda>stageLabel.
         passesDateRange js f t notice)))"
  unfolding keepNotice_def passesKeywords_def passesValueRange_def Let_def
  by (simp add: bindE_bool cong: if_cong)

lemma prepare_dates_only:
  assumes "truthy df \<longrightarrow> normaliseDateStart js df = Inr f"
    and "\<not> truthy df \<longrightarrow> f = None"
    and "truthy dt \<longrightarrow> normaliseDateEnd js dt = Inr t"
    and "\<not> truthy dt \<longrightarrow> t = None"
  shows "prepare js (noCriteria\<lparr>dateFrom := df, dateTo := dt\<rparr>)
           = Inr \<lparr> kw = [], typeSet = [], statusSet = [], stageSet = [],
                   minValue = None, maxValue = None, fromTime = f, toTime = t,
                   sourceSet = [] \<rparr>"
  using assms unfolding prepare_def noCriteria_def valueBound_def by simp

lemma iso_dates:
  assumes "agreesWithIso js"
  shows "Date_parse js ''1970-01-01T00:00:00Z'' = Some 0"
    and "Date_parse js ''1969-06-15T12:00:00Z'' = Some (- 17236800000)"
    and "Date_parse js ''2024-06-15T00:00:00Z'' = Some 1718409600000"
    and "Date_parse js ''2024-06-15T12:00:00Z'' = Some 1718452800000"
    and "Date_parse js ''2024-06-15T23:59:59Z'' = Some 1718495999000"
    and "Date_parse js ''2024-06-16T00:00:00Z'' = Some 1718496000000"
proof -
  have "isoDateParse ''1970-01-01T00:00:00Z'' = Some 0" by code_simp
  with assms show "Date_parse js ''1970-01-01T00:00:00Z'' = Some 0"
    unfolding agreesWithIso_def by blast
  have "isoDateParse ''1969-06-15T12:00:00Z'' = Some (- 17236800000)" by code_simp
  with assms show "Date_parse js ''1969-06-15T12:00:00Z'' = Some (- 17236800000)"
    unfolding agreesWithIso_def by blast
  have "isoDateParse ''2024-06-15T00:00:00Z'' = Some 1718409600000" by code_simp
  with assms show "Date_parse js ''2024-06-15T00:00:00Z'' = Some 1718409600000"
    unfolding agreesWithIso_def by blast
  have "isoDateParse ''2024-06-15T12:00:00Z'' = Some 1718452800000" by code_simp
  with assms show "Date_parse js ''2024-06-15T12:00:00Z'' = Some 1718452800000"
    unfolding agreesWithIso_def by blast
  have "isoDateParse ''2024-06-15T23:59:59Z'' = Some 1718495999000" by code_simp
  with assms show "Date_parse js ''2024-06-15T23:59:59Z'' = Some 1718495999000"
    unfolding agreesWithIso_def by blast
  have "isoDateParse ''2024-06-16T00:00:00Z'' = Some 1718496000000" by code_simp
  with assms show "Date_parse js ''2024-06-16T00:00:00Z'' = Some 1718496000000"
    unfolding agreesWithIso_def by blast
qed

text \<open>A bound given as a calendar day is the first and the last second of that day, UTC.\<close>

lemma date_bounds_iso:
  assumes "agreesWithIso js"
    and "isoDateParse (day @ ''T00:00:00Z'') = Some t0"
    and "isoDateParse (day @ ''T23:59:59Z'') = Some t1"
  shows "normaliseDateStart js (JStr day) = Inr (Some t0)"
    and "normaliseDateEnd js (JStr day) = Inr (Some t1)"
proof -
  from assms(1,2) have "Date_parse js (day @ ''T00:00:00Z'') = Some t0"
    unfolding agreesWithIso_def by blast
  then show "normaliseDateStart js (JStr day) = Inr (Some t0)"
    unfolding normaliseDateStart_def by simp
  from assms(1,3) have "Date_parse js (day @ ''T23:59:59Z'') = Some t1"
    unfolding agreesWithIso_def by blast
  then show "normaliseDateEnd js (JStr day) = Inr (Some t1)"
    unfolding normaliseDateEnd_def by simp
qed

text \<open>
  What the date test does when it runs: the candidate is the published date, or else the
  first of the last update, the award date and the deadline that parses; without a
  candidate the notice is dropped; both bounds are inclusive.
\<close>

lemma date_range_semantics:
  assumes "truthyTime fromT \<or> truthyTime toT"
    and "parseDateSafe js (getProp notice ''publishedDate'') = Inr published"
    and "parseDateSafe js (getProp notice ''lastNotifiableUpdate'') = Inr updated"
    and "parseDateSafe js (getProp notice ''awardedDate'') = Inr awarded"
    and "parseDateSafe js (getProp notice ''deadlineDate'') = Inr deadline"
  shows "passesDateRange js fromT toT notice =
           Inr (case nonNull [published, updated, awarded, deadline] of
                  [] \<Rightarrow> False
                | t # _ \<Rightarrow> (\<forall>f. fromT = Some f \<and> f \<noteq> 0 \<longrightarrow> f \<le> t)
                          \<and> (\<forall>u. toT = Some u \<and> u \<noteq> 0 \<longrightarrow> t \<le> u))"
proof -
  have b: "(truthyTime fromT \<or> truthyTime toT) = True" using assms(1) by simp
  have lo: "\<And>t. (truthyTime fromT \<and> (case fromT of Some f \<Rightarrow> t < f | None \<Rightarrow> False))
                = (\<not> (\<forall>f. fromT = Some f \<and> f \<noteq> 0 \<longrightarrow> f \<le> t))"
    unfolding truthyTime_def by (cases fromT) auto
  have hi: "\<And>t. (truthyTime toT \<and> (case toT of Some u \<Rightarrow> t > u | None \<Rightarrow> False))
                = (\<not> (\<forall>u. toT = Some u \<and> u \<noteq> 0 \<longrightarrow> t \<le> u))"
    unfolding truthyTime_def by (cases toT) auto
  show ?thesis
  proof (cases published)
    case (Some t)
    then show ?thesis
      unfolding passesDateRange_def b assms(2) bindE_Inr lo hi
      by (auto simp: nonNull_def)
  next
    case None
    have seq: "sequenceE (map (\<lambda>k. parseDateSafe js (getProp notice k))
                 [''lastNotifiableUpdate'', ''awardedDate'', ''deadlineDate''])
               = Inr [updated, awarded, deadline]"
      using assms(3-5) by simp
    show ?thesis
      unfolding passesDateRange_def b assms(2) bindE_Inr None seq lo hi
      by (cases "nonNull [updated, awarded, deadline]") (auto simp: nonNull_def)
  qed
qed

text \<open>The two examples of C6, on every platform that parses ISO dates.\<close>

lemma date_range_examples:
  assumes "agreesWithIso js"
  shows "applyFilters js
           [JObj [(''publishedDate'', JStr ''2024-06-15T12:00:00Z'')]]
           (noCriteria\<lparr>dateFrom := JStr ''2024-06-15'', dateTo := JStr ''2024-06-15''\<rparr>)
          = Inr [JObj [(''publishedDate'', JStr ''2024-06-15T12:00:00Z'')]]"
    and "applyFilters js
           [JObj [(''publishedDate'', JStr ''2024-06-15T12:00:00Z'')]]
           (noCriteria\<lparr>dateFrom := JStr ''2024-06-16'', dateTo := JUndefined\<rparr>)
          = Inr []"
proof -
  note d = iso_dates[OF assms]
  let ?n = "JObj [(''publishedDate'', JStr ''2024-06-15T12:00:00Z'')]"
  have stage: "deriveProcurementStage js ?n = Inr (JStr [])" by code_simp
  have p1: "prepare js (noCriteria\<lparr>dateFrom := JStr ''2024-06-15'', dateTo := JStr ''2024-06-15''\<rparr>)
          = Inr \<lparr> kw = [], typeSet = [], statusSet = [], stageSet = [],
                   minValue = None, maxValue = None, fromTime = Some 1718409600000,
                   toTime = Some 1718495999000, sourceSet = [] \<rparr>"
    by (rule prepare_dates_only) (simp_all add: normaliseDateStart_def normaliseDateEnd_def d)
  have p2: "prepare js (noCriteria\<lparr>dateFrom := JStr ''2024-06-16'', dateTo := JUndefined\<rparr>)
          = Inr \<lparr> kw = [], typeSet = [], statusSet = [], stageSet = [],
                   minValue = None, maxValue = None, fromTime = Some 1718496000000,
                   toTime = None, sourceSet = [] \<rparr>"
    by (rule prepare_dates_only) (simp_all add: normaliseDateStart_def d)
  have r1: "passesDateRange js (Some 1718409600000) (Some 1718495999000) ?n = Inr True"
    unfolding passesDateRange_def parseDateSafe_def truthyTime_def by (simp add: d)
  have r2: "passesDateRange js (Some 1718496000000) None ?n = Inr False"
    unfolding passesDateRange_def parseDateSafe_def truthyTime_def by (simp add: d)
  show "applyFilters js [?n]
           (noCriteria\<lparr>dateFrom := JStr ''2024-06-15'', dateTo := JStr ''2024-06-15''\<rparr>) = Inr [?n]"
    unfolding applyFilters_def p1 bindE_Inr filterE.simps keepNotice_date_only stage r1
    by (simp add: readProp_def orElse_def)
  show "applyFilters js [?n]
           (noCriteria\<lparr>dateFrom := JStr ''2024-06-16'', dateTo := JUndefined\<rparr>) = Inr []"
    unfolding applyFilters_def p2 bindE_Inr filterE.simps keepNotice_date_only stage r2
    by (simp add: readProp_def orElse_def)
qed

text \<open>
  C6 is right about what the date test does, and the code misses one case of it. The
  bounds are tested as conditions (\<open>if (fromTime || toTime)\<close>, \<open>fromTime && ...\<close>), where
  the value filter next to it tests \<open>!== null\<close>; a bound whose time is \<open>0\<close>, the start of
  1 January 1970, counts as no bound. With \<open>dateFrom = "1970-01-01"\<close> alone the date test
  is skipped: a notice without any date is kept, and so is a notice published in 1969.
\<close>

theorem date_filter_skipped_at_epoch:
  assumes "agreesWithIso js"
  shows "applyFilters js [JObj [(''title'', JStr ''undated'')]]
           (noCriteria\<lparr>dateFrom := JStr ''1970-01-01'', dateTo := JUndefined\<rparr>)
          = Inr [JObj [(''title'', JStr ''undated'')]]
       \<and> applyFilters js [JObj [(''publishedDate'', JStr ''1969-06-15T12:00:00Z'')]]
           (noCriteria\<lparr>dateFrom := JStr ''1970-01-01'', dateTo := JUndefined\<rparr>)
          = Inr [JObj [(''publishedDate'', JStr ''1969-06-15T12:00:00Z'')]]"
proof -
  note d = iso_dates[OF assms]
  let ?a = "JObj [(''title'', JStr ''undated'')]"
  let ?b = "JObj [(''publishedDate'', JStr ''1969-06-15T12:00:00Z'')]"
  have sa: "deriveProcurementStage js ?a = Inr (JStr [])" by code_simp
  have sb: "deriveProcurementStage js ?b = Inr (JStr [])" by code_simp
  have p: "prepare js (noCriteria\<lparr>dateFrom := JStr ''1970-01-01'', dateTo := JUndefined\<rparr>)
          = Inr \<lparr> kw = [], typeSet = [], statusSet = [], stageSet = [],
                   minValue = None, maxValue = None, fromTime = Some 0,
                   toTime = None, sourceSet = [] \<rparr>"
    by (rule prepare_dates_only) (simp_all add: normaliseDateStart_def d)
  have skip: "\<And>n. passesDateRange js (Some 0) None n = Inr True"
    unfolding passesDateRange_def truthyTime_def by simp
  have ra: "applyFilters js [?a]
           (noCriteria\<lparr>dateFrom := JStr ''1970-01-01'', dateTo := JUndefined\<rparr>) = Inr [?a]"
    unfolding applyFilters_def p bindE_Inr filterE.simps keepNotice_date_only sa skip
    by (simp add: readProp_def orElse_def)
  have rb: "applyFilters js [?b]
           (noCriteria\<lparr>dateFrom := JStr ''1970-01-01'', dateTo := JUndefined\<rparr>) = Inr [?b]"
    unfolding applyFilters_def p bindE_Inr filterE.simps keepNotice_date_only sb skip
    by (simp add: readProp_def orElse_def)
  from ra rb show ?thesis by blast
qed

theorem date_filter_skipped_at_epoch_witness:
  "agreesWithIso referencePlatform
   \<and> applyFilters referencePlatform [JObj [(''title'', JStr ''undated'')]]
           (noCriteria\<lparr>dateFrom := JStr ''1970-01-01'', dateTo := JUndefined\<rparr>)
          = Inr [JObj [(''title'', JStr ''undated'')]]
   \<and> applyFilters referencePlatform [JObj [(''publishedDate'', JStr ''1969-06-15T12:00:00Z'')]]
           (noCriteria\<lparr>dateFrom := JStr ''1970-01-01'', dateTo := JUndefined\<rparr>)
          = Inr [JObj [(''publishedDate'', JStr ''1969-06-15T12:00:00Z'')]]"
  using date_filter_skipped_at_epoch[OF agreesWithIso_reference] agreesWithIso_reference
  by blast

subsection \<open>C7: awarded Contracts Finder notices\<close>

text \<open>
  C7: for every Contracts Finder notice (source \<open>CF\<close> or \<open>CONTRACTS FINDER\<close>, in any
  letter case) with no recognised explicit stage, whose type is neither a pipeline nor a
  pre-procurement type and whose status normalises to \<open>awarded\<close>,
  \<open>deriveProcurementStage\<close> returns Contract when one of the fields \<open>start\<close>,
  \<open>contractStart\<close>, \<open>contractStartDate\<close>, \<open>contractPeriodStart\<close>,
  \<open>contract.period.startDate\<close> is populated (truthy), and Award otherwise.
\<close>

theorem awarded_contract_or_award:
  assumes src: "toStr js (orElse (getProp notice ''source'') (JStr [])) = Inr s"
    and cf: "toUpperCase s = units ''CF'' \<or> toUpperCase s = units ''CONTRACTS FINDER''"
    and ex: "normaliseProcurementStageToken js (getProp notice ''procurementStage'') = Inr []"
    and ty: "normaliseContractsFinderType js (orElse (getProp notice ''noticeType'') (JStr [])) = Inr typeToken"
    and ty1: "typeToken \<noteq> JStr ''pipeline''"
    and ty2: "typeToken \<noteq> JStr ''preprocurement''"
    and st: "normaliseToken js (orElse (getProp notice ''noticeStatus'') (JStr [])) = Inr ''awarded''"
  shows "deriveProcurementStage js notice =
           Inr (JStr (if truthy (getProp notice ''start'')
                         \<or> truthy (getProp notice ''contractStart'')
                         \<or> truthy (getProp notice ''contractStartDate'')
                         \<or> truthy (getProp notice ''contractPeriodStart'')
                         \<or> truthy (getOpt (getOpt (getProp notice ''contract'') ''period'') ''startDate'')
                      then ''Contract'' else ''Award''))"
proof -
  have "getProp notice ''source'' \<noteq> JUndefined"
  proof
    assume "getProp notice ''source'' = JUndefined"
    with src have "s = []" unfolding orElse_def by simp
    with cf show False unfolding toUpperCase_def units_def by simp
  qed
  from getProp_object[OF this] obtain kvs where n: "notice = JObj kvs" by blast
  have cfs: "isContractsFinderSource (toUpperCase s)"
    using cf unfolding isContractsFinderSource_def .
  have "deriveProcurementStage js notice =
          Inr (if hasContractTiming notice then STAGE_LABELS ''contract'' else STAGE_LABELS ''award'')"
    unfolding deriveProcurementStage_def
    using n src cfs ex ty ty1 ty2 st by (simp add: Let_def)
  then show ?thesis
    unfolding hasContractTiming_def by (simp add: STAGE_LABELS_values)
qed

theorem awarded_contract_or_award_witness:
  "toStr referencePlatform
      (orElse (getProp (JObj [(''source'', JStr ''CF''), (''noticeType'', JStr ''Contract''),
                              (''noticeStatus'', JStr ''Awarded''), (''start'', JStr ''2024-01-01'')])
                 ''source'') (JStr [])) = Inr ''CF''
   \<and> toUpperCase ''CF'' = units ''CF''
   \<and> deriveProcurementStage referencePlatform
        (JObj [(''source'', JStr ''CF''), (''noticeType'', JStr ''Contract''),
               (''noticeStatus'', JStr ''Awarded''), (''start'', JStr ''2024-01-01'')])
       = Inr (JStr ''Contract'')
   \<and> deriveProcurementStage referencePlatform
        (JObj [(''source'', JStr ''CF''), (''noticeType'', JStr ''Contract''),
               (''noticeStatus'', JStr ''Awarded'')])
       = Inr (JStr ''Award'')"
proof -
  let ?a = "JObj [(''source'', JStr ''CF''), (''noticeType'', JStr ''Contract''),
                  (''noticeStatus'', JStr ''Awarded''), (''start'', JStr ''2024-01-01'')]"
  let ?b = "JObj [(''source'', JStr ''CF''), (''noticeType'', JStr ''Contract''),
                  (''noticeStatus'', JStr ''Awarded'')]"
  have a1: "toStr referencePlatform (orElse (getProp ?a ''source'') (JStr [])) = Inr ''CF''"
    by code_simp
  have b1: "toStr referencePlatform (orElse (getProp ?b ''source'') (JStr [])) = Inr ''CF''"
    by code_simp
  have u: "toUpperCase ''CF'' = units ''CF'' \<or> toUpperCase ''CF'' = units ''CONTRACTS FINDER''"
    by code_simp
  have u': "toUpperCase ''CF'' = units ''CF''" by code_simp
  have a3: "normaliseProcurementStageToken referencePlatform (getProp ?a ''procurementStage'') = Inr []"
    by code_simp
  have b3: "normaliseProcurementStageToken referencePlatform (getProp ?b ''procurementStage'') = Inr []"
    by code_simp
  have a4: "normaliseContractsFinderType referencePlatform (orElse (getProp ?a ''noticeType'') (JStr []))
              = Inr (JStr ''contract'')"
    by code_simp
  have b4: "normaliseContractsFinderType referencePlatform (orElse (getProp ?b ''noticeType'') (JStr []))
              = Inr (JStr ''contract'')"
    by code_simp
  have t1: "JStr ''contract'' \<noteq> JStr ''pipeline''" by simp
  have t2: "JStr ''contract'' \<noteq> JStr ''preprocurement''" by simp
  have a5: "normaliseToken referencePlatform (orElse (getProp ?a ''noticeStatus'') (JStr [])) = Inr ''awarded''"
    by code_simp
  have b5: "normaliseToken referencePlatform (orElse (getProp ?b ''noticeStatus'') (JStr [])) = Inr ''awarded''"
    by code_simp
  have ra: "deriveProcurementStage referencePlatform ?a = Inr (JStr ''Contract'')"
    using awarded_contract_or_award[OF a1 u a3 a4 t1 t2 a5] by (simp add: getOpt_def)
  have rb: "deriveProcurementStage referencePlatform ?b = Inr (JStr ''Award'')"
    using awarded_contract_or_award[OF b1 u b3 b4 t1 t2 b5] by (simp add: getOpt_def)
  from a1 u' ra rb show ?thesis by blast
qed

subsection \<open>C8: keywords filter Find a Tender notices only\<close>

lemma kw_nonempty:
  "filter (\<lambda>k. k \<noteq> []) (map toLowerCase ks) \<noteq> [] \<longleftrightarrow> list_ex (\<lambda>k. k \<noteq> []) ks"
  unfolding list_ex_iff filter_empty_conv by (auto simp: toLowerCase_empty)

lemma kw_includes:
  "list_ex (\<lambda>token. str_includes blob token) (filter (\<lambda>k. k \<noteq> []) (map toLowerCase ks))
     \<longleftrightarrow> list_ex (\<lambda>k. k \<noteq> [] \<and> str_includes blob (toLowerCase k)) ks"
  unfolding list_ex_iff by (auto simp: toLowerCase_empty)

lemma orElse_string: "orElse (JStr a) (JStr []) = JStr a"
  unfolding orElse_def by simp

text \<open>
  C8, as stated, makes every keyword list that is not empty a filter of the notices of
  source B. \<open>applyFilters\<close> lower-cases the keywords and drops the empty ones
  (\<open>keywords.map(value => value.toLowerCase()).filter(Boolean)\<close>), and runs the test when
  one is left (\<open>kw.length\<close>): under the list \<open>[""]\<close>, which is not empty, a Find a Tender
  notice that fails the authority match is kept.
\<close>

theorem keyword_filter_skipped_for_empty_keyword:
  "applyFilters referencePlatform
      [JObj [(''source'', JStr ''FTS''), (''title'', JStr ''Road works'')]]
      (noCriteria\<lparr>keywordsC := [[]]\<rparr>)
     = Inr [JObj [(''source'', JStr ''FTS''), (''title'', JStr ''Road works'')]]
   \<and> length (keywordsC (noCriteria\<lparr>keywordsC := [[]]\<rparr>)) = 1
   \<and> matchesAuthorityKeywords (JObj [(''source'', JStr ''FTS''), (''title'', JStr ''Road works'')])
     = False"
  by code_simp

text \<open>
  C8, amended: in \<open>applyFilters\<close> the keyword test applies to the notices of source B
  (\<open>FTS\<close>, \<open>TD\<close>, \<open>FIND A TENDER\<close>, in any letter case) and only when at least one keyword
  is not the empty string. For every list of notices, whatever their sources, and every
  criteria, the notices kept under a keyword list are exactly the notices kept without
  keywords, less the notices of source B that fail the test when it applies: a notice of
  source B passes when its blob (title, description, CPV codes, organisation name and
  address, region text and code, notice identifier, joined with spaces and lower-cased)
  contains one of the lower-cased non-empty keywords and the notice passes the authority
  match on its own. A notice of source A (\<open>CF\<close>, \<open>CONTRACTS FINDER\<close>) is not of source B, so
  it is never removed on account of the keywords.
\<close>

theorem keyword_filter_only_for_find_a_tender:
  "(applyFilters js notices (c\<lparr>keywordsC := []\<rparr>) = Inr base
      \<and> applyFilters js notices (c\<lparr>keywordsC := ks\<rparr>) = Inr kept
    \<longrightarrow> kept = filter (\<lambda>n. isFindATenderNotice js n \<and> list_ex (\<lambda>k. k \<noteq> []) ks
                          \<longrightarrow> (\<exists>blob. buildSearchableBlob js n = Inr blob
                                 \<and> list_ex (\<lambda>k. k \<noteq> [] \<and> str_includes blob (toLowerCase k)) ks)
                              \<and> matchesAuthorityKeywords n) base)
   \<and> (toStr js (orElse (getProp n ''source'') (JStr [])) = Inr s
      \<longrightarrow> isFindATenderNotice js n
            = (toUpperCase s = units ''FTS'' \<or> toUpperCase s = units ''TD''
               \<or> toUpperCase s = units ''FIND A TENDER''))
   \<and> (toStr js (orElse (getProp n ''source'') (JStr [])) = Inr s
        \<and> (toUpperCase s = units ''CF'' \<or> toUpperCase s = units ''CONTRACTS FINDER'')
      \<longrightarrow> \<not> isFindATenderNotice js n)
   \<and> buildSearchableBlob js
        (JObj [(''title'', JStr t), (''description'', JStr d), (''cpvCodes'', JStr cpv),
               (''organisationName'', JStr org), (''organisationAddress'', JStr addr),
               (''regionText'', JStr rt), (''region'', JStr rc), (''noticeIdentifier'', JStr ident)])
       = Inr (toLowerCase (t @ '' '' @ d @ '' '' @ cpv @ '' '' @ org @ '' '' @ addr @ '' ''
                           @ rt @ '' '' @ rc @ '' '' @ ident))
   \<and> applyFilters js
        [JObj [(''source'', JStr ''CF''), (''title'', JStr ''Road works'')],
         JObj [(''source'', JStr ''FTS''), (''title'', JStr ''NHS Cloud hosting'')],
         JObj [(''source'', JStr ''FTS''), (''title'', JStr ''Cloud hosting'')],
         JObj [(''source'', JStr ''FTS''), (''title'', JStr ''NHS road works'')],
         JObj [(''source'', JStr ''fts''), (''organisationName'', JStr ''Leeds NHS Trust''),
               (''noticeIdentifier'', JStr ''CLOUD-2024'')]]
        (noCriteria\<lparr>keywordsC := [''Cloud'', []]\<rparr>)
       = Inr [JObj [(''source'', JStr ''CF''), (''title'', JStr ''Road works'')],
              JObj [(''source'', JStr ''FTS''), (''title'', JStr ''NHS Cloud hosting'')],
              JObj [(''source'', JStr ''fts''), (''organisationName'', JStr ''Leeds NHS Trust''),
                    (''noticeIdentifier'', JStr ''CLOUD-2024'')]]
   \<and> applyFilters js
        [JObj [(''source'', JStr ''FTS''), (''title'', JStr (''NHS CAF'' @ [CHR 0xC9]))]]
        (noCriteria\<lparr>keywordsC := [''caf'' @ [CHR 0xE9]]\<rparr>)
       = Inr [JObj [(''source'', JStr ''FTS''), (''title'', JStr (''NHS CAF'' @ [CHR 0xC9]))]]"
proof -
  have main: "applyFilters js notices (c\<lparr>keywordsC := []\<rparr>) = Inr base
      \<and> applyFilters js notices (c\<lparr>keywordsC := ks\<rparr>) = Inr kept
    \<longrightarrow> kept = filter (\<lambda>n. isFindATenderNotice js n \<and> list_ex (\<lambda>k. k \<noteq> []) ks
                          \<longrightarrow> (\<exists>blob. buildSearchableBlob js n = Inr blob
                                 \<and> list_ex (\<lambda>k. k \<noteq> [] \<and> str_includes blob (toLowerCase k)) ks)
                              \<and> matchesAuthorityKeywords n) base"
  proof
    let ?kws = "filter (\<lambda>k. k \<noteq> []) (map toLowerCase ks)"
    let ?K = "\<lambda>n. isFindATenderNotice js n \<and> ?kws \<noteq> []
                 \<longrightarrow> (\<exists>blob. buildSearchableBlob js n = Inr blob
                        \<and> list_ex (\<lambda>token. str_includes blob token) ?kws)
                     \<and> matchesAuthorityKeywords n"
    assume a: "applyFilters js notices (c\<lparr>keywordsC := []\<rparr>) = Inr base
      \<and> applyFilters js notices (c\<lparr>keywordsC := ks\<rparr>) = Inr kept"
    then obtain p where p: "prepare js c = Inr p"
      and f0: "filterE (keepNotice js (p\<lparr>kw := []\<rparr>)) notices = Inr base"
      unfolding applyFilters_def prepare_keywords by (auto simp: bindE_Inr_iff)
    from a p have f1: "filterE (keepNotice js (p\<lparr>kw := ?kws\<rparr>)) notices = Inr kept"
      unfolding applyFilters_def prepare_keywords by simp
    have "kept = filter ?K base"
      by (rule filterE_filter[OF f0 f1]) (rule keepNotice_keyword_test)
    then show "kept = filter (\<lambda>n. isFindATenderNotice js n \<and> list_ex (\<lambda>k. k \<noteq> []) ks
                          \<longrightarrow> (\<exists>blob. buildSearchableBlob js n = Inr blob
                                 \<and> list_ex (\<lambda>k. k \<noteq> [] \<and> str_includes blob (toLowerCase k)) ks)
                              \<and> matchesAuthorityKeywords n) base"
      unfolding kw_nonempty kw_includes .
  qed
  have fts: "toStr js (orElse (getProp n ''source'') (JStr [])) = Inr s
      \<longrightarrow> isFindATenderNotice js n
            = (toUpperCase s = units ''FTS'' \<or> toUpperCase s = units ''TD''
               \<or> toUpperCase s = units ''FIND A TENDER'')"
    unfolding isFindATenderNotice_def by simp
  have cf: "toStr js (orElse (getProp n ''source'') (JStr [])) = Inr s
        \<and> (toUpperCase s = units ''CF'' \<or> toUpperCase s = units ''CONTRACTS FINDER'')
      \<longrightarrow> \<not> isFindATenderNotice js n"
    unfolding isFindATenderNotice_def units_def by auto
  have blob: "buildSearchableBlob js
        (JObj [(''title'', JStr t), (''description'', JStr d), (''cpvCodes'', JStr cpv),
               (''organisationName'', JStr org), (''organisationAddress'', JStr addr),
               (''regionText'', JStr rt), (''region'', JStr rc), (''noticeIdentifier'', JStr ident)])
       = Inr (toLowerCase (t @ '' '' @ d @ '' '' @ cpv @ '' '' @ org @ '' '' @ addr @ '' ''
                           @ rt @ '' '' @ rc @ '' '' @ ident))"
    unfolding buildSearchableBlob_def by (simp add: orElse_string)
  have e1: "applyFilters js
        [JObj [(''source'', JStr ''CF''), (''title'', JStr ''Road works'')],
         JObj [(''source'', JStr ''FTS''), (''title'', JStr ''NHS Cloud hosting'')],
         JObj [(''source'', JStr ''FTS''), (''title'', JStr ''Cloud hosting'')],
         JObj [(''source'', JStr ''FTS''), (''title'', JStr ''NHS road works'')],
         JObj [(''source'', JStr ''fts''), (''organisationName'', JStr ''Leeds NHS Trust''),
               (''noticeIdentifier'', JStr ''CLOUD-2024'')]]
        (noCriteria\<lparr>keywordsC := [''Cloud'', []]\<rparr>)
       = Inr [JObj [(''source'', JStr ''CF''), (''title'', JStr ''Road works'')],
              JObj [(''source'', JStr ''FTS''), (''title'', JStr ''NHS Cloud hosting'')],
              JObj [(''source'', JStr ''fts''), (''organisationName'', JStr ''Leeds NHS Trust''),
                    (''noticeIdentifier'', JStr ''CLOUD-2024'')]]"
    by code_simp
  have e2: "applyFilters js
        [JObj [(''source'', JStr ''FTS''), (''title'', JStr (''NHS CAF'' @ [CHR 0xC9]))]]
        (noCriteria\<lparr>keywordsC := [''caf'' @ [CHR 0xE9]]\<rparr>)
       = Inr [JObj [(''source'', JStr ''FTS''), (''title'', JStr (''NHS CAF'' @ [CHR 0xC9]))]]"
    by code_simp
  show ?thesis
    apply (intro conjI)
    apply (rule main)
    apply (rule fts)
    apply (rule cf)
    apply (rule blob)
    apply (rule e1)
    apply (rule e2)
    done
qed

theorem keyword_filter_only_for_find_a_tender_witness:
  "applyFilters referencePlatform
      [JObj [(''source'', JStr ''CF''), (''title'', JStr ''Road works'')],
       JObj [(''source'', JStr ''FTS''), (''title'', JStr ''NHS Cloud hosting'')],
       JObj [(''source'', JStr ''FTS''), (''title'', JStr ''Cloud hosting'')]]
      (noCriteria\<lparr>keywordsC := []\<rparr>)
     = Inr [JObj [(''source'', JStr ''CF''), (''title'', JStr ''Road works'')],
            JObj [(''source'', JStr ''FTS''), (''title'', JStr ''NHS Cloud hosting'')],
            JObj [(''source'', JStr ''FTS''), (''title'', JStr ''Cloud hosting'')]]
   \<and> applyFilters referencePlatform
        [JObj [(''source'', JStr ''CF''), (''title'', JStr ''Road works'')],
         JObj [(''source'', JStr ''FTS''), (''title'', JStr ''NHS Cloud hosting'')],
         JObj [(''source'', JStr ''FTS''), (''title'', JStr ''Cloud hosting'')]]
        (noCriteria\<lparr>keywordsC := [''Cloud'']\<rparr>)
       = Inr [JObj [(''source'', JStr ''CF''), (''title'', JStr ''Road works'')],
              JObj [(''source'', JStr ''FTS''), (''title'', JStr ''NHS Cloud hosting'')]]
   \<and> [JObj [(''source'', JStr ''CF''), (''title'', JStr ''Road works'')],
    JObj [(''source'', JStr ''FTS''), (''title'', JStr ''NHS Cloud hosting'')]]
     = filter (\<lambda>n. isFindATenderNotice referencePlatform n \<and> list_ex (\<lambda>k. k \<noteq> []) [''Cloud'']
                   \<longrightarrow> (\<exists>blob. buildSearchableBlob referencePlatform n = Inr blob
                          \<and> list_ex (\<lambda>k. k \<noteq> [] \<and> str_includes blob (toLowerCase k)) [''Cloud''])
                       \<and> matchesAuthorityKeywords n)
         [JObj [(''source'', JStr ''CF''), (''title'', JStr ''Road works'')],
          JObj [(''source'', JStr ''FTS''), (''title'', JStr ''NHS Cloud hosting'')],
          JObj [(''source'', JStr ''FTS''), (''title'', JStr ''Cloud hosting'')]]
   \<and> isFindATenderNotice referencePlatform
        (JObj [(''source'', JStr ''fts''), (''title'', JStr ''Cloud hosting'')])
   \<and> \<not> isFindATenderNotice referencePlatform
        (JObj [(''source'', JStr ''CF''), (''title'', JStr ''Road works'')])"
proof -
  let ?cf = "JObj [(''source'', JStr ''CF''), (''title'', JStr ''Road works'')]"
  let ?a = "JObj [(''source'', JStr ''FTS''), (''title'', JStr ''NHS Cloud hosting'')]"
  let ?b = "JObj [(''source'', JStr ''FTS''), (''title'', JStr ''Cloud hosting'')]"
  let ?l = "JObj [(''source'', JStr ''fts''), (''title'', JStr ''Cloud hosting'')]"
  have b: "applyFilters referencePlatform [?cf, ?a, ?b] (noCriteria\<lparr>keywordsC := []\<rparr>)
             = Inr [?cf, ?a, ?b]" by code_simp
  have k: "applyFilters referencePlatform [?cf, ?a, ?b] (noCriteria\<lparr>keywordsC := [''Cloud'']\<rparr>)
             = Inr [?cf, ?a]" by code_simp
  note t = keyword_filter_only_for_find_a_tender
    [where js = referencePlatform and notices = "[?cf, ?a, ?b]" and c = noCriteria
       and base = "[?cf, ?a, ?b]" and ks = "[''Cloud'']" and kept = "[?cf, ?a]"
       and n = ?l and s = "''fts''"]
  note c1 = t[THEN conjunct1, THEN mp, OF conjI[OF b k]]
  have s1: "toStr referencePlatform (orElse (getProp ?l ''source'') (JStr [])) = Inr ''fts''"
    by code_simp
  have u1: "toUpperCase ''fts'' = units ''FTS'' \<or> toUpperCase ''fts'' = units ''TD''
             \<or> toUpperCase ''fts'' = units ''FIND A TENDER''" by code_simp
  from t[THEN conjunct2, THEN conjunct1, THEN mp, OF s1] u1
  have c2: "isFindATenderNotice referencePlatform ?l" by simp
  note t' = keyword_filter_only_for_find_a_tender
    [where js = referencePlatform and notices = "[]" and c = noCriteria
       and base = "[]" and ks = "[]" and kept = "[]" and n = ?cf and s = "''CF''"]
  have s2: "toStr referencePlatform (orElse (getProp ?cf ''source'') (JStr [])) = Inr ''CF''"
    by code_simp
  have u2: "toUpperCase ''CF'' = units ''CF'' \<or> toUpperCase ''CF'' = units ''CONTRACTS FINDER''"
    by code_simp
  note c3 = t'[THEN conjunct2, THEN conjunct2, THEN conjunct1, THEN mp, OF conjI[OF s2 u2]]
  show ?thesis
    apply (intro conjI)
    apply (rule b)
    apply (rule k)
    apply (rule c1)
    apply (rule c2)
    apply (rule c3)
    done
qed

subsection \<open>C9: an explicit stage wins\<close>

text \<open>
  C9: for every notice whose \<open>procurementStage\<close> field normalises (lower case, letters and
  digits only, then the stage patterns) to one of the six stage tokens,
  \<open>deriveProcurementStage\<close> returns the label of that token, whatever the notice's
  \<open>noticeStatus\<close>, \<open>noticeType\<close> and other fields are.
\<close>

theorem explicit_stage_priority:
  assumes ex: "normaliseProcurementStageToken js (getProp notice ''procurementStage'') = Inr token"
    and lab: "(token, label) \<in> set STAGE_LABELS_table"
  shows "deriveProcurementStage js notice = Inr (JStr label)"
proof -
  from lab have ne: "token \<noteq> []" and l: "STAGE_LABELS token = JStr label"
    unfolding STAGE_LABELS_table_def STAGE_LABELS_def literalLookup_def by auto
  have "getProp notice ''procurementStage'' \<noteq> JUndefined"
  proof
    assume "getProp notice ''procurementStage'' = JUndefined"
    with ex have "token = []"
      unfolding normaliseProcurementStageToken_def normaliseToken_def by simp
    with ne show False by simp
  qed
  from getProp_object[OF this] obtain kvs where "notice = JObj kvs" by blast
  with ex ne l show ?thesis unfolding deriveProcurementStage_def by simp
qed

theorem explicit_stage_priority_witness:
  "normaliseProcurementStageToken referencePlatform
     (getProp (JObj [(''procurementStage'', JStr ''Contract-Award''), (''source'', JStr ''CF''),
                     (''noticeType'', JStr ''Pipeline''), (''noticeStatus'', JStr ''Open'')])
        ''procurementStage'') = Inr ''award''
   \<and> (''award'', ''Award'') \<in> set STAGE_LABELS_table
   \<and> deriveProcurementStage referencePlatform
        (JObj [(''procurementStage'', JStr ''Contract-Award''), (''source'', JStr ''CF''),
               (''noticeType'', JStr ''Pipeline''), (''noticeStatus'', JStr ''Open'')])
       = Inr (JStr ''Award'')"
proof -
  let ?n = "JObj [(''procurementStage'', JStr ''Contract-Award''), (''source'', JStr ''CF''),
                  (''noticeType'', JStr ''Pipeline''), (''noticeStatus'', JStr ''Open'')]"
  have h1: "normaliseProcurementStageToken referencePlatform (getProp ?n ''procurementStage'') = Inr ''award''"
    by code_simp
  have h2: "(''award'', ''Award'') \<in> set STAGE_LABELS_table"
    by code_simp
  from explicit_stage_priority[OF h1 h2] h1 h2 show ?thesis by blast
qed

subsection \<open>C10: re-deriving the stage after attaching it\<close>

text \<open>
  Whenever \<open>deriveProcurementStage\<close> returns a string, a label or the empty string, the
  stage derived from the notice with the stage attached is the same string.
\<close>

lemma getProp_updateProp:
  "getProp (JObj (updateProp k v kvs)) k' = (if k' = k then v else getProp (JObj kvs) k')"
  by (induction kvs) auto

lemma someE_False_iff: "someE f xs = Inr False \<longleftrightarrow> (\<forall>x\<in>set xs. f x = Inr False)"
proof (induction xs)
  case Nil
  then show ?case by simp
next
  case (Cons x xs)
  show ?case
  proof (cases "f x")
    case (Inl e)
    then show ?thesis by simp
  next
    case (Inr b)
    with Cons show ?thesis by (cases b) auto
  qed
qed

lemma resolveLoop_none_iff:
  assumes "[] \<notin> fst ` set ms"
  shows "resolveLoop ms vals = Inr []
           \<longleftrightarrow> (\<forall>m\<in>set ms. someE (\<lambda>c. someE (\<lambda>p. includesMethod c p) (snd m)) vals = Inr False)"
  using assms
proof (induction ms)
  case Nil
  then show ?case by simp
next
  case (Cons m ms)
  obtain token patterns where m: "m = (token, patterns)" by (cases m)
  with Cons.prems have ne: "token \<noteq> []" and rest: "[] \<notin> fst ` set ms" by auto
  show ?case
  proof (cases "someE (\<lambda>c. someE (\<lambda>p. includesMethod c p) patterns) vals")
    case (Inl e)
    with m show ?thesis by auto
  next
    case (Inr b)
    show ?thesis
    proof (cases b)
      case True
      with Inr m ne show ?thesis by auto
    next
      case False
      with Inr m Cons.IH[OF rest] show ?thesis by auto
    qed
  qed
qed

lemma resolveStageToken_subset:
  assumes "resolveStageToken vals = Inr []" "set vals' \<subseteq> set vals"
  shows "resolveStageToken vals' = Inr []"
proof -
  have ne: "[] \<notin> fst ` set STAGE_MATCHERS"
    unfolding fst_STAGE_MATCHERS stageTokens_def by simp
  from assms(1) have
    "\<forall>m\<in>set STAGE_MATCHERS. someE (\<lambda>c. someE (\<lambda>p. includesMethod c p) (snd m)) vals = Inr False"
    unfolding resolveStageToken_def resolveLoop_none_iff[OF ne] .
  then have
    "\<forall>m\<in>set STAGE_MATCHERS. someE (\<lambda>c. someE (\<lambda>p. includesMethod c p) (snd m)) vals' = Inr False"
    unfolding someE_False_iff using assms(2) by blast
  then show ?thesis unfolding resolveStageToken_def resolveLoop_none_iff[OF ne] .
qed

lemma STAGE_LABELS_not_empty:
  assumes "t \<in> set stageTokens \<or> t = ''constructor''"
  shows "STAGE_LABELS t \<noteq> JStr []"
  using assms
  unfolding stageTokens_def STAGE_LABELS_def STAGE_LABELS_table_def literalLookup_def
    objectPrototype_def
  by auto

lemma label_round_trip:
  assumes "v \<in> set stageLabels"
  shows "\<exists>t. normaliseProcurementStageToken js v = Inr t \<and> t \<noteq> [] \<and> STAGE_LABELS t = v"
proof -
  have "normaliseProcurementStageToken js (JStr ''Pipeline'') = Inr ''pipeline''" by code_simp
  moreover have "normaliseProcurementStageToken js (JStr ''Planning'') = Inr ''planning''" by code_simp
  moreover have "normaliseProcurementStageToken js (JStr ''Tender'') = Inr ''tender''" by code_simp
  moreover have "normaliseProcurementStageToken js (JStr ''Award'') = Inr ''award''" by code_simp
  moreover have "normaliseProcurementStageToken js (JStr ''Contract'') = Inr ''contract''" by code_simp
  moreover have "normaliseProcurementStageToken js (JStr ''Termination'') = Inr ''termination''"
    by code_simp
  ultimately show ?thesis
    using assms unfolding stageLabels_def by (auto simp: STAGE_LABELS_values)
qed

lemma derive_tokens:
  assumes n: "\<not> (\<not> truthy notice \<or> typeof notice \<noteq> ''object'')"
    and e: "normaliseProcurementStageToken js (getProp notice ''procurementStage'') = Inr []"
    and src: "toStr js (orElse (getProp notice ''source'') (JStr [])) = Inr src"
    and ty: "normaliseContractsFinderType js (orElse (getProp notice ''noticeType'') (JStr [])) = Inr ty"
    and st: "normaliseToken js (orElse (getProp notice ''noticeStatus'') (JStr [])) = Inr st"
  shows "deriveProcurementStage js notice =
     (if isContractsFinderSource (toUpperCase src) \<and> ty = JStr ''pipeline'' then Inr (JStr ''Pipeline'')
      else if isContractsFinderSource (toUpperCase src) \<and> ty = JStr ''preprocurement'' then Inr (JStr ''Planning'')
      else if isContractsFinderSource (toUpperCase src) \<and> st = ''open'' then Inr (JStr ''Tender'')
      else if isContractsFinderSource (toUpperCase src) \<and> st = ''awarded''
        then Inr (if hasContractTiming notice then JStr ''Contract'' else JStr ''Award'')
      else if isContractsFinderSource (toUpperCase src) \<and> st = ''closed'' then Inr (JStr ''Termination'')
      else
        bindE (collectStageCandidates js notice) (\<lambda>collected.
        bindE (resolveStageToken ((if truthy ty then [ty] else []) @ map JStr collected
                                   @ (if st \<noteq> [] then [JStr st] else []))) (\<lambda>resolved.
          if resolved \<noteq> [] then Inr (STAGE_LABELS resolved)
          else if isContractsFinderSource (toUpperCase src) \<and> ty = JStr ''contract'' then Inr (JStr ''Tender'')
          else Inr (JStr []))))"
  unfolding deriveProcurementStage_def e src ty st bindE_Inr Let_def STAGE_LABELS_values
  using n by simp

lemma derive_first_tokens:
  assumes d: "deriveProcurementStage js notice = Inr v"
    and g: "\<not> (\<not> truthy notice \<or> typeof notice \<noteq> ''object'')"
  obtains e where "normaliseProcurementStageToken js (getProp notice ''procurementStage'') = Inr e"
    "e \<noteq> [] \<Longrightarrow> v = STAGE_LABELS e"
    "e = [] \<Longrightarrow> \<exists>src ty st.
        toStr js (orElse (getProp notice ''source'') (JStr [])) = Inr src
      \<and> normaliseContractsFinderType js (orElse (getProp notice ''noticeType'') (JStr [])) = Inr ty
      \<and> normaliseToken js (orElse (getProp notice ''noticeStatus'') (JStr [])) = Inr st"
proof -
  from d g obtain e where
    e: "normaliseProcurementStageToken js (getProp notice ''procurementStage'') = Inr e"
    unfolding deriveProcurementStage_def by (auto simp: bindE_Inr_iff)
  have a: "e \<noteq> [] \<Longrightarrow> v = STAGE_LABELS e"
    using d g unfolding deriveProcurementStage_def e bindE_Inr by simp
  have b: "e = [] \<Longrightarrow> \<exists>src ty st.
        toStr js (orElse (getProp notice ''source'') (JStr [])) = Inr src
      \<and> normaliseContractsFinderType js (orElse (getProp notice ''noticeType'') (JStr [])) = Inr ty
      \<and> normaliseToken js (orElse (getProp notice ''noticeStatus'') (JStr [])) = Inr st"
  proof -
    assume "e = []"
    show ?thesis
    proof (cases "toStr js (orElse (getProp notice ''source'') (JStr []))")
      case (Inl x)
      with d g e \<open>e = []\<close> show ?thesis unfolding deriveProcurementStage_def by simp
    next
      case src: (Inr src)
      show ?thesis
      proof (cases "normaliseContractsFinderType js (orElse (getProp notice ''noticeType'') (JStr []))")
        case (Inl x)
        with d g e \<open>e = []\<close> src show ?thesis unfolding deriveProcurementStage_def by simp
      next
        case ty: (Inr ty)
        show ?thesis
        proof (cases "normaliseToken js (orElse (getProp notice ''noticeStatus'') (JStr []))")
          case (Inl x)
          with d g e \<open>e = []\<close> src ty show ?thesis unfolding deriveProcurementStage_def by simp
        next
          case (Inr st)
          with src ty show ?thesis by blast
        qed
      qed
    qed
  qed
  from that[OF e a b] show thesis by blast
qed

lemma derive_result_cases:
  assumes d: "deriveProcurementStage js notice = Inr v"
  shows "v \<in> set stageLabels \<or> v = JStr []
       \<or> (v = JFun ''Object''
          \<and> normaliseProcurementStageToken js (getProp notice ''procurementStage'') = Inr ''constructor'')"
proof (cases "\<not> truthy notice \<or> typeof notice \<noteq> ''object''")
  case True
  with d show ?thesis unfolding deriveProcurementStage_def by simp
next
  case False
  note n = this
  from derive_first_tokens[OF d False] obtain e where
    e: "normaliseProcurementStageToken js (getProp notice ''procurementStage'') = Inr e"
    and a: "e \<noteq> [] \<Longrightarrow> v = STAGE_LABELS e"
    and b: "e = [] \<Longrightarrow> \<exists>src ty st.
        toStr js (orElse (getProp notice ''source'') (JStr [])) = Inr src
      \<and> normaliseContractsFinderType js (orElse (getProp notice ''noticeType'') (JStr [])) = Inr ty
      \<and> normaliseToken js (orElse (getProp notice ''noticeStatus'') (JStr [])) = Inr st"
    by blast
  show ?thesis
  proof (cases "e = []")
    case ne: False
    from normaliseProcurementStageToken_result[OF e] ne
    have "e \<in> set stageTokens \<or> e = ''constructor''" by simp
    then show ?thesis
    proof
      assume "e \<in> set stageTokens"
      from STAGE_LABELS_token[OF this] a[OF ne] show ?thesis by simp
    next
      assume c: "e = ''constructor''"
      with a[OF ne] have "v = JFun ''Object''"
        unfolding STAGE_LABELS_def STAGE_LABELS_table_def literalLookup_def objectPrototype_def
        by simp
      with e c show ?thesis by simp
    qed
  next
    case True
    from b[OF True] obtain src ty st where
      src: "toStr js (orElse (getProp notice ''source'') (JStr [])) = Inr src"
      and ty: "normaliseContractsFinderType js (orElse (getProp notice ''noticeType'') (JStr [])) = Inr ty"
      and st: "normaliseToken js (orElse (getProp notice ''noticeStatus'') (JStr [])) = Inr st"
      by blast
    note t = derive_tokens[OF n e[unfolded True] src ty st]
    let ?cf = "isContractsFinderSource (toUpperCase src)"
    consider (shortcut) "(?cf \<and> ty = JStr ''pipeline'') \<or> (?cf \<and> ty = JStr ''preprocurement'')
                \<or> (?cf \<and> st = ''open'') \<or> (?cf \<and> st = ''awarded'') \<or> (?cf \<and> st = ''closed'')"
      | (general) "\<not> (?cf \<and> ty = JStr ''pipeline'')" "\<not> (?cf \<and> ty = JStr ''preprocurement'')"
          "\<not> (?cf \<and> st = ''open'')" "\<not> (?cf \<and> st = ''awarded'')" "\<not> (?cf \<and> st = ''closed'')"
      by blast
    then show ?thesis
    proof cases
      case shortcut
      with d t show ?thesis unfolding stageLabels_def by (auto split: if_splits)
    next
      case general
      with d t have u: "bindE (collectStageCandidates js notice) (\<lambda>collected.
        bindE (resolveStageToken ((if truthy ty then [ty] else []) @ map JStr collected
                                   @ (if st \<noteq> [] then [JStr st] else []))) (\<lambda>resolved.
          if resolved \<noteq> [] then Inr (STAGE_LABELS resolved)
          else if ?cf \<and> ty = JStr ''contract'' then Inr (JStr ''Tender'')
          else Inr (JStr []))) = Inr v" by simp
      then obtain collected resolved where
        r: "resolveStageToken ((if truthy ty then [ty] else []) @ map JStr collected
                                   @ (if st \<noteq> [] then [JStr st] else [])) = Inr resolved"
        and w: "(if resolved \<noteq> [] then Inr (STAGE_LABELS resolved)
          else if ?cf \<and> ty = JStr ''contract'' then Inr (JStr ''Tender'')
          else Inr (JStr [])) = (Inr v :: error + jsval)"
        unfolding bindE_Inr_iff by blast
      show ?thesis
      proof (cases "resolved = []")
        case True
        with w show ?thesis unfolding stageLabels_def by (auto split: if_splits)
      next
        case False
        with resolveStageToken_result[OF r] have "resolved \<in> set stageTokens" by simp
        from STAGE_LABELS_token[OF this] w False show ?thesis by simp
      qed
    qed
  qed
qed

lemma hasContractTiming_updateProp:
  "hasContractTiming (JObj (updateProp ''procurementStage'' v props)) = hasContractTiming (JObj props)"
  unfolding hasContractTiming_def getProp_updateProp by simp

lemma collectStageCandidates_attach_null:
  assumes "collectStageCandidates js (JObj props) = Inr collected"
  shows "\<exists>collected'. collectStageCandidates js (JObj (updateProp ''procurementStage'' JNull props))
            = Inr collected' \<and> set collected' \<subseteq> set collected"
proof -
  let ?n = "JObj props" and ?n' = "JObj (updateProp ''procurementStage'' JNull props)"
  let ?others = "[''noticeStage'', ''stage'', ''stageName'', ''noticeType'',
               ''noticeStatus'', ''type'', ''status'', ''tags'']"
  let ?extras = "\<lambda>notice. (if truthy (orElse (getProp notice ''awardedDate'') (getProp notice ''awardedValue''))
               then [''award''] else [])
            @ (if hasContractTiming notice then [''contract''] else [])
            @ (if truthy (orElse (getProp notice ''end'')
                          (orElse (getProp notice ''contractEnd'')
                            (orElse (getProp notice ''contractEndDate'')
                              (getProp notice ''terminationDate''))))
               then [''termination''] else [])"
  from assms obtain tss where
    seq: "sequenceE (map (\<lambda>k. pushValue js (getProp ?n k)) (''procurementStage'' # ?others)) = Inr tss"
    and col: "collected = concat tss @ ?extras ?n"
    unfolding collectStageCandidates_def bindE_Inr_iff by auto
  from seq obtain ts0 tss' where
    rest: "sequenceE (map (\<lambda>k. pushValue js (getProp ?n k)) ?others) = Inr tss'"
    and tss: "tss = ts0 # tss'"
    by (auto split: sum.splits)
  have same: "map (\<lambda>k. pushValue js (getProp ?n' k)) ?others
                = map (\<lambda>k. pushValue js (getProp ?n k)) ?others"
    unfolding getProp_updateProp by simp
  have first: "pushValue js (getProp ?n' ''procurementStage'') = Inr []"
    unfolding getProp_updateProp by simp
  have seq': "sequenceE (map (\<lambda>k. pushValue js (getProp ?n' k)) (''procurementStage'' # ?others))
                = Inr ([] # tss')"
    unfolding list.map first same[unfolded list.map] using rest by simp
  have ex: "?extras ?n' = ?extras ?n"
    unfolding getProp_updateProp hasContractTiming_updateProp by simp
  have "collectStageCandidates js ?n' = Inr (concat ([] # tss') @ ?extras ?n)"
    unfolding collectStageCandidates_def seq' bindE_Inr ex ..
  moreover have "set (concat ([] # tss') @ ?extras ?n) \<subseteq> set collected"
    unfolding col tss by auto
  ultimately show ?thesis by blast
qed

lemma attached_string_stage_rederived:
  assumes d: "deriveProcurementStage js (JObj props) = Inr (JStr label)"
  shows "attachStage js props
           = Inr (JObj (updateProp ''procurementStage'' (stageOrNull (JStr label)) props))
       \<and> deriveProcurementStage js
             (JObj (updateProp ''procurementStage'' (stageOrNull (JStr label)) props))
           = Inr (JStr label)"
proof -
  let ?n = "JObj props"
  let ?n' = "JObj (updateProp ''procurementStage'' (stageOrNull (JStr label)) props)"
  have att: "attachStage js props = Inr ?n'" unfolding attachStage_def d by simp
  have g: "\<not> (\<not> truthy ?n \<or> typeof ?n \<noteq> ''object'')" by simp
  have g': "\<not> (\<not> truthy ?n' \<or> typeof ?n' \<noteq> ''object'')" by simp
  have "deriveProcurementStage js ?n' = Inr (JStr label)"
  proof (cases "label = []")
    case False
    from derive_result_cases[OF d] False have "JStr label \<in> set stageLabels" by simp
    from label_round_trip[OF this, of js] obtain t where
      t: "normaliseProcurementStageToken js (JStr label) = Inr t" "t \<noteq> []"
         "STAGE_LABELS t = JStr label" by blast
    have "getProp ?n' ''procurementStage'' = JStr label"
      unfolding getProp_updateProp stageOrNull_def orElse_def using False by simp
    with t show ?thesis unfolding deriveProcurementStage_def by simp
  next
    case True
    have null: "stageOrNull (JStr label) = JNull"
      unfolding stageOrNull_def orElse_def True by simp
    from derive_first_tokens[OF d g] obtain e where
      e: "normaliseProcurementStageToken js (getProp ?n ''procurementStage'') = Inr e"
      and a: "e \<noteq> [] \<Longrightarrow> JStr label = STAGE_LABELS e"
      and b: "e = [] \<Longrightarrow> \<exists>src ty st.
          toStr js (orElse (getProp ?n ''source'') (JStr [])) = Inr src
        \<and> normaliseContractsFinderType js (orElse (getProp ?n ''noticeType'') (JStr [])) = Inr ty
        \<and> normaliseToken js (orElse (getProp ?n ''noticeStatus'') (JStr [])) = Inr st"
      by blast
    have e0: "e = []"
    proof (rule ccontr)
      assume ne: "e \<noteq> []"
      from normaliseProcurementStageToken_result[OF e] ne
      have "e \<in> set stageTokens \<or> e = ''constructor''" by simp
      from STAGE_LABELS_not_empty[OF this] a[OF ne] True show False by simp
    qed
    from b[OF e0] obtain src ty st where
      src: "toStr js (orElse (getProp ?n ''source'') (JStr [])) = Inr src"
      and ty: "normaliseContractsFinderType js (orElse (getProp ?n ''noticeType'') (JStr [])) = Inr ty"
      and st: "normaliseToken js (orElse (getProp ?n ''noticeStatus'') (JStr [])) = Inr st"
      by blast
    note t = derive_tokens[OF g e[unfolded e0] src ty st]
    let ?cf = "isContractsFinderSource (toUpperCase src)"
    from d t True have nshort:
      "\<not> (?cf \<and> ty = JStr ''pipeline'')" "\<not> (?cf \<and> ty = JStr ''preprocurement'')"
      "\<not> (?cf \<and> st = ''open'')" "\<not> (?cf \<and> st = ''awarded'')" "\<not> (?cf \<and> st = ''closed'')"
      by (auto split: if_splits)
    with d t True have u: "bindE (collectStageCandidates js ?n) (\<lambda>collected.
        bindE (resolveStageToken ((if truthy ty then [ty] else []) @ map JStr collected
                                   @ (if st \<noteq> [] then [JStr st] else []))) (\<lambda>resolved.
          if resolved \<noteq> [] then Inr (STAGE_LABELS resolved)
          else if ?cf \<and> ty = JStr ''contract'' then Inr (JStr ''Tender'')
          else Inr (JStr []))) = Inr (JStr [])" by simp
    then obtain collected resolved where
      c: "collectStageCandidates js ?n = Inr collected"
      and r: "resolveStageToken ((if truthy ty then [ty] else []) @ map JStr collected
                                   @ (if st \<noteq> [] then [JStr st] else [])) = Inr resolved"
      and w: "(if resolved \<noteq> [] then Inr (STAGE_LABELS resolved)
          else if ?cf \<and> ty = JStr ''contract'' then Inr (JStr ''Tender'')
          else Inr (JStr [])) = (Inr (JStr []) :: error + jsval)"
      unfolding bindE_Inr_iff by blast
    have r0: "resolved = []"
    proof (rule ccontr)
      assume ne: "resolved \<noteq> []"
      with resolveStageToken_result[OF r] have "resolved \<in> set stageTokens \<or> resolved = ''constructor''"
        by simp
      from STAGE_LABELS_not_empty[OF this] w ne show False by simp
    qed
    with w have ncontract: "\<not> (?cf \<and> ty = JStr ''contract'')" by (auto split: if_splits)
    from collectStageCandidates_attach_null[OF c] obtain collected' where
      c': "collectStageCandidates js (JObj (updateProp ''procurementStage'' JNull props)) = Inr collected'"
      and sub: "set collected' \<subseteq> set collected" by blast
    have "set ((if truthy ty then [ty] else []) @ map JStr collected'
                @ (if st \<noteq> [] then [JStr st] else []))
          \<subseteq> set ((if truthy ty then [ty] else []) @ map JStr collected
                @ (if st \<noteq> [] then [JStr st] else []))"
      using sub by auto
    from resolveStageToken_subset[OF r[unfolded r0] this]
    have r': "resolveStageToken ((if truthy ty then [ty] else []) @ map JStr collected'
                @ (if st \<noteq> [] then [JStr st] else [])) = Inr []" .
    have e': "normaliseProcurementStageToken js (getProp ?n' ''procurementStage'') = Inr []"
      unfolding getProp_updateProp null normaliseProcurementStageToken_def normaliseToken_def
      by simp
    have src': "toStr js (orElse (getProp ?n' ''source'') (JStr [])) = Inr src"
      unfolding getProp_updateProp using src by simp
    have ty': "normaliseContractsFinderType js (orElse (getProp ?n' ''noticeType'') (JStr [])) = Inr ty"
      unfolding getProp_updateProp using ty by simp
    have st': "normaliseToken js (orElse (getProp ?n' ''noticeStatus'') (JStr [])) = Inr st"
      unfolding getProp_updateProp using st by simp
    note t' = derive_tokens[OF g' e' src' ty' st']
    have "deriveProcurementStage js ?n' = Inr (JStr [])"
      unfolding t' using nshort ncontract c'[folded null] r' by simp
    then show ?thesis unfolding True .
  qed
  with att show ?thesis by blast
qed

text \<open>
  C10: the search route attaches the stage to the notices that its two mappers have just
  built, and neither gives a notice a \<open>procurementStage\<close> of its own: the Contracts Finder
  mapper writes a fixed list of members (\<^verbatim>\<open>src/unnamed/part_000\<close>, lines 86-121), and the
  Find a Tender mapper copies a hit whose members are those of lines 353-363, 427-438 and
  490-524 of \<^verbatim>\<open>src/lib/filters.mjs\<close>. For every such notice, attaching the derived stage
  (\<open>procurementStage: stageLabel || null\<close>) and deriving again gives what
  \<open>deriveProcurementStage\<close> gave on the notice, an error included; when it gave a stage,
  the stage is one of the six labels or the empty string, the value attached is that
  label, or \<open>null\<close> for the empty string, and the stage derived inside \<open>applyFilters\<close> from
  the notice with the stage attached is the same stage.
\<close>

theorem stage_attachment_idempotent:
  assumes absent: "map_of props ''procurementStage'' = None"
  shows "bindE (attachStage js props) (deriveProcurementStage js)
           = deriveProcurementStage js (JObj props)
       \<and> (\<forall>stage. deriveProcurementStage js (JObj props) = Inr stage
            \<longrightarrow> stage \<in> set (stageLabels @ [JStr []])
               \<and> attachStage js props
                   = Inr (JObj (updateProp ''procurementStage'' (stageOrNull stage) props))
               \<and> deriveProcurementStage js
                     (JObj (updateProp ''procurementStage'' (stageOrNull stage) props))
                   = Inr stage)"
proof -
  have none: "normaliseProcurementStageToken js (getProp (JObj props) ''procurementStage'') = Inr []"
    using absent unfolding normaliseProcurementStageToken_def normaliseToken_def by simp
  have strings: "\<exists>label. stage = JStr label \<and> stage \<in> set (stageLabels @ [JStr []])"
    if d: "deriveProcurementStage js (JObj props) = Inr stage" for stage
  proof -
    from derive_result_cases[OF d] none
    have "stage \<in> set stageLabels \<or> stage = JStr []" by auto
    then show ?thesis unfolding stageLabels_def by auto
  qed
  have second: "\<forall>stage. deriveProcurementStage js (JObj props) = Inr stage
            \<longrightarrow> stage \<in> set (stageLabels @ [JStr []])
               \<and> attachStage js props
                   = Inr (JObj (updateProp ''procurementStage'' (stageOrNull stage) props))
               \<and> deriveProcurementStage js
                     (JObj (updateProp ''procurementStage'' (stageOrNull stage) props))
                   = Inr stage"
  proof (intro allI impI)
    fix stage assume d: "deriveProcurementStage js (JObj props) = Inr stage"
    from strings[OF d] obtain label where l: "stage = JStr label"
      and r: "stage \<in> set (stageLabels @ [JStr []])" by blast
    from attached_string_stage_rederived[OF d[unfolded l]] r
    show "stage \<in> set (stageLabels @ [JStr []])
               \<and> attachStage js props
                   = Inr (JObj (updateProp ''procurementStage'' (stageOrNull stage) props))
               \<and> deriveProcurementStage js
                     (JObj (updateProp ''procurementStage'' (stageOrNull stage) props))
                   = Inr stage"
      unfolding l by simp
  qed
  have first: "bindE (attachStage js props) (deriveProcurementStage js)
           = deriveProcurementStage js (JObj props)"
  proof (cases "deriveProcurementStage js (JObj props)")
    case (Inl e)
    then show ?thesis unfolding attachStage_def by simp
  next
    case (Inr stage)
    with second have "attachStage js props
                   = Inr (JObj (updateProp ''procurementStage'' (stageOrNull stage) props))"
      and "deriveProcurementStage js
                     (JObj (updateProp ''procurementStage'' (stageOrNull stage) props))
                   = Inr stage" by blast+
    with Inr show ?thesis by simp
  qed
  from first second show ?thesis by (rule conjI)
qed

theorem stage_attachment_idempotent_witness:
  "map_of [(''source'', JStr ''CF''), (''noticeType'', JStr ''Contract''),
           (''noticeStatus'', JStr ''Awarded''), (''start'', JStr ''2024-01-01'')]
      ''procurementStage'' = None
   \<and> deriveProcurementStage referencePlatform
        (JObj [(''source'', JStr ''CF''), (''noticeType'', JStr ''Contract''),
               (''noticeStatus'', JStr ''Awarded''), (''start'', JStr ''2024-01-01'')])
       = Inr (JStr ''Contract'')
   \<and> attachStage referencePlatform
        [(''source'', JStr ''CF''), (''noticeType'', JStr ''Contract''),
         (''noticeStatus'', JStr ''Awarded''), (''start'', JStr ''2024-01-01'')]
       = Inr (JObj [(''source'', JStr ''CF''), (''noticeType'', JStr ''Contract''),
                    (''noticeStatus'', JStr ''Awarded''), (''start'', JStr ''2024-01-01''),
                    (''procurementStage'', JStr ''Contract'')])
   \<and> bindE (attachStage referencePlatform
              [(''source'', JStr ''CF''), (''noticeType'', JStr ''Contract''),
               (''noticeStatus'', JStr ''Awarded''), (''start'', JStr ''2024-01-01'')])
        (deriveProcurementStage referencePlatform)
       = Inr (JStr ''Contract'')
   \<and> attachStage referencePlatform [(''source'', JStr ''FTS''), (''title'', JStr ''Survey'')]
       = Inr (JObj [(''source'', JStr ''FTS''), (''title'', JStr ''Survey''),
                    (''procurementStage'', JNull)])
   \<and> bindE (attachStage referencePlatform [(''source'', JStr ''FTS''), (''title'', JStr ''Survey'')])
        (deriveProcurementStage referencePlatform)
       = Inr (JStr [])"
proof -
  let ?a = "[(''source'', JStr ''CF''), (''noticeType'', JStr ''Contract''),
             (''noticeStatus'', JStr ''Awarded''), (''start'', JStr ''2024-01-01'')]"
  let ?b = "[(''source'', JStr ''FTS''), (''title'', JStr ''Survey'')]"
  have ha: "map_of ?a ''procurementStage'' = None" by simp
  have hb: "map_of ?b ''procurementStage'' = None" by simp
  have da: "deriveProcurementStage referencePlatform (JObj ?a) = Inr (JStr ''Contract'')"
    by code_simp
  have db: "deriveProcurementStage referencePlatform (JObj ?b) = Inr (JStr [])"
    by code_simp
  note ta = stage_attachment_idempotent[OF ha, of referencePlatform]
  note tb = stage_attachment_idempotent[OF hb, of referencePlatform]
  from ta[THEN conjunct1] da
  have a1: "bindE (attachStage referencePlatform ?a) (deriveProcurementStage referencePlatform)
              = Inr (JStr ''Contract'')" by simp
  from ta[THEN conjunct2, rule_format, OF da]
  have a2: "attachStage referencePlatform ?a
              = Inr (JObj (updateProp ''procurementStage'' (stageOrNull (JStr ''Contract'')) ?a))"
    by blast
  have a3: "updateProp ''procurementStage'' (stageOrNull (JStr ''Contract'')) ?a
              = ?a @ [(''procurementStage'', JStr ''Contract'')]" by code_simp
  from tb[THEN conjunct1] db
  have b1: "bindE (attachStage referencePlatform ?b) (deriveProcurementStage referencePlatform)
              = Inr (JStr [])" by simp
  from tb[THEN conjunct2, rule_format, OF db]
  have b2: "attachStage referencePlatform ?b
              = Inr (JObj (updateProp ''procurementStage'' (stageOrNull (JStr [])) ?b))"
    by blast
  have b3: "updateProp ''procurementStage'' (stageOrNull (JStr [])) ?b
              = ?b @ [(''procurementStage'', JNull)]" by code_simp
  show ?thesis
    apply (intro conjI)
    apply (rule ha)
    apply (rule da)
    using a2 a3 apply simp
    apply (rule a1)
    using b2 b3 apply simp
    apply (rule b1)
    done
qed

text \<open>
  The hypothesis is what the two mappers guarantee, and it is needed. A notice that came
  with the member \<open>procurementStage: "constructor"\<close> would be classified by the member
  \<open>constructor\<close> that the literal \<open>STAGE_LABELS\<close> inherits, the function \<open>Object\<close>, and the
  stage derived after attaching it would be the empty string.
\<close>

lemma deriveProcurementStage_constructor:
  "deriveProcurementStage js (JObj [(''procurementStage'', JStr ''constructor'')])
     = Inr (JFun ''Object'')
   \<and> attachStage js [(''procurementStage'', JStr ''constructor'')]
     = Inr (JObj [(''procurementStage'', JFun ''Object'')])
   \<and> deriveProcurementStage js (JObj [(''procurementStage'', JFun ''Object'')])
     = Inr (JStr [])"
  by code_simp

end
